theory Spec2Isabelle
  imports Main
begin

section \<open>The world the backup tool runs in\<close>

text \<open>
  The program of \<^verbatim>\<open>backup.c\<close> is a sequence of calls into the C library and the
  kernel. The embedding keeps every function of the source as a HOL function over an
  explicit state \<open>sys\<close>: the file system, what the environment answers (home
  directory, local time, \<^verbatim>\<open>realpath\<close>), which calls the operating system refuses, and
  the two output streams. The library calls are modelled after their POSIX manual pages;
  the functions of the repository are translated line by line further below.

  \<^item> A path is the string handed to the system call. The file system maps a path to the
    object it names, without following a symbolic link in the last component (what
    \<^verbatim>\<open>lstat\<close> would report). One file has one path: there are no hard links and no
    two spellings of a path.
  \<^item> A file is written through a stream of the C library, buffered as the GNU C library
    buffers it: what \<^verbatim>\<open>fwrite\<close> reports is what the stream has taken, and the bytes
    still in its buffer reach the file when the stream is closed.
  \<^item> \<^verbatim>\<open>random_delay\<close> only sleeps; it has no effect on the state and is left out.
  \<^item> \<^verbatim>\<open>getpwuid\<close> is taken to succeed; its \<^verbatim>\<open>pw_dir\<close> is the field \<open>homedir\<close>.
\<close>

type_synonym path = string
type_synonym bytes = "char list"

definition PATH_MAX :: nat where
  "PATH_MAX = 4096"

definition DEFAULT_TARGET_DIR :: path where
  "DEFAULT_TARGET_DIR = ''/media/pi/piBackup''"

definition CONFIG_FILE_PATH :: "path \<Rightarrow> path" where
  "CONFIG_FILE_PATH home = home @ ''/.config/backup_tool.conf''"

definition EXIT_FAILURE :: int where
  "EXIT_FAILURE = 1"

text \<open>The values of \<^verbatim>\<open>errno\<close> the model distinguishes; \<open>EUNSET\<close> stands for the value an
  earlier call has left behind when \<^verbatim>\<open>perror\<close> is called after a call that did not fail.\<close>

datatype errno =
  ENOENT | EEXIST | EACCES | ENOTDIR | EISDIR | ELOOP | ENOSPC | EPERM | ENXIO | EOVERFLOW | EUNSET

datatype special = Fifo | CharDev | BlockDev | Socket

text \<open>A file system object. The number is the object's permission bits (the low twelve
  bits of \<^verbatim>\<open>st_mode\<close>); a directory lists the names \<^verbatim>\<open>readdir\<close> returns, in that
  order, \<^verbatim>\<open>.\<close> and \<^verbatim>\<open>..\<close> included.\<close>

datatype node =
    Dir nat "string list"
  | Reg nat bytes
  | Lnk path
  | Special special nat

text \<open>One line of output: the level of the \<^verbatim>\<open>fprintf\<close> and its text without colour codes
  and newline; \<open>Perror\<close> is a call of \<^verbatim>\<open>perror\<close> with the value of \<^verbatim>\<open>errno\<close>.\<close>

datatype msg =
    Debug string
  | Info string
  | Warning string
  | Error string
  | Perror string errno
  | Plain string

datatype syscall = SysStat | SysOpendir | SysMkdir | SysOpenRead | SysOpenWrite | SysChmod

record tm =
  tm_year :: int
  tm_mon :: int
  tm_mday :: int
  tm_hour :: int
  tm_min :: int
  tm_sec :: int

text \<open>
  \<open>refuse\<close> is the part of the operating system the model does not compute: a call on a
  path it marks fails with \<^verbatim>\<open>EACCES\<close> (\<^verbatim>\<open>EPERM\<close> for \<^verbatim>\<open>chmod\<close>) whatever the file
  system holds. \<open>wlimit\<close> is the size up to which the named file can grow before a
  write comes back short (disk full, quota); \<open>None\<close> is no limit.
\<close>

record sys =
  files :: "path \<rightharpoonup> node"
  refuse :: "syscall \<Rightarrow> path \<Rightarrow> bool"
  wlimit :: "path \<Rightarrow> nat option"
  umask :: nat
  homedir :: path
  realpath_of :: "path \<rightharpoonup> path"
  localtime :: "tm option"
  stderr :: "msg list"
  stdout :: "msg list"

definition log_err :: "msg list \<Rightarrow> sys \<Rightarrow> sys" where
  "log_err ms s = s\<lparr>stderr := stderr s @ ms\<rparr>"

definition log_out :: "msg list \<Rightarrow> sys \<Rightarrow> sys" where
  "log_out ms s = s\<lparr>stdout := stdout s @ ms\<rparr>"

subsection \<open>Paths\<close>

text \<open>\<^verbatim>\<open>snprintf(buf, n, "%s/%s", a, b)\<close>: the buffer receives at most \<open>n - 1\<close> characters;
  the return value is the length the whole text would have had.\<close>

definition snprintf_path :: "nat \<Rightarrow> path \<Rightarrow> string \<Rightarrow> path" where
  "snprintf_path n a b = take (n - 1) (a @ ''/'' @ b)"

definition snprintf_len :: "path \<Rightarrow> string \<Rightarrow> nat" where
  "snprintf_len a b = length (a @ ''/'' @ b)"

definition strip_slashes :: "path \<Rightarrow> path" where
  "strip_slashes p = rev (dropWhile (\<lambda>c. c = CHR ''/'') (rev p))"

text \<open>The directory part and the last component of a path, as the kernel splits it when
  it creates an entry. A path of slashes only (the root) has no parent.\<close>

definition parent_of :: "path \<Rightarrow> path option" where
  "parent_of p =
     (let q = strip_slashes p in
      if q = [] then None
      else if CHR ''/'' \<notin> set q then Some ''.''
      else let d = strip_slashes (rev (tl (dropWhile (\<lambda>c. c \<noteq> CHR ''/'') (rev q)))) in
           Some (if d = [] then ''/'' else d))"

definition base_of :: "path \<Rightarrow> string" where
  "base_of p = rev (takeWhile (\<lambda>c. c \<noteq> CHR ''/'') (rev (strip_slashes p)))"

subsection \<open>System calls\<close>

definition SYMLOOP_MAX :: nat where
  "SYMLOOP_MAX = 40"

text \<open>Following the symbolic link in the last component, at most \<open>n\<close> links deep. The
  result is the path of an object that is not a link, or of nothing.\<close>

fun follow :: "(path \<rightharpoonup> node) \<Rightarrow> nat \<Rightarrow> path \<Rightarrow> errno + path" where
  "follow fs n p =
     (case fs p of
        Some (Lnk t) \<Rightarrow> (if n = 0 then Inl ELOOP else follow fs (n - 1) t)
      | _ \<Rightarrow> Inr p)"

declare follow.simps [simp del]

definition resolve :: "sys \<Rightarrow> path \<Rightarrow> errno + path" where
  "resolve s p = follow (files s) SYMLOOP_MAX p"

text \<open>\<^verbatim>\<open>st_mode\<close>: the file type in bits 12 to 15, the permission bits below.\<close>

definition S_IFDIR :: nat where "S_IFDIR = 4 * 4096"
definition S_IFREG :: nat where "S_IFREG = 8 * 4096"
definition S_IFLNK :: nat where "S_IFLNK = 10 * 4096"

definition S_ISDIR :: "nat \<Rightarrow> bool" where
  "S_ISDIR m = ((m div 4096) mod 16 = 4)"

definition S_ISREG :: "nat \<Rightarrow> bool" where
  "S_ISREG m = ((m div 4096) mod 16 = 8)"

fun special_fmt :: "special \<Rightarrow> nat" where
  "special_fmt Fifo = 1 * 4096"
| "special_fmt CharDev = 2 * 4096"
| "special_fmt BlockDev = 6 * 4096"
| "special_fmt Socket = 12 * 4096"

fun st_mode_of :: "node \<Rightarrow> nat" where
  "st_mode_of (Dir pm es) = S_IFDIR + pm mod 4096"
| "st_mode_of (Reg pm c) = S_IFREG + pm mod 4096"
| "st_mode_of (Lnk t) = S_IFLNK + 511"
| "st_mode_of (Special k pm) = special_fmt k + pm mod 4096"

text \<open>\<^verbatim>\<open>stat\<close> follows a symbolic link and reports the object it leads to; it never
  reports the type of the link itself (that is \<^verbatim>\<open>lstat\<close>, which the program does not
  call).\<close>

definition stat :: "sys \<Rightarrow> path \<Rightarrow> errno + nat" where
  "stat s p =
     (if refuse s SysStat p then Inl EACCES
      else case resolve s p of
        Inl e \<Rightarrow> Inl e
      | Inr q \<Rightarrow> (case files s q of None \<Rightarrow> Inl ENOENT | Some nd \<Rightarrow> Inr (st_mode_of nd)))"

text \<open>\<^verbatim>\<open>opendir\<close> followed by the \<^verbatim>\<open>readdir\<close> calls: the names the directory holds when it
  is opened.\<close>

definition opendir :: "sys \<Rightarrow> path \<Rightarrow> errno + string list" where
  "opendir s p =
     (if refuse s SysOpendir p then Inl EACCES
      else case resolve s p of
        Inl e \<Rightarrow> Inl e
      | Inr q \<Rightarrow>
          (case files s q of
             None \<Rightarrow> Inl ENOENT
           | Some (Dir pm es) \<Rightarrow> Inr es
           | Some _ \<Rightarrow> Inl ENOTDIR))"

text \<open>Entering a new name into the directory that is to hold it: the parent of the path
  must lead to a directory, whose list of names grows by the new one.\<close>

definition add_entry :: "sys \<Rightarrow> path \<Rightarrow> node \<Rightarrow> errno + sys" where
  "add_entry s p nd =
     (case parent_of p of
        None \<Rightarrow> Inl ENOENT
      | Some d \<Rightarrow>
          (case resolve s d of
             Inl e \<Rightarrow> Inl e
           | Inr dq \<Rightarrow>
               (case files s dq of
                  None \<Rightarrow> Inl ENOENT
                | Some (Dir pm es) \<Rightarrow>
                    Inr (s\<lparr>files := (files s)(dq \<mapsto> Dir pm (es @ [base_of p]), p \<mapsto> nd)\<rparr>)
                | Some _ \<Rightarrow> Inl ENOTDIR)))"

text \<open>\<^verbatim>\<open>mkdir(p, mode)\<close> does not follow a link at \<open>p\<close>: any object there is
  \<^verbatim>\<open>EEXIST\<close>.\<close>

definition mkdir :: "sys \<Rightarrow> path \<Rightarrow> nat \<Rightarrow> errno + sys" where
  "mkdir s p mode =
     (if files s p \<noteq> None then Inl EEXIST
      else if refuse s SysMkdir p then Inl EACCES
      else add_entry s p (Dir (mode - and mode (umask s)) [''.'', ''..'']))"

text \<open>\<^verbatim>\<open>fopen(p, "rb")\<close>: the stream is the path of the regular file that is read. A
  directory can be opened but every read of it fails, so it reads as empty.\<close>

definition fopen_rb :: "sys \<Rightarrow> path \<Rightarrow> errno + path" where
  "fopen_rb s p =
     (if refuse s SysOpenRead p then Inl EACCES
      else case resolve s p of
        Inl e \<Rightarrow> Inl e
      | Inr q \<Rightarrow>
          (case files s q of
             None \<Rightarrow> Inl ENOENT
           | Some (Special k pm) \<Rightarrow> Inl ENXIO
           | Some _ \<Rightarrow> Inr q))"

text \<open>What the stream delivers from its start to end of file.\<close>

definition file_data :: "sys \<Rightarrow> path \<Rightarrow> bytes" where
  "file_data s q = (case files s q of Some (Reg pm c) \<Rightarrow> c | _ \<Rightarrow> [])"

text \<open>\<^verbatim>\<open>fopen(p, "wb")\<close>: an existing regular file is truncated, a missing one is created
  with mode \<^verbatim>\<open>0666\<close> less the umask.\<close>

definition fopen_wb :: "sys \<Rightarrow> path \<Rightarrow> errno + (sys \<times> path)" where
  "fopen_wb s p =
     (if refuse s SysOpenWrite p then Inl EACCES
      else case resolve s p of
        Inl e \<Rightarrow> Inl e
      | Inr q \<Rightarrow>
          (case files s q of
             None \<Rightarrow>
               (case add_entry s q (Reg (438 - and 438 (umask s)) []) of
                  Inl e \<Rightarrow> Inl e
                | Inr s' \<Rightarrow> Inr (s', q))
           | Some (Reg pm c) \<Rightarrow> Inr (s\<lparr>files := (files s)(q \<mapsto> Reg pm [])\<rparr>, q)
           | Some (Dir pm es) \<Rightarrow> Inl EISDIR
           | Some _ \<Rightarrow> Inl ENXIO))"

text \<open>What a stream of the C library hands to the kernel: \<^verbatim>\<open>write\<close> is called on the
  bytes until all are taken or a call fails, so the file takes all of them or as many as
  its limit leaves room for, and the number taken is returned.\<close>

definition sys_write :: "sys \<Rightarrow> path \<Rightarrow> bytes \<Rightarrow> sys \<times> nat" where
  "sys_write s q buffer =
     (case files s q of
        Some (Reg pm c) \<Rightarrow>
          (let room = (case wlimit s q of None \<Rightarrow> length buffer | Some l \<Rightarrow> l - length c);
               taken = take room buffer
           in (s\<lparr>files := (files s)(q \<mapsto> Reg pm (c @ taken))\<rparr>, length taken))
      | _ \<Rightarrow> (s, 0))"

text \<open>
  The stream \<^verbatim>\<open>fopen(p, "wb")\<close> returns is fully buffered. It is modelled as the GNU C
  library has it: the file the stream writes to, the bytes the buffer holds, and the room
  the buffer has left. The buffer is allocated at the first write, so a new stream has no
  room; its size is the block size \<^verbatim>\<open>st_blksize\<close> of the file, 4096 on the usual file
  systems.
\<close>

record ostream =
  os_fd :: path
  os_pending :: bytes
  os_room :: nat

definition st_blksize :: nat where
  "st_blksize = 4096"

definition stream_of :: "path \<Rightarrow> ostream" where
  "stream_of q = \<lparr>os_fd = q, os_pending = [], os_room = 0\<rparr>"

text \<open>
  \<^verbatim>\<open>fwrite(buffer, 1, n, f)\<close>. The bytes go into the buffer as far as it has room. When
  some are left over, the buffer is written out and emptied, then the whole blocks of what
  is left are written directly, and the remainder is kept in the buffer. The result is
  \<open>n\<close> unless one of the two writes was cut short: then it is the number of bytes the
  stream has taken so far. Bytes that fit the buffer are not written at all and count
  as written.
\<close>

definition fwrite :: "sys \<Rightarrow> ostream \<Rightarrow> bytes \<Rightarrow> sys \<times> ostream \<times> nat" where
  "fwrite s f buffer =
     (let count = min (os_room f) (length buffer);
          filled = os_pending f @ take count buffer;
          rest = drop count buffer
      in if rest = [] then
           (s, f\<lparr>os_pending := filled, os_room := os_room f - count\<rparr>, length buffer)
         else
           (case sys_write s (os_fd f) filled of
              (s1, n1) \<Rightarrow>
                if n1 \<noteq> length filled then
                  (s1, f\<lparr>os_pending := [], os_room := st_blksize\<rparr>, count)
                else
                  (let do_write = length rest - length rest mod st_blksize in
                   case sys_write s1 (os_fd f) (take do_write rest) of
                     (s2, n2) \<Rightarrow>
                       if n2 < do_write then
                         (s2, f\<lparr>os_pending := [], os_room := st_blksize\<rparr>, count + n2)
                       else
                         (s2, f\<lparr>os_pending := drop do_write rest,
                                os_room := st_blksize - (length rest - do_write)\<rparr>,
                          length buffer))))"

text \<open>\<^verbatim>\<open>fclose(f)\<close> writes out what the buffer still holds. Whether that write was cut
  short is the result of \<^verbatim>\<open>fclose\<close>, which no caller in \<^verbatim>\<open>backup.c\<close> looks at.\<close>

definition fclose :: "sys \<Rightarrow> ostream \<Rightarrow> sys" where
  "fclose s f = fst (sys_write s (os_fd f) (os_pending f))"

text \<open>\<^verbatim>\<open>chmod(p, mode)\<close> follows a link and stores the low twelve bits of the mode.\<close>

fun set_perm :: "node \<Rightarrow> nat \<Rightarrow> node" where
  "set_perm (Dir pm es) m = Dir (m mod 4096) es"
| "set_perm (Reg pm c) m = Reg (m mod 4096) c"
| "set_perm (Lnk t) m = Lnk t"
| "set_perm (Special k pm) m = Special k (m mod 4096)"

definition chmod :: "sys \<Rightarrow> path \<Rightarrow> nat \<Rightarrow> errno + sys" where
  "chmod s p mode =
     (if refuse s SysChmod p then Inl EPERM
      else case resolve s p of
        Inl e \<Rightarrow> Inl e
      | Inr q \<Rightarrow>
          (case files s q of
             None \<Rightarrow> Inl ENOENT
           | Some nd \<Rightarrow> Inr (s\<lparr>files := (files s)(q \<mapsto> set_perm nd mode)\<rparr>)))"

section \<open>The functions of backup.c\<close>

subsection \<open>copy_file\<close>

text \<open>
  The read and write loop of \<open>copy_file\<close>, lines 258 to 267. \<open>data\<close> is what
  \<^verbatim>\<open>fread\<close> has still to deliver; each round takes a buffer of at most 4096 bytes from
  it and hands it to \<^verbatim>\<open>fwrite\<close>, and a result other than the number of bytes handed
  over logs the error and leaves the loop.
\<close>

fun copy_loop :: "sys \<Rightarrow> ostream \<Rightarrow> bytes \<Rightarrow> path \<Rightarrow> path \<Rightarrow> sys \<times> ostream" where
  "copy_loop s dest_file data src dest =
     (let buffer = take 4096 data in
      if length buffer > 0 then
        (case fwrite s dest_file buffer of
           (s', dest_file', n) \<Rightarrow>
             if n \<noteq> length buffer then
               (log_err [Perror ''Failed to write to destination file'' ENOSPC,
                         Error (''Write error occurred while copying file: '' @ src @ '' -> '' @ dest)] s',
                dest_file')
             else copy_loop s' dest_file' (drop 4096 data) src dest)
      else (s, dest_file))"

declare copy_loop.simps [simp del]

text \<open>
  \<open>copy_file\<close>, lines 236 to 286. The source is read from the moment the destination
  has been opened: the two streams are the same file only when both paths lead to it, and
  then opening the destination has emptied it. The destination is closed, and its buffer
  written out, after the loop and before the copy is logged as completed.
\<close>

definition copy_file :: "sys \<Rightarrow> path \<Rightarrow> path \<Rightarrow> sys" where
  "copy_file s src dest =
     (case fopen_rb s src of
        Inl e \<Rightarrow>
          log_err [Perror ''Failed to open source file'' e,
                   Error (''Could not open source file: '' @ src)] s
      | Inr src_file \<Rightarrow>
          (let s1 = log_err [Info (''Opened source file: '' @ src)] s in
           case fopen_wb s1 dest of
             Inl e \<Rightarrow>
               log_err [Perror ''Failed to open destination file'' e,
                        Error (''Could not open destination file: '' @ dest)] s1
           | Inr (s2, dest_file) \<Rightarrow>
               (let s3 = log_err [Info (''Created destination file: '' @ dest)] s2;
                    (s4, dest_file') = copy_loop s3 (stream_of dest_file) (file_data s3 src_file) src dest;
                    s5 = log_err [Info (''File copy completed: '' @ src @ '' -> '' @ dest)]
                           (fclose s4 dest_file')
                in case stat s5 src of
                     Inl e \<Rightarrow> s5
                   | Inr st_mode \<Rightarrow>
                       (case chmod s5 dest st_mode of
                          Inl e \<Rightarrow>
                            log_err [Perror ''Failed to set file permissions'' e,
                                     Warning (''Permissions not set correctly for: '' @ dest)] s5
                        | Inr s6 \<Rightarrow>
                            log_err [Info (''Permissions set successfully for: '' @ dest)] s6))))"

subsection \<open>copy_directory\<close>

text \<open>
  \<open>copy_directory\<close>, lines 289 to 346, and its \<^verbatim>\<open>readdir\<close> loop, lines 314 to 341,
  as \<open>copy_entries\<close> over the names still to be read. The first argument bounds the
  depth of the recursion, which in C is bounded by the stack: \<open>None\<close> is a recursion
  deeper than that, which does not return.
\<close>

fun copy_directory :: "nat \<Rightarrow> sys \<Rightarrow> path \<Rightarrow> path \<Rightarrow> sys option"
  and copy_entries :: "nat \<Rightarrow> sys \<Rightarrow> path \<Rightarrow> path \<Rightarrow> string list \<Rightarrow> sys option" where
  "copy_directory 0 s src dest = None"
| "copy_directory (Suc k) s src dest =
     (case opendir s src of
        Inl e \<Rightarrow>
          Some (log_err [Perror ''Failed to open source directory'' e,
                         Error (''Could not open directory: '' @ src)] s)
      | Inr entries \<Rightarrow>
          (let s1 = log_err [Info (''Opened source directory: '' @ src)] s in
           case (case mkdir s1 dest 493 of
                   Inl e \<Rightarrow> if e \<noteq> EEXIST then Inl e else Inr s1
                 | Inr s2 \<Rightarrow> Inr s2) of
             Inl e \<Rightarrow>
               Some (log_err [Perror ''Failed to create destination directory'' e,
                              Error (''Could not create destination directory: '' @ dest)] s1)
           | Inr s2 \<Rightarrow>
               (case copy_entries k
                       (log_err [Info (''Destination directory created or already exists: '' @ dest)] s2)
                       src dest entries of
                  None \<Rightarrow> None
                | Some s3 \<Rightarrow>
                    Some (log_err [Info (''Finished processing directory: '' @ src)] s3))))"
| "copy_entries k s src dest [] = Some s"
| "copy_entries k s src dest (d_name # rest) =
     (if d_name = ''.'' \<or> d_name = ''..'' then copy_entries k s src dest rest
      else
        let src_path = snprintf_path PATH_MAX src d_name;
            dest_path = snprintf_path PATH_MAX dest d_name
        in case stat s src_path of
             Inr st_mode \<Rightarrow>
               if S_ISDIR st_mode then
                 (case copy_directory k (log_err [Info (''Found directory: '' @ src_path)] s)
                         src_path dest_path of
                    None \<Rightarrow> None
                  | Some s' \<Rightarrow> copy_entries k s' src dest rest)
               else if S_ISREG st_mode then
                 copy_entries k
                   (copy_file (log_err [Info (''Found file: '' @ src_path)] s) src_path dest_path)
                   src dest rest
               else
                 copy_entries k
                   (log_err [Warning (''Skipped unknown entry type: '' @ src_path)] s)
                   src dest rest
           | Inl e \<Rightarrow>
               copy_entries k
                 (log_err [Perror ''Failed to retrieve file metadata'' e,
                           Warning (''Could not stat entry: '' @ src_path)] s)
                 src dest rest)"

subsection \<open>The configuration file\<close>

text \<open>\<^verbatim>\<open>snprintf(config_path, sizeof(config_path), CONFIG_FILE_PATH, homedir)\<close>.\<close>

definition config_path_of :: "sys \<Rightarrow> path" where
  "config_path_of s = take (PATH_MAX - 1) (CONFIG_FILE_PATH (homedir s))"

text \<open>\<^verbatim>\<open>fgets(buf, n, f)\<close> on a stream at its start: at most \<open>n - 1\<close> bytes, up to and
  including the first newline; \<^verbatim>\<open>NULL\<close> when there is nothing to read.\<close>

definition fgets :: "nat \<Rightarrow> bytes \<Rightarrow> bytes option" where
  "fgets n data =
     (let d = take (n - 1) data;
          line = takeWhile (\<lambda>c. c \<noteq> CHR ''\<newline>'') d
      in if d = [] then None
         else if length line < length d then Some (line @ [CHR ''\<newline>''])
         else Some line)"

text \<open>A buffer read as a C string ends at its first NUL byte.\<close>

definition c_str :: "bytes \<Rightarrow> string" where
  "c_str b = takeWhile (\<lambda>c. c \<noteq> CHR 0x00) b"

definition strcspn :: "bytes \<Rightarrow> char \<Rightarrow> nat" where
  "strcspn b r = length (takeWhile (\<lambda>c. c \<noteq> r) (c_str b))"

text \<open>\<open>read_default_backup_dir\<close>, lines 127 to 154: the new contents of the caller's
  buffer and the state. Writing NUL at the index \<^verbatim>\<open>strcspn\<close> returns leaves the buffer's
  text before that index.\<close>

definition read_default_backup_dir :: "sys \<Rightarrow> path \<times> sys" where
  "read_default_backup_dir s =
     (let config_path = config_path_of s;
          s1 = log_err [Debug (''Reading config file: '' @ config_path)] s;
          fallback =
            (DEFAULT_TARGET_DIR,
             log_err [Warning ''Config file not found or empty. Using default target directory.''] s1)
      in case fopen_rb s1 config_path of
           Inr config_file \<Rightarrow>
             (case fgets PATH_MAX (file_data s1 config_file) of
                Some line \<Rightarrow>
                  (let default_target_dir = c_str (take (strcspn line CHR ''\<newline>'') line) in
                   (default_target_dir,
                    log_err [Debug (''Default target directory read: '' @ default_target_dir)] s1))
              | None \<Rightarrow> fallback)
         | Inl e \<Rightarrow> fallback)"

text \<open>\<open>ensure_config_dir_exists\<close>, lines 156 to 180. \<open>dir_path\<close> is the path cut at
  its last slash.\<close>

definition dir_path_of :: "path \<Rightarrow> path" where
  "dir_path_of config_path =
     (if CHR ''/'' \<in> set config_path
      then rev (tl (dropWhile (\<lambda>c. c \<noteq> CHR ''/'') (rev config_path)))
      else config_path)"

definition ensure_config_dir_exists :: "sys \<Rightarrow> path \<Rightarrow> sys" where
  "ensure_config_dir_exists s config_path =
     (let dir_path = dir_path_of config_path;
          s1 = log_err [Debug (''Ensuring config directory exists: '' @ dir_path)] s
      in case mkdir s1 dir_path 493 of
           Inl e \<Rightarrow>
             if e \<noteq> EEXIST then log_err [Perror ''Failed to create config directory'' e] s1
             else log_err [Debug ''Config directory already exists.''] s1
         | Inr s2 \<Rightarrow> s2)"

text \<open>\<open>write_default_backup_dir\<close>, lines 183 to 206. \<^verbatim>\<open>fprintf\<close> with the format
  \<^verbatim>\<open>%s\<close> puts the string into the stream as \<^verbatim>\<open>fwrite\<close> does; its result is not looked
  at, and the stream is closed at once.\<close>

definition write_default_backup_dir :: "sys \<Rightarrow> path \<Rightarrow> sys" where
  "write_default_backup_dir s new_default_dir =
     (let config_path = config_path_of s;
          s1 = ensure_config_dir_exists s config_path;
          s2 = log_err [Debug (''Writing new default directory to config file: '' @ config_path)] s1
      in case fopen_wb s2 config_path of
           Inr (s3, config_file) \<Rightarrow>
             (case fwrite s3 (stream_of config_file) new_default_dir of
                (s4, config_file', n) \<Rightarrow>
                  log_err [Debug ''Config file updated successfully.''] (fclose s4 config_file'))
         | Inl e \<Rightarrow> log_err [Perror ''Failed to update default backup directory'' e] s2)"

subsection \<open>create_timestamped_dir\<close>

text \<open>Decimal digits, and a number in a field of at least \<open>w\<close> characters filled with
  zeros, the sign counting as one of them, as \<^verbatim>\<open>strftime\<close> of the GNU C library prints
  its numbers.\<close>

definition digit :: "nat \<Rightarrow> char" where
  "digit n = ''0123456789'' ! n"

fun dec :: "nat \<Rightarrow> string" where
  "dec n = (if n < 10 then [digit n] else dec (n div 10) @ [digit (n mod 10)])"

declare dec.simps [simp del]

definition do_number :: "nat \<Rightarrow> int \<Rightarrow> string" where
  "do_number w v =
     (let sign = (if v < 0 then [CHR ''-''] else []);
          ds = dec (nat \<bar>v\<bar>)
      in sign @ replicate (w - length sign - length ds) CHR ''0'' @ ds)"

text \<open>The text of \<^verbatim>\<open>"Backup %Y-%m-%d %H-%M-%S"\<close>, and \<^verbatim>\<open>strftime\<close> into a buffer of
  \<open>n\<close> bytes: no result when the text and its final NUL do not fit.\<close>

definition timestamp_text :: "tm \<Rightarrow> string" where
  "timestamp_text t =
     ''Backup '' @ do_number 1 (tm_year t + 1900) @ ''-'' @ do_number 2 (tm_mon t + 1) @ ''-''
       @ do_number 2 (tm_mday t) @ '' '' @ do_number 2 (tm_hour t) @ ''-''
       @ do_number 2 (tm_min t) @ ''-'' @ do_number 2 (tm_sec t)"

definition strftime :: "nat \<Rightarrow> tm \<Rightarrow> string option" where
  "strftime n t = (if length (timestamp_text t) < n then Some (timestamp_text t) else None)"

text \<open>\<open>create_timestamped_dir\<close>, lines 209 to 233: \<open>Inl\<close> is the status of
  \<^verbatim>\<open>exit\<close>, \<open>Inr\<close> the path left in the caller's buffer.\<close>

definition create_timestamped_dir :: "sys \<Rightarrow> path \<Rightarrow> (int + path) \<times> sys" where
  "create_timestamped_dir s base_path =
     (case localtime s of
        None \<Rightarrow> (Inl EXIT_FAILURE, log_err [Perror ''Failed to get local time'' EOVERFLOW] s)
      | Some tm_info \<Rightarrow>
          (case strftime 30 tm_info of
             None \<Rightarrow> (Inl EXIT_FAILURE, log_err [Error ''Failed to format timestamp.''] s)
           | Some timestamp \<Rightarrow>
               if snprintf_len base_path timestamp \<ge> PATH_MAX
               then (Inl EXIT_FAILURE, log_err [Plain ''Path is too long''] s)
               else (Inr (snprintf_path PATH_MAX base_path timestamp), s)))"

subsection \<open>main\<close>

text \<open>
  \<^verbatim>\<open>getopt(argc, argv, "t:")\<close> of the GNU C library, called until it returns \<open>-1\<close>:
  the options in the order they are returned (\<open>OptErr\<close> is the return value \<^verbatim>\<open>?\<close>,
  for a character that is no option and for a \<^verbatim>\<open>-t\<close> without argument), and the
  operands it has moved behind them, of which \<^verbatim>\<open>argv[optind]\<close> is the first. The argument
  is \<^verbatim>\<open>argv\<close> without the program name. The diagnostic \<^verbatim>\<open>getopt\<close> prints itself is not
  recorded.
\<close>

datatype opt = OptT string | OptErr

function getopt :: "string list \<Rightarrow> opt list \<times> string list" where
  "getopt [] = ([], [])"
| "getopt (a # as) =
     (if a = ''--'' then ([], as)
      else if length a \<ge> 2 \<and> hd a = CHR ''-'' then
        (let c = hd (tl a); rest = tl (tl a) in
         if c = CHR ''t'' then
           (if rest \<noteq> [] then (OptT rest # fst (getopt as), snd (getopt as))
            else case as of
                   [] \<Rightarrow> ([OptErr], [])
                 | optarg # bs \<Rightarrow> (OptT optarg # fst (getopt bs), snd (getopt bs)))
         else if rest = [] then (OptErr # fst (getopt as), snd (getopt as))
         else (OptErr # fst (getopt ((CHR ''-'' # rest) # as)),
               snd (getopt ((CHR ''-'' # rest) # as))))
      else (fst (getopt as), a # snd (getopt as)))"
  by pat_completeness auto
termination
  by (relation "measure (\<lambda>as. sum_list (map length as) + length as)")
     (auto simp: neq_Nil_conv length_Suc_conv Suc_le_eq)

declare getopt.simps [simp del]

text \<open>The \<^verbatim>\<open>while\<close> loop of \<open>main\<close> over the options, lines 49 to 66, with the
  variables \<open>target_dir\<close> and \<open>update_default\<close> it sets. \<open>Inl\<close> is a call of
  \<^verbatim>\<open>exit\<close>.\<close>

fun main_options :: "sys \<Rightarrow> string \<Rightarrow> opt list \<Rightarrow> path \<Rightarrow> bool \<Rightarrow> (int + path \<times> bool) \<times> sys" where
  "main_options s prog [] target_dir update_default = (Inr (target_dir, update_default), s)"
| "main_options s prog (OptT optarg # os) target_dir update_default =
     (let s1 = log_err [Debug (''-t option provided with argument: '' @ optarg)] s in
      case realpath_of s1 optarg of
        None \<Rightarrow> (Inl EXIT_FAILURE, log_err [Perror ''Invalid target directory'' ENOENT] s1)
      | Some resolved \<Rightarrow> main_options s1 prog os resolved True)"
| "main_options s prog (OptErr # os) target_dir update_default =
     (Inl EXIT_FAILURE,
      log_err [Error ''Invalid usage.'',
               Plain (''Usage: '' @ prog @ '' [-t target_dir] source_dir'')] s)"

text \<open>
  \<open>main\<close>, lines 37 to 123: the exit status and the final state. \<open>prog\<close> is
  \<^verbatim>\<open>argv[0]\<close>, \<open>args\<close> the arguments after it. There is no result when
  \<^verbatim>\<open>strcpy\<close> is handed a source directory that does not fit its buffer of
  \<open>PATH_MAX\<close> bytes, and when the copy recurses deeper than \<open>depth\<close>.
\<close>

definition main :: "nat \<Rightarrow> sys \<Rightarrow> string \<Rightarrow> string list \<Rightarrow> (int \<times> sys) option" where
  "main depth s prog args =
     (let s0 = log_err [Debug ''Starting backup tool.''] s in
      case main_options s0 prog (fst (getopt args)) DEFAULT_TARGET_DIR False of
        (Inl status, s1) \<Rightarrow> Some (status, s1)
      | (Inr (target_dir, update_default), s1) \<Rightarrow>
          if update_default then
            (let s2 = log_err [Debug (''Updating default backup directory to: '' @ target_dir)] s1;
                 s3 = write_default_backup_dir s2 target_dir
             in Some (0, log_out [Plain (''Updated default backup directory to: '' @ target_dir)] s3))
          else
            (case read_default_backup_dir
                    (log_err [Debug ''Reading default backup directory.''] s1) of
               (target_dir, s2) \<Rightarrow>
                 (case snd (getopt args) of
                    [] \<Rightarrow>
                      Some (EXIT_FAILURE,
                            log_err [Error ''Expected source_dir after options.'',
                                     Plain (''Usage: '' @ prog @ '' [-t target_dir] source_dir'')] s2)
                  | source_dir # operands \<Rightarrow>
                      if length source_dir \<ge> PATH_MAX then None
                      else
                        (let s3 = log_err [Debug (''Validating source directory: '' @ source_dir)] s2 in
                         if (case stat s3 source_dir of Inl e \<Rightarrow> True | Inr m \<Rightarrow> \<not> S_ISDIR m) then
                           Some (EXIT_FAILURE,
                                 log_err [Perror ''Invalid source directory''
                                            (case stat s3 source_dir of Inl e \<Rightarrow> e | Inr m \<Rightarrow> EUNSET)] s3)
                         else
                           (case create_timestamped_dir
                                   (log_err [Debug (''Creating timestamped backup directory in: '' @ target_dir)] s3)
                                   target_dir of
                              (Inl status, s4) \<Rightarrow> Some (status, s4)
                            | (Inr backup_dir, s4) \<Rightarrow>
                                (case mkdir s4 backup_dir 493 of
                                   Inl e \<Rightarrow>
                                     Some (EXIT_FAILURE,
                                           log_err [Perror ''Failed to create backup directory'' e] s4)
                                 | Inr s5 \<Rightarrow>
                                     (let s6 = log_err [Debug ''Starting backup process.'']
                                                 (log_out [Plain (''Backing up '' @ [CHR 0x27] @ source_dir
                                                             @ [CHR 0x27] @ '' to '' @ [CHR 0x27] @ backup_dir
                                                             @ [CHR 0x27])] s5)
                                      in case copy_directory depth s6 source_dir backup_dir of
                                           None \<Rightarrow> None
                                         | Some s7 \<Rightarrow>
                                             Some (0,
                                                   log_out [Plain ''Backup completed successfully!'']
                                                     (log_err [Debug ''Backup process completed successfully.''] s7)))))))))"

section \<open>Notions the properties are stated with\<close>

definition is_dir :: "sys \<Rightarrow> path \<Rightarrow> bool" where
  "is_dir s p = (case files s p of Some (Dir pm es) \<Rightarrow> True | _ \<Rightarrow> False)"

definition is_reg :: "sys \<Rightarrow> path \<Rightarrow> bool" where
  "is_reg s p = (case files s p of Some (Reg pm c) \<Rightarrow> True | _ \<Rightarrow> False)"

text \<open>The target of a symbolic link.\<close>

fun lnk_of :: "node option \<Rightarrow> path option" where
  "lnk_of (Some (Lnk t)) = Some t"
| "lnk_of _ = None"

text \<open>What every call and every function of the program leaves as it is: the answers of
  the environment and the symbolic links. Directories stay directories, regular files stay
  regular files, and the two output streams only grow.\<close>

definition grows :: "sys \<Rightarrow> sys \<Rightarrow> bool" where
  "grows s s' =
     (refuse s' = refuse s \<and> wlimit s' = wlimit s \<and> umask s' = umask s
      \<and> homedir s' = homedir s \<and> realpath_of s' = realpath_of s \<and> localtime s' = localtime s
      \<and> (\<forall>p. lnk_of (files s' p) = lnk_of (files s p))
      \<and> (\<forall>p. is_dir s p \<longrightarrow> is_dir s' p)
      \<and> (\<forall>p. is_reg s p \<longrightarrow> is_reg s' p)
      \<and> (\<exists>l. stderr s' = stderr s @ l) \<and> (\<exists>l. stdout s' = stdout s @ l))"

text \<open>The name of the backup directory in the words of the specification,
  \<^verbatim>\<open>Backup YYYY-MM-DD HH-MM-SS\<close>: every field of fixed width.\<close>

definition two_digits :: "nat \<Rightarrow> string" where
  "two_digits n = [digit (n div 10), digit (n mod 10)]"

definition four_digits :: "nat \<Rightarrow> string" where
  "four_digits n = [digit (n div 1000), digit (n div 100 mod 10), digit (n div 10 mod 10), digit (n mod 10)]"

definition spec_backup_name :: "tm \<Rightarrow> string" where
  "spec_backup_name t =
     ''Backup '' @ four_digits (nat (tm_year t + 1900)) @ ''-'' @ two_digits (nat (tm_mon t + 1)) @ ''-''
       @ two_digits (nat (tm_mday t)) @ '' '' @ two_digits (nat (tm_hour t)) @ ''-''
       @ two_digits (nat (tm_min t)) @ ''-'' @ two_digits (nat (tm_sec t))"

text \<open>A broken-down time as \<^verbatim>\<open>localtime_r\<close> fills it in, for a year of four digits.\<close>

definition tm_in_range :: "tm \<Rightarrow> bool" where
  "tm_in_range t =
     (1000 \<le> tm_year t + 1900 \<and> tm_year t + 1900 \<le> 9999 \<and> 0 \<le> tm_mon t \<and> tm_mon t \<le> 11
      \<and> 1 \<le> tm_mday t \<and> tm_mday t \<le> 31 \<and> 0 \<le> tm_hour t \<and> tm_hour t \<le> 23
      \<and> 0 \<le> tm_min t \<and> tm_min t \<le> 59 \<and> 0 \<le> tm_sec t \<and> tm_sec t \<le> 60)"

text \<open>The configuration file can be opened for writing once
  \<open>ensure_config_dir_exists\<close> has run.\<close>

definition config_file_opens :: "sys \<Rightarrow> bool" where
  "config_file_opens s =
     (case fopen_wb (ensure_config_dir_exists s (config_path_of s)) (config_path_of s) of
        Inl e \<Rightarrow> False
      | Inr r \<Rightarrow> True)"

text \<open>A text that a line of the configuration file can hold and a buffer of
  \<open>PATH_MAX\<close> bytes can take: no newline, no NUL, shorter than the buffer.\<close>

definition line_text :: "string \<Rightarrow> bool" where
  "line_text p = (CHR ''\<newline>'' \<notin> set p \<and> CHR 0x00 \<notin> set p \<and> length p < PATH_MAX)"

section \<open>A world to run the program in\<close>

text \<open>A small file system with a source tree that holds a regular file, a file the
  operating system does not let the program read, a symbolic link to a file outside the
  tree, a named pipe and a subdirectory; the configuration file does not exist yet.
  \<^verbatim>\<open>stat\<close> fails on the paths that fill the path buffer.\<close>

definition ex_world :: sys where
  "ex_world =
     \<lparr>files = [''/'' \<mapsto> Dir 493 [''.'', ''..'', ''src'', ''x'', ''home'', ''media''],
               ''/src'' \<mapsto> Dir 493 [''.'', ''..'', ''a.txt'', ''secret'', ''link'', ''pipe'', ''sub''],
               ''/src/a.txt'' \<mapsto> Reg 420 ''hello'',
               ''/src/secret'' \<mapsto> Reg 256 ''key'',
               ''/src/link'' \<mapsto> Lnk ''/x'',
               ''/x'' \<mapsto> Reg 384 ''hi'',
               ''/src/pipe'' \<mapsto> Special Fifo 420,
               ''/src/sub'' \<mapsto> Dir 448 [''.'', ''..'', ''b''],
               ''/src/sub/b'' \<mapsto> Reg 292 ''bb'',
               ''/home'' \<mapsto> Dir 493 [''.'', ''..'', ''pi''],
               ''/home/pi'' \<mapsto> Dir 493 [''.'', ''..''],
               ''/media'' \<mapsto> Dir 493 [''.'', ''..'', ''pi''],
               ''/media/pi'' \<mapsto> Dir 493 [''.'', ''..'', ''piBackup'', ''usb''],
               ''/media/pi/piBackup'' \<mapsto> Dir 493 [''.'', ''..''],
               ''/media/pi/usb'' \<mapsto> Dir 493 [''.'', ''..'']],
      refuse = (\<lambda>c p. (c = SysOpenRead \<and> p = ''/src/secret'') \<or> (c = SysStat \<and> PATH_MAX - 1 \<le> length p)),
      wlimit = (\<lambda>p. None),
      umask = 18,
      homedir = ''/home/pi'',
      realpath_of = [''/media/pi/../pi/usb'' \<mapsto> ''/media/pi/usb''],
      localtime = Some \<lparr>tm_year = 124, tm_mon = 0, tm_mday = 2, tm_hour = 3, tm_min = 4, tm_sec = 5\<rparr>,
      stderr = [],
      stdout = []\<rparr>"

text \<open>The same world after the default has been set to \<^verbatim>\<open>/media/pi/usb\<close>.\<close>

definition ex_config :: sys where
  "ex_config = ex_world\<lparr>files := (files ex_world)
       (''/home/pi/.config'' \<mapsto> Dir 493 [''.'', ''..'', ''backup_tool.conf''],
        ''/home/pi/.config/backup_tool.conf'' \<mapsto> Reg 420 (''/media/pi/usb'' @ [CHR ''\<newline>'']))\<rparr>"

text \<open>A local time in the year 12345678, whose name does not fit the buffer of
  \<^verbatim>\<open>strftime\<close>, and a base path of 4090 characters.\<close>

definition far_future :: tm where
  "far_future = \<lparr>tm_year = 12343778, tm_mon = 0, tm_mday = 2, tm_hour = 3, tm_min = 4, tm_sec = 5\<rparr>"

definition long_base :: path where
  "long_base = replicate 4090 CHR ''a''"

text \<open>A directory whose name holds a newline, and the world in which it exists.\<close>

definition newline_dir :: path where
  "newline_dir = ''/media/pi/usb'' @ [CHR ''\<newline>''] @ ''2''"

definition ex_newline :: sys where
  "ex_newline = ex_world\<lparr>files := (files ex_world)(newline_dir \<mapsto> Dir 493 [''.'', ''..'']),
                          realpath_of := [newline_dir \<mapsto> newline_dir]\<rparr>"

text \<open>The world in which the directory of this second's backup exists already.\<close>

definition ex_collision :: sys where
  "ex_collision = ex_world\<lparr>files := (files ex_world)
       (''/media/pi/piBackup/Backup 2024-01-02 03-04-05'' \<mapsto> Dir 493 [''.'', ''..''])\<rparr>"

text \<open>The log shows that the loop of \<open>copy_directory\<close> has come to the entry with the
  path \<open>p\<close>: one of the four lines with which an iteration starts or ends.\<close>

definition visited :: "msg list \<Rightarrow> path \<Rightarrow> bool" where
  "visited l p =
     (Info (''Found directory: '' @ p) \<in> set l \<or> Info (''Found file: '' @ p) \<in> set l
      \<or> Warning (''Skipped unknown entry type: '' @ p) \<in> set l
      \<or> Warning (''Could not stat entry: '' @ p) \<in> set l)"

text \<open>No object can be reached under a name that fills the path buffer or was cut to fit
  it: \<^verbatim>\<open>stat\<close> fails on every path of \<open>PATH_MAX - 1\<close> characters or more.\<close>

definition long_paths_fail :: "sys \<Rightarrow> bool" where
  "long_paths_fail s = (\<forall>p. PATH_MAX - 1 \<le> length p \<longrightarrow> refuse s SysStat p)"

text \<open>The same world with a file system that is full: a file can be created there, and
  takes no bytes.\<close>

definition ex_full :: sys where
  "ex_full = ex_world\<lparr>wlimit := (\<lambda>p. Some 0)\<rparr>"


text \<open>
  A path of \<open>PATH_MAX - 1\<close> characters: fifteen names of 255 characters and one of 254.
  \<open>deep_world\<close> has a directory with one entry under such a path and an empty one under
  another, on a system that refuses a path from \<open>PATH_MAX\<close> characters on, as Linux does.
  The directories above the two are left out: no call walks through them.
\<close>

definition deep_dir :: "char \<Rightarrow> path" where
  "deep_dir c = concat (replicate 15 (CHR ''/'' # replicate 255 c)) @ CHR ''/'' # replicate 254 c"

definition deep_world :: sys where
  "deep_world =
     \<lparr>files = (\<lambda>p. if p = deep_dir CHR ''s'' then Some (Dir 493 [''.'', ''..'', ''x''])
                   else if p = deep_dir CHR ''d'' then Some (Dir 493 [''.'', ''..''])
                   else None),
      refuse = (\<lambda>c p. PATH_MAX \<le> length p),
      wlimit = (\<lambda>p. None),
      umask = 18,
      homedir = ''/home/pi'',
      realpath_of = (\<lambda>p. None),
      localtime = None,
      stderr = [],
      stdout = []\<rparr>"

section \<open>Properties\<close>

lemma files_log_err [simp]: "files (log_err ms s) = files s"
  by (simp add: log_err_def)

lemma stderr_log_err [simp]: "stderr (log_err ms s) = stderr s @ ms"
  by (simp add: log_err_def)

lemma log_err_fields [simp]:
  "refuse (log_err ms s) = refuse s"
  "wlimit (log_err ms s) = wlimit s"
  "umask (log_err ms s) = umask s"
  "homedir (log_err ms s) = homedir s"
  "realpath_of (log_err ms s) = realpath_of s"
  "localtime (log_err ms s) = localtime s"
  "stdout (log_err ms s) = stdout s"
  by (simp_all add: log_err_def)

lemma log_out_fields [simp]:
  "files (log_out ms s) = files s"
  "refuse (log_out ms s) = refuse s"
  "wlimit (log_out ms s) = wlimit s"
  "umask (log_out ms s) = umask s"
  "homedir (log_out ms s) = homedir s"
  "realpath_of (log_out ms s) = realpath_of s"
  "localtime (log_out ms s) = localtime s"
  "stderr (log_out ms s) = stderr s"
  "stdout (log_out ms s) = stdout s @ ms"
  by (simp_all add: log_out_def)

lemma read_default_backup_dir_files [simp]:
  "files (snd (read_default_backup_dir s)) = files s"
  "stdout (snd (read_default_backup_dir s)) = stdout s"
  by (simp_all add: read_default_backup_dir_def Let_def split: sum.splits option.splits)

subsection \<open>The log does not influence the system calls\<close>

lemma resolve_log_err [simp]: "resolve (log_err ms s) p = resolve s p"
  by (simp add: resolve_def)

lemma stat_log_err [simp]: "stat (log_err ms s) p = stat s p"
  by (simp add: stat_def cong: sum.case_cong)

lemma opendir_log_err [simp]: "opendir (log_err ms s) p = opendir s p"
  by (simp add: opendir_def cong: sum.case_cong)

lemma fopen_rb_log_err [simp]: "fopen_rb (log_err ms s) p = fopen_rb s p"
  by (simp add: fopen_rb_def cong: sum.case_cong)

lemma file_data_log_err [simp]: "file_data (log_err ms s) q = file_data s q"
  by (simp add: file_data_def)

lemma add_entry_log_err [simp]:
  "add_entry (log_err ms s) p nd = map_sum id (log_err ms) (add_entry s p nd)"
  by (simp add: add_entry_def log_err_def resolve_def split: option.splits sum.splits node.splits)

lemma mkdir_log_err [simp]:
  "mkdir (log_err ms s) p m = map_sum id (log_err ms) (mkdir s p m)"
  by (simp add: mkdir_def)

lemma fopen_wb_log_err [simp]:
  "fopen_wb (log_err ms s) p = map_sum id (map_prod (log_err ms) id) (fopen_wb s p)"
  by (simp add: fopen_wb_def log_err_def resolve_def add_entry_def split: option.splits sum.splits node.splits)

lemma sys_write_log_err [simp]:
  "sys_write (log_err ms s) q b = map_prod (log_err ms) id (sys_write s q b)"
  by (simp add: sys_write_def Let_def log_err_def split: option.splits node.splits)

lemma chmod_log_err [simp]:
  "chmod (log_err ms s) p m = map_sum id (log_err ms) (chmod s p m)"
  by (simp add: chmod_def log_err_def resolve_def split: option.splits sum.splits)

lemma is_dir_log_err [simp]: "is_dir (log_err ms s) p = is_dir s p"
  by (simp add: is_dir_def)

lemma is_reg_log_err [simp]: "is_reg (log_err ms s) p = is_reg s p"
  by (simp add: is_reg_def)

lemma is_dir_log_out [simp]: "is_dir (log_out ms s) p = is_dir s p"
  by (simp add: is_dir_def)

lemma is_reg_log_out [simp]: "is_reg (log_out ms s) p = is_reg s p"
  by (simp add: is_reg_def)

lemma log_err_log_err: "log_err b (log_err a s) = log_err (a @ b) s"
  by (simp add: log_err_def)

subsection \<open>Symbolic links stay as they are\<close>

lemma follow_cong:
  assumes "\<And>x. lnk_of (fs' x) = lnk_of (fs x)"
  shows "follow fs' n p = follow fs n p"
proof (induction n arbitrary: p)
  case 0
  have a: "lnk_of (fs' p) = lnk_of (fs p)" by (rule assms)
  show ?case
    using a by (subst follow.simps, subst (2) follow.simps)
      (cases "fs p" rule: lnk_of.cases; cases "fs' p" rule: lnk_of.cases; simp)
next
  case (Suc n)
  have a: "lnk_of (fs' p) = lnk_of (fs p)" by (rule assms)
  show ?case
    using a Suc.IH by (subst follow.simps, subst (2) follow.simps)
      (cases "fs p" rule: lnk_of.cases; cases "fs' p" rule: lnk_of.cases; simp)
qed

lemma follow_not_link:
  "follow fs n p = Inr q \<Longrightarrow> lnk_of (fs q) = None"
proof (induction n arbitrary: p)
  case 0
  then show ?case
    by (subst (asm) follow.simps) (cases "fs p" rule: lnk_of.cases; simp)
next
  case (Suc n)
  then show ?case
    by (subst (asm) follow.simps) (cases "fs p" rule: lnk_of.cases; simp)
qed

lemma grows_refl [simp]: "grows s s"
  by (simp add: grows_def)

lemma grows_trans: "grows s t \<Longrightarrow> grows t u \<Longrightarrow> grows s u"
  by (auto simp: grows_def)

lemma grows_log_err [simp]: "grows s (log_err ms s)"
  by (simp add: grows_def)

lemma grows_log_out [simp]: "grows s (log_out ms s)"
  by (simp add: grows_def)

lemma grows_log_err_trans: "grows s t \<Longrightarrow> grows s (log_err ms t)"
  by (erule grows_trans) simp

lemma grows_resolve: "grows s s' \<Longrightarrow> resolve s' p = resolve s p"
  unfolding resolve_def by (rule follow_cong) (simp add: grows_def)

lemma is_dir_files [simp]: "is_dir (s\<lparr>files := f\<rparr>) p = (case f p of Some (Dir pm es) \<Rightarrow> True | _ \<Rightarrow> False)"
  by (simp add: is_dir_def)

lemma is_reg_files [simp]: "is_reg (s\<lparr>files := f\<rparr>) p = (case f p of Some (Reg pm c) \<Rightarrow> True | _ \<Rightarrow> False)"
  by (simp add: is_reg_def)

lemma is_dir_iff: "is_dir s p = (\<exists>pm es. files s p = Some (Dir pm es))"
  by (simp add: is_dir_def split: option.splits node.splits)

lemma is_reg_iff: "is_reg s p = (\<exists>pm c. files s p = Some (Reg pm c))"
  by (simp add: is_reg_def split: option.splits node.splits)

text \<open>The two ways in which the system calls change the file system: the node at a
  path is replaced by one of the same kind, and a new node, not a link, is entered at a
  path that was free, its name added to the list of a directory.\<close>

lemma grows_replace:
  assumes "files s q = Some nd" and "lnk_of (Some nd') = lnk_of (Some nd)"
    and "is_dir s q \<longrightarrow> (\<exists>pm es. nd' = Dir pm es)" and "is_reg s q \<longrightarrow> (\<exists>pm c. nd' = Reg pm c)"
  shows "grows s (s\<lparr>files := (files s)(q \<mapsto> nd')\<rparr>)"
  using assms by (auto simp: grows_def is_dir_iff is_reg_iff)

lemma grows_enter:
  assumes "files s dq = Some (Dir pm es)" and "files s p = None" and "lnk_of (Some nd) = None"
  shows "grows s (s\<lparr>files := (files s)(dq \<mapsto> Dir pm es', p \<mapsto> nd)\<rparr>)"
  using assms by (auto simp: grows_def is_dir_iff is_reg_iff)

lemma resolve_not_link: "resolve s p = Inr q \<Longrightarrow> lnk_of (files s q) = None"
  by (simp add: resolve_def follow_not_link)

subsection \<open>What the system calls do to the file system\<close>

lemma add_entry_Inr:
  assumes "add_entry s p nd = Inr s'"
  shows "\<exists>dq pm es. files s dq = Some (Dir pm es)
           \<and> s' = s\<lparr>files := (files s)(dq \<mapsto> Dir pm (es @ [base_of p]), p \<mapsto> nd)\<rparr>"
  using assms by (auto simp: add_entry_def split: option.splits sum.splits node.splits)

lemma mkdir_Inr:
  assumes "mkdir s p m = Inr s'"
  shows "files s p = None \<and> (\<exists>dq pm es. files s dq = Some (Dir pm es)
           \<and> s' = s\<lparr>files := (files s)(dq \<mapsto> Dir pm (es @ [base_of p]),
                                         p \<mapsto> Dir (m - and m (umask s)) [''.'', ''..''])\<rparr>)"
  using assms add_entry_Inr [of s p "Dir (m - and m (umask s)) [''.'', ''..'']" s']
  by (simp add: mkdir_def split: if_splits)

lemma mkdir_exists: "files s p \<noteq> None \<Longrightarrow> mkdir s p m = Inl EEXIST"
  by (simp add: mkdir_def)

lemma fopen_wb_Inr:
  assumes "fopen_wb s p = Inr (s', q)"
  shows "resolve s p = Inr q \<and> \<not> refuse s SysOpenWrite p
       \<and> ((\<exists>pm c. files s q = Some (Reg pm c) \<and> s' = s\<lparr>files := (files s)(q \<mapsto> Reg pm [])\<rparr>)
          \<or> (files s q = None \<and> (\<exists>dq pm es. files s dq = Some (Dir pm es)
                \<and> s' = s\<lparr>files := (files s)(dq \<mapsto> Dir pm (es @ [base_of q]),
                                              q \<mapsto> Reg (438 - and 438 (umask s)) [])\<rparr>)))"
proof -
  from assms have r: "resolve s p = Inr q" "\<not> refuse s SysOpenWrite p"
    by (auto simp: fopen_wb_def split: if_splits sum.splits option.splits node.splits)
  show ?thesis
  proof (cases "files s q")
    case None
    with assms r obtain s1 where "add_entry s q (Reg (438 - and 438 (umask s)) []) = Inr s1" "s' = s1"
      by (auto simp: fopen_wb_def split: sum.splits)
    with add_entry_Inr [of s q "Reg (438 - and 438 (umask s)) []" s'] None r show ?thesis by auto
  next
    case (Some nd)
    with assms r show ?thesis
      by (cases nd) (auto simp: fopen_wb_def)
  qed
qed

lemma sys_write_unlimited:
  assumes "files s q = Some (Reg pm c)" and "wlimit s q = None"
  shows "sys_write s q b = (s\<lparr>files := (files s)(q \<mapsto> Reg pm (c @ b))\<rparr>, length b)"
  using assms by (simp add: sys_write_def)

lemma sys_write_Reg:
  assumes "files s q = Some (Reg pm c)"
  shows "\<exists>n. fst (sys_write s q b) = s\<lparr>files := (files s)(q \<mapsto> Reg pm (c @ take n b))\<rparr>"
  using assms by (auto simp: sys_write_def Let_def intro!: exI)

lemma sys_write_not_Reg:
  assumes "\<not> is_reg s q"
  shows "sys_write s q b = (s, 0)"
  using assms by (simp add: sys_write_def is_reg_def split: option.splits node.splits)

lemma chmod_Inr:
  assumes "chmod s p m = Inr s'"
  shows "\<exists>q nd. resolve s p = Inr q \<and> files s q = Some nd
           \<and> s' = s\<lparr>files := (files s)(q \<mapsto> set_perm nd m)\<rparr>"
  using assms by (auto simp: chmod_def split: if_splits sum.splits option.splits)

lemma lnk_of_set_perm [simp]: "lnk_of (Some (set_perm nd m)) = lnk_of (Some nd)"
  by (cases nd) simp_all

lemma grows_mkdir: "mkdir s p m = Inr s' \<Longrightarrow> grows s s'"
  by (drule mkdir_Inr) (auto intro!: grows_enter)

lemma grows_fopen_wb: "fopen_wb s p = Inr (s', q) \<Longrightarrow> grows s s'"
  by (drule fopen_wb_Inr) (auto intro!: grows_enter grows_replace simp: is_dir_iff)

lemma grows_sys_write: "grows s (fst (sys_write s q b))"
proof (cases "is_reg s q")
  case True
  then obtain pm c where f: "files s q = Some (Reg pm c)"
    by (auto simp: is_reg_def split: option.splits node.splits)
  from sys_write_Reg [OF f, of b] obtain n where
    "fst (sys_write s q b) = s\<lparr>files := (files s)(q \<mapsto> Reg pm (c @ take n b))\<rparr>" ..
  then show ?thesis using f by (simp add: grows_replace is_dir_iff)
next
  case False
  then show ?thesis by (simp add: sys_write_not_Reg)
qed

lemma set_perm_kind:
  "(\<exists>pm es. nd = Dir pm es) \<longrightarrow> (\<exists>pm es. set_perm nd m = Dir pm es)"
  "(\<exists>pm c. nd = Reg pm c) \<longrightarrow> (\<exists>pm c. set_perm nd m = Reg pm c)"
  by (cases nd; simp)+

lemma grows_chmod: "chmod s p m = Inr s' \<Longrightarrow> grows s s'"
proof (drule chmod_Inr, elim exE conjE)
  fix q nd
  assume f: "files s q = Some nd" and s': "s' = s\<lparr>files := (files s)(q \<mapsto> set_perm nd m)\<rparr>"
  show "grows s s'"
    unfolding s' using f set_perm_kind [of nd m]
    by (intro grows_replace) (auto simp: is_dir_iff is_reg_iff)
qed

subsection \<open>Reading the configuration file\<close>

lemma read_default_backup_dir_grows: "grows s (snd (read_default_backup_dir s))"
  by (simp add: read_default_backup_dir_def Let_def grows_log_err_trans split: sum.splits option.splits)

lemma read_default_backup_dir_cong:
  assumes "files s' = files s" and "refuse s' = refuse s" and "homedir s' = homedir s"
  shows "fst (read_default_backup_dir s') = fst (read_default_backup_dir s)"
proof -
  have c: "config_path_of s' = config_path_of s"
    using assms by (simp add: config_path_of_def)
  have o: "fopen_rb s' p = fopen_rb s p" for p
    using assms by (simp add: fopen_rb_def resolve_def cong: sum.case_cong)
  have d: "file_data s' q = file_data s q" for q
    using assms by (simp add: file_data_def)
  show ?thesis
    by (simp add: read_default_backup_dir_def Let_def c o d split: sum.splits option.splits)
qed

lemma c_str_id: "CHR 0x00 \<notin> set p \<Longrightarrow> c_str p = p"
  by (auto simp: c_str_def)

lemma takeWhile_whole: "c \<notin> set p \<Longrightarrow> takeWhile (\<lambda>x. x \<noteq> c) p = p"
  by auto

lemma takeWhile_line:
  "CHR ''\<newline>'' \<notin> set p \<Longrightarrow> takeWhile (\<lambda>c. c \<noteq> CHR ''\<newline>'') (p @ CHR ''\<newline>'' # r) = p"
  by (subst takeWhile_append2) auto

lemma fgets_line:
  assumes "line_text p" and "(rest = [] \<and> p \<noteq> []) \<or> (\<exists>r. rest = CHR ''\<newline>'' # r)"
  shows "\<exists>line. fgets PATH_MAX (p @ rest) = Some line
           \<and> c_str (take (strcspn line CHR ''\<newline>'') line) = p"
proof -
  from assms(1) have nl: "CHR ''\<newline>'' \<notin> set p" and nul: "CHR 0x00 \<notin> set p"
    and len: "length p \<le> PATH_MAX - 1"
    by (simp_all add: line_text_def PATH_MAX_def)
  have tw: "takeWhile (\<lambda>c. c \<noteq> CHR ''\<newline>'') p = p" using nl by (rule takeWhile_whole)
  have own: "c_str (take (strcspn p CHR ''\<newline>'') p) = p"
    using nul by (simp add: strcspn_def c_str_id tw)
  from assms(2) show ?thesis
  proof
    assume a: "rest = [] \<and> p \<noteq> []"
    then have "fgets PATH_MAX (p @ rest) = Some p"
      using len by (simp add: fgets_def Let_def tw)
    then show ?thesis using own by simp
  next
    assume "\<exists>r. rest = CHR ''\<newline>'' # r"
    then obtain r where r: "rest = CHR ''\<newline>'' # r" ..
    show ?thesis
    proof (cases "length p = PATH_MAX - 1")
      case True
      then have "take (PATH_MAX - 1) (p @ rest) = p" by simp
      moreover have "p \<noteq> []" using True by (auto simp: PATH_MAX_def)
      ultimately have "fgets PATH_MAX (p @ rest) = Some p"
        by (simp add: fgets_def Let_def tw)
      then show ?thesis using own by simp
    next
      case False
      then have lt: "length p < PATH_MAX - 1" using len by simp
      then obtain k where k: "PATH_MAX - 1 - length p = Suc k"
        by (cases "PATH_MAX - 1 - length p") auto
      have d: "take (PATH_MAX - 1) (p @ rest) = p @ CHR ''\<newline>'' # take k r"
        using r k lt by simp
      have "fgets PATH_MAX (p @ rest) = Some (p @ [CHR ''\<newline>''])"
        unfolding fgets_def Let_def d using nl by (simp add: takeWhile_line)
      moreover have "c_str (p @ [CHR ''\<newline>'']) = p @ [CHR ''\<newline>'']"
        using nul by (auto simp: c_str_def)
      then have "c_str (take (strcspn (p @ [CHR ''\<newline>'']) CHR ''\<newline>'') (p @ [CHR ''\<newline>''])) = p"
        using nl nul by (simp add: strcspn_def takeWhile_line c_str_id)
      ultimately show ?thesis by simp
    qed
  qed
qed

lemma fgets_empty: "fgets PATH_MAX [] = None"
  by (simp add: fgets_def)

lemma ex_world_config_path: "config_path_of ex_world = ''/home/pi/.config/backup_tool.conf''"
  by (simp add: config_path_of_def CONFIG_FILE_PATH_def PATH_MAX_def ex_world_def)

lemma ex_world_no_config: "fopen_rb ex_world ''/home/pi/.config/backup_tool.conf'' = Inl ENOENT"
  by (simp add: fopen_rb_def resolve_def follow.simps ex_world_def)

subsection \<open>The options of the command line\<close>

lemma main_options_invalid_target:
  assumes "OptT optarg \<in> set os" and "realpath_of s optarg = None"
  shows "\<exists>s'. main_options s prog os target_dir update_default = (Inl EXIT_FAILURE, s')
            \<and> files s' = files s \<and> grows s s'"
  using assms
proof (induction os arbitrary: s target_dir update_default)
  case Nil
  then show ?case by simp
next
  case (Cons o1 os)
  show ?case
  proof (cases o1)
    case OptErr
    then show ?thesis by simp
  next
    case (OptT a)
    show ?thesis
    proof (cases "realpath_of s a")
      case None
      then show ?thesis using OptT by (simp add: grows_log_err_trans)
    next
      case (Some r)
      then have "a \<noteq> optarg" using Cons.prems by auto
      then have "OptT optarg \<in> set os" using Cons.prems OptT by simp
      from Cons.IH [OF this, of "log_err [Debug (''-t option provided with argument: '' @ a)] s" r True]
      obtain s' where "main_options (log_err [Debug (''-t option provided with argument: '' @ a)] s)
            prog os r True = (Inl EXIT_FAILURE, s')" "files s' = files s"
          "grows (log_err [Debug (''-t option provided with argument: '' @ a)] s) s'"
        using Cons.prems by auto
      then show ?thesis using OptT Some grows_trans [OF grows_log_err] by simp
    qed
  qed
qed

lemma getopt_Nil: "getopt [] = ([], [])"
  by (simp add: getopt.simps)

subsection \<open>The name of the backup directory\<close>

lemma dec_1: "n < 10 \<Longrightarrow> dec n = [digit n]"
  by (subst dec.simps) simp

lemma dec_2: "10 \<le> n \<Longrightarrow> n < 100 \<Longrightarrow> dec n = [digit (n div 10), digit (n mod 10)]"
  by (subst dec.simps) (simp add: dec_1)

lemma dec_3:
  "100 \<le> n \<Longrightarrow> n < 1000 \<Longrightarrow> dec n = [digit (n div 100), digit (n div 10 mod 10), digit (n mod 10)]"
  by (subst dec.simps) (simp add: dec_2 div_mult2_eq [symmetric])

lemma dec_4:
  "1000 \<le> n \<Longrightarrow> n < 10000 \<Longrightarrow>
     dec n = [digit (n div 1000), digit (n div 100 mod 10), digit (n div 10 mod 10), digit (n mod 10)]"
  by (subst dec.simps) (simp add: dec_3 div_mult2_eq [symmetric])

lemma digit_0: "digit 0 = CHR ''0''"
  by (simp add: digit_def)

lemma snprintf_path_fits: "length a + 1 + length b < n \<Longrightarrow> snprintf_path n a b = a @ ''/'' @ b"
  by (simp add: snprintf_path_def)

lemma do_number_2: "0 \<le> v \<Longrightarrow> v < 100 \<Longrightarrow> do_number 2 v = two_digits (nat v)"
proof (cases "v < 10")
  case True
  assume "0 \<le> v"
  with True have "dec (nat v) = [digit (nat v)]" by (simp add: dec_1)
  with True \<open>0 \<le> v\<close> show ?thesis
    by (simp add: do_number_def two_digits_def Let_def digit_0)
next
  case False
  assume "0 \<le> v" "v < 100"
  with False have "dec (nat v) = [digit (nat v div 10), digit (nat v mod 10)]" by (simp add: dec_2)
  with False \<open>0 \<le> v\<close> show ?thesis
    by (simp add: do_number_def two_digits_def Let_def)
qed

lemma do_number_year: "1000 \<le> v \<Longrightarrow> v \<le> 9999 \<Longrightarrow> do_number 1 v = four_digits (nat v)"
  by (simp add: do_number_def four_digits_def Let_def dec_4)

lemma timestamp_text_spec:
  assumes "tm_in_range t"
  shows "timestamp_text t = spec_backup_name t"
proof -
  have y: "do_number 1 (tm_year t + 1900) = four_digits (nat (tm_year t + 1900))"
    using assms by (intro do_number_year) (simp_all add: tm_in_range_def)
  have m: "do_number 2 (tm_mon t + 1) = two_digits (nat (tm_mon t + 1))"
    using assms by (intro do_number_2) (simp_all add: tm_in_range_def)
  have d: "do_number 2 (tm_mday t) = two_digits (nat (tm_mday t))"
    using assms by (intro do_number_2) (simp_all add: tm_in_range_def)
  have h: "do_number 2 (tm_hour t) = two_digits (nat (tm_hour t))"
    using assms by (intro do_number_2) (simp_all add: tm_in_range_def)
  have mi: "do_number 2 (tm_min t) = two_digits (nat (tm_min t))"
    using assms by (intro do_number_2) (simp_all add: tm_in_range_def)
  have se: "do_number 2 (tm_sec t) = two_digits (nat (tm_sec t))"
    using assms by (intro do_number_2) (simp_all add: tm_in_range_def)
  show ?thesis
    unfolding timestamp_text_def spec_backup_name_def by (simp only: y m d h mi se)
qed

lemma length_spec_backup_name: "length (spec_backup_name t) = 26"
  by (simp add: spec_backup_name_def two_digits_def four_digits_def)

lemma ex_world_localtime:
  "localtime ex_world = Some \<lparr>tm_year = 124, tm_mon = 0, tm_mday = 2, tm_hour = 3, tm_min = 4, tm_sec = 5\<rparr>"
  by (simp add: ex_world_def)

lemma ex_world_tm_in_range:
  "tm_in_range \<lparr>tm_year = 124, tm_mon = 0, tm_mday = 2, tm_hour = 3, tm_min = 4, tm_sec = 5\<rparr>"
  by (simp add: tm_in_range_def)

lemma ex_world_backup_name:
  "spec_backup_name \<lparr>tm_year = 124, tm_mon = 0, tm_mday = 2, tm_hour = 3, tm_min = 4, tm_sec = 5\<rparr>
     = ''Backup 2024-01-02 03-04-05''"
  by (simp add: spec_backup_name_def four_digits_def two_digits_def digit_def)

lemma far_future_text: "length (timestamp_text far_future) = 30"
  by (simp add: timestamp_text_def far_future_def do_number_def dec.simps digit_def)

subsection \<open>Frames of the system calls\<close>

lemma mkdir_is_dir: "mkdir s p m = Inr s' \<Longrightarrow> is_dir s' x = (is_dir s x \<or> x = p)"
  by (drule mkdir_Inr) (auto simp: is_dir_iff split: if_splits)

lemma mkdir_reg_frame:
  "mkdir s p m = Inr s' \<Longrightarrow> is_reg s x \<or> is_reg s' x \<Longrightarrow> files s' x = files s x"
  by (drule mkdir_Inr) (auto simp: is_reg_iff split: if_splits)

lemma mkdir_stdout: "mkdir s p m = Inr s' \<Longrightarrow> stdout s' = stdout s"
  by (drule mkdir_Inr) auto

lemma fopen_wb_is_dir: "fopen_wb s p = Inr (s', q) \<Longrightarrow> is_dir s' x = is_dir s x"
  by (drule fopen_wb_Inr) (auto simp: is_dir_iff split: if_splits)

lemma fopen_wb_frame:
  "fopen_wb s p = Inr (s', q) \<Longrightarrow> x \<noteq> q \<Longrightarrow> is_reg s x \<or> is_reg s' x \<Longrightarrow> files s' x = files s x"
  by (drule fopen_wb_Inr) (auto simp: is_reg_iff split: if_splits)

lemma fopen_wb_empty: "fopen_wb s p = Inr (s', q) \<Longrightarrow> \<exists>pm. files s' q = Some (Reg pm [])"
  by (drule fopen_wb_Inr) auto

lemma fopen_wb_stdout: "fopen_wb s p = Inr (s', q) \<Longrightarrow> stdout s' = stdout s"
  by (drule fopen_wb_Inr) auto

lemma sys_write_frame: "x \<noteq> q \<Longrightarrow> files (fst (sys_write s q b)) x = files s x"
  by (simp add: sys_write_def Let_def split: option.splits node.splits)

lemma sys_write_is_dir [simp]: "is_dir (fst (sys_write s q b)) x = is_dir s x"
  by (simp add: sys_write_def Let_def is_dir_def split: option.splits node.splits)

lemma sys_write_stdout [simp]: "stdout (fst (sys_write s q b)) = stdout s"
  by (simp add: sys_write_def Let_def split: option.splits node.splits)

lemma grows_wlimit: "grows s s' \<Longrightarrow> wlimit s' = wlimit s"
  by (simp add: grows_def)

lemma grows_refuse: "grows s s' \<Longrightarrow> refuse s' = refuse s"
  by (simp add: grows_def)

lemma grows_homedir: "grows s s' \<Longrightarrow> homedir s' = homedir s"
  by (simp add: grows_def)

lemma grows_config_path: "grows s s' \<Longrightarrow> config_path_of s' = config_path_of s"
  by (simp add: grows_def config_path_of_def)

subsection \<open>The buffer of a stream\<close>

lemma sys_write_le: "snd (sys_write s q a) \<le> length a"
  by (simp add: sys_write_def Let_def split: option.splits node.splits)

lemma sys_write_Nil [simp]: "sys_write s q [] = (s, 0)"
  by (simp add: sys_write_def Let_def fun_upd_idem split: option.splits node.splits)

lemma sys_write_all:
  assumes "snd (sys_write s q a) = length a"
  shows "fst (sys_write (fst (sys_write s q a)) q b) = fst (sys_write s q (a @ b))"
proof (cases "is_reg s q")
  case True
  then obtain pm c where f: "files s q = Some (Reg pm c)"
    by (auto simp: is_reg_iff)
  show ?thesis
  proof (cases "wlimit s q")
    case None
    then show ?thesis using f by (simp add: sys_write_def)
  next
    case (Some l)
    then have "length a \<le> l - length c"
      using assms f by (auto simp: sys_write_def Let_def min_def split: if_splits)
    then show ?thesis using f Some by (simp add: sys_write_def Let_def diff_diff_eq)
  qed
next
  case False
  then have "a = []" using assms by (simp add: sys_write_not_Reg)
  then show ?thesis by simp
qed

lemma sys_write_cut:
  assumes "snd (sys_write s q a) \<noteq> length a"
  shows "fst (sys_write s q (a @ b)) = fst (sys_write s q a)"
proof (cases "is_reg s q")
  case True
  then obtain pm c where f: "files s q = Some (Reg pm c)"
    by (auto simp: is_reg_iff)
  show ?thesis
  proof (cases "wlimit s q")
    case None
    then show ?thesis using assms f by (simp add: sys_write_def)
  next
    case (Some l)
    then have "l - length c < length a"
      using assms f by (auto simp: sys_write_def Let_def min_def split: if_splits)
    then show ?thesis using f Some by (simp add: sys_write_def Let_def)
  qed
next
  case False
  then show ?thesis by (simp add: sys_write_not_Reg)
qed

text \<open>The two ways through \<^verbatim>\<open>fwrite\<close>: the bytes fit the buffer, or they do not.\<close>

lemma fwrite_fits:
  assumes "length b \<le> os_room f"
  shows "fwrite s f b =
           (s, f\<lparr>os_pending := os_pending f @ b, os_room := os_room f - length b\<rparr>, length b)"
  using assms by (simp add: fwrite_def Let_def min_def)

lemma fwrite_over:
  assumes "os_room f < length b"
    and "sys_write s (os_fd f) (os_pending f @ take (os_room f) b) = (s1, n1)"
    and "dw = length b - os_room f - (length b - os_room f) mod st_blksize"
    and "sys_write s1 (os_fd f) (take dw (drop (os_room f) b)) = (s2, n2)"
  shows "fwrite s f b =
           (if n1 \<noteq> length (os_pending f) + os_room f then
              (s1, f\<lparr>os_pending := [], os_room := st_blksize\<rparr>, os_room f)
            else if n2 < dw then
              (s2, f\<lparr>os_pending := [], os_room := st_blksize\<rparr>, os_room f + n2)
            else
              (s2, f\<lparr>os_pending := drop dw (drop (os_room f) b),
                     os_room := st_blksize - (length b - os_room f - dw)\<rparr>, length b))"
  using assms by (simp add: fwrite_def Let_def min_def)

lemma fwrite_fd: "fwrite s f b = (s', f', n) \<Longrightarrow> os_fd f' = os_fd f"
  by (auto simp: fwrite_def Let_def split: if_splits prod.splits)

text \<open>What \<^verbatim>\<open>fwrite\<close> leaves in the file and in the buffer is what one write of the old
  buffer and the new bytes would have put into the file; and once \<^verbatim>\<open>fwrite\<close> has come
  back short the file takes no more.\<close>

lemma fwrite_taken:
  assumes "fwrite s f b = (s', f', n)" and "n = length b"
  shows "fst (sys_write s' (os_fd f) (os_pending f' @ ys))
       = fst (sys_write s (os_fd f) (os_pending f @ b @ ys))"
proof (cases "length b \<le> os_room f")
  case True
  then have "s' = s" "os_pending f' = os_pending f @ b"
    using assms(1) by (auto simp: fwrite_fits)
  then show ?thesis by simp
next
  case False
  let ?q = "os_fd f"
  let ?filled = "os_pending f @ take (os_room f) b"
  let ?rest = "drop (os_room f) b"
  let ?dw = "length b - os_room f - (length b - os_room f) mod st_blksize"
  have b: "os_pending f @ b @ ys = ?filled @ ?rest @ ys" by simp
  have lt: "os_room f < length b" using False by simp
  obtain s1 n1 where w1: "sys_write s ?q ?filled = (s1, n1)" by (cases "sys_write s ?q ?filled")
  obtain s2 n2 where w2: "sys_write s1 ?q (take ?dw ?rest) = (s2, n2)"
    by (cases "sys_write s1 ?q (take ?dw ?rest)")
  have dwle: "?dw \<le> length ?rest" by simp
  have le2: "n2 \<le> ?dw" using sys_write_le [of s1 ?q "take ?dw ?rest"] w2 dwle by simp
  have td: "take ?dw ?rest @ drop ?dw ?rest @ ys = ?rest @ ys"
    by (simp only: append_assoc [symmetric] append_take_drop_id)
  note r = fwrite_over [OF lt w1 refl w2]
  have full1: "n1 = length ?filled" and full2: "\<not> n2 < ?dw"
    and s': "s' = s2" and p': "os_pending f' = drop ?dw ?rest"
    using assms lt le2 dwle unfolding r by (auto split: if_splits)
  have e1: "snd (sys_write s ?q ?filled) = length ?filled" using w1 full1 by simp
  have e2: "snd (sys_write s1 ?q (take ?dw ?rest)) = length (take ?dw ?rest)"
    using w2 full2 le2 dwle by simp
  have "fst (sys_write s2 ?q (drop ?dw ?rest @ ys))
      = fst (sys_write s1 ?q (take ?dw ?rest @ drop ?dw ?rest @ ys))"
    using sys_write_all [OF e2, of "drop ?dw ?rest @ ys"] unfolding w2 fst_conv .
  also have "\<dots> = fst (sys_write s1 ?q (?rest @ ys))" by (simp only: td)
  also have "\<dots> = fst (sys_write s ?q (?filled @ ?rest @ ys))"
    using sys_write_all [OF e1, of "?rest @ ys"] w1 by simp
  finally show ?thesis by (simp only: s' p' b)
qed

lemma fwrite_short:
  assumes "fwrite s f b = (s', f', n)" and "n \<noteq> length b"
  shows "os_pending f' = [] \<and> s' = fst (sys_write s (os_fd f) (os_pending f @ b @ ys))"
proof -
  let ?q = "os_fd f"
  let ?filled = "os_pending f @ take (os_room f) b"
  let ?rest = "drop (os_room f) b"
  let ?dw = "length b - os_room f - (length b - os_room f) mod st_blksize"
  have b: "os_pending f @ b @ ys = ?filled @ ?rest @ ys" by simp
  have lt: "os_room f < length b"
    using assms by (cases "length b \<le> os_room f") (auto simp: fwrite_fits)
  obtain s1 n1 where w1: "sys_write s ?q ?filled = (s1, n1)" by (cases "sys_write s ?q ?filled")
  obtain s2 n2 where w2: "sys_write s1 ?q (take ?dw ?rest) = (s2, n2)"
    by (cases "sys_write s1 ?q (take ?dw ?rest)")
  have td: "take ?dw ?rest @ drop ?dw ?rest @ ys = ?rest @ ys"
    by (simp only: append_assoc [symmetric] append_take_drop_id)
  note r = fwrite_over [OF lt w1 refl w2]
  have p: "os_pending f' = []" using assms unfolding r by (auto split: if_splits)
  have "s' = fst (sys_write s (os_fd f) (os_pending f @ b @ ys))"
  proof (cases "n1 \<noteq> length ?filled")
    case True
    then have "s' = s1" using assms lt unfolding r by simp
    moreover have "fst (sys_write s ?q (?filled @ ?rest @ ys)) = fst (sys_write s ?q ?filled)"
      by (rule sys_write_cut) (use w1 True in simp)
    ultimately show ?thesis using w1 by (simp only: b) simp
  next
    case False
    then have full1: "n1 = length ?filled" by simp
    then have short2: "n2 < ?dw" and s': "s' = s2"
      using assms lt unfolding r by (auto split: if_splits)
    have e1: "snd (sys_write s ?q ?filled) = length ?filled" using w1 full1 by simp
    have "fst (sys_write s ?q (?filled @ ?rest @ ys)) = fst (sys_write s1 ?q (?rest @ ys))"
      using sys_write_all [OF e1, of "?rest @ ys"] w1 by simp
    also have "\<dots> = fst (sys_write s1 ?q (take ?dw ?rest @ drop ?dw ?rest @ ys))"
      by (simp only: td)
    also have "\<dots> = fst (sys_write s1 ?q (take ?dw ?rest))"
      by (rule sys_write_cut) (use w2 short2 in simp)
    finally show ?thesis using w2 by (simp only: s' b fst_conv)
  qed
  with p show ?thesis ..
qed

lemma fclose_fwrite:
  assumes "fwrite s f b = (s', f', n)"
  shows "fclose s' f' = fst (sys_write s (os_fd f) (os_pending f @ b))"
proof (cases "n = length b")
  case True
  from fwrite_taken [OF assms True, of "[]"] fwrite_fd [OF assms]
  show ?thesis by (simp add: fclose_def)
next
  case False
  from fwrite_short [OF assms False, of "[]"] fwrite_fd [OF assms]
  show ?thesis by (simp add: fclose_def)
qed

lemma fclose_log_err [simp]: "fclose (log_err ms s) f = log_err ms (fclose s f)"
  by (simp add: fclose_def)

lemma grows_sys_write_pair: "sys_write s q a = (s', n) \<Longrightarrow> grows s s'"
  using grows_sys_write [of s q a] by simp

lemma grows_fwrite:
  assumes "fwrite s f b = (s', f', n)"
  shows "grows s s'"
proof (cases "length b \<le> os_room f")
  case True
  then show ?thesis using assms by (auto simp: fwrite_fits grows_refl)
next
  case False
  let ?q = "os_fd f"
  let ?filled = "os_pending f @ take (os_room f) b"
  let ?rest = "drop (os_room f) b"
  let ?dw = "length b - os_room f - (length b - os_room f) mod st_blksize"
  have lt: "os_room f < length b" using False by simp
  obtain s1 n1 where w1: "sys_write s ?q ?filled = (s1, n1)" by (cases "sys_write s ?q ?filled")
  obtain s2 n2 where w2: "sys_write s1 ?q (take ?dw ?rest) = (s2, n2)"
    by (cases "sys_write s1 ?q (take ?dw ?rest)")
  have g1: "grows s s1" using w1 by (rule grows_sys_write_pair)
  have g2: "grows s s2" using g1 grows_sys_write_pair [OF w2] by (rule grows_trans)
  show ?thesis
    using assms g1 g2 unfolding fwrite_over [OF lt w1 refl w2] by (auto split: if_splits)
qed

lemma grows_fclose: "grows s (fclose s f)"
  unfolding fclose_def by (rule grows_sys_write)

text \<open>So a string put into a new stream that is closed at once is in the file as far as
  the file takes it.\<close>

lemma write_default_backup_dir_through:
  "write_default_backup_dir s new_default_dir =
     (let config_path = config_path_of s;
          s1 = ensure_config_dir_exists s config_path;
          s2 = log_err [Debug (''Writing new default directory to config file: '' @ config_path)] s1
      in case fopen_wb s2 config_path of
           Inr (s3, config_file) \<Rightarrow>
             log_err [Debug ''Config file updated successfully.'']
               (fst (sys_write s3 config_file new_default_dir))
         | Inl e \<Rightarrow> log_err [Perror ''Failed to update default backup directory'' e] s2)"
proof -
  have "\<And>s3 q. (case fwrite s3 (stream_of q) new_default_dir of
                    (s4, f4, n) \<Rightarrow> log_err [Debug ''Config file updated successfully.''] (fclose s4 f4))
               = log_err [Debug ''Config file updated successfully.'']
                   (fst (sys_write s3 q new_default_dir))"
  proof -
    fix s3 q
    obtain s4 f4 n where w: "fwrite s3 (stream_of q) new_default_dir = (s4, f4, n)"
      by (cases "fwrite s3 (stream_of q) new_default_dir")
    have "fclose s4 f4 = fst (sys_write s3 q new_default_dir)"
      using fclose_fwrite [OF w] by (simp add: stream_of_def)
    then show "(case fwrite s3 (stream_of q) new_default_dir of
                    (s4, f4, n) \<Rightarrow> log_err [Debug ''Config file updated successfully.''] (fclose s4 f4))
               = log_err [Debug ''Config file updated successfully.'']
                   (fst (sys_write s3 q new_default_dir))"
      by (simp add: w)
  qed
  then show ?thesis
    by (simp add: write_default_backup_dir_def Let_def cong: sum.case_cong)
qed

subsection \<open>Writing the configuration file\<close>

lemma ensure_config_dir_exists_grows: "grows s (ensure_config_dir_exists s p)"
proof (cases "mkdir s (dir_path_of p) 493")
  case (Inl e)
  then show ?thesis
    by (simp add: ensure_config_dir_exists_def Let_def grows_log_err_trans)
next
  case (Inr s2)
  then have "grows s s2" by (rule grows_mkdir)
  then show ?thesis using Inr
    by (simp add: ensure_config_dir_exists_def Let_def grows_log_err_trans)
qed

lemma ensure_config_dir_exists_is_dir:
  "is_dir (ensure_config_dir_exists s p) x \<Longrightarrow> is_dir s x \<or> x = dir_path_of p"
  by (cases "mkdir s (dir_path_of p) 493")
     (auto simp: ensure_config_dir_exists_def Let_def mkdir_is_dir split: if_splits)

lemma ensure_config_dir_exists_reg_frame:
  "is_reg s x \<or> is_reg (ensure_config_dir_exists s p) x
     \<Longrightarrow> files (ensure_config_dir_exists s p) x = files s x"
  by (cases "mkdir s (dir_path_of p) 493")
     (auto simp: ensure_config_dir_exists_def Let_def dest: mkdir_reg_frame split: if_splits)

lemma ensure_config_dir_exists_stdout [simp]:
  "stdout (ensure_config_dir_exists s p) = stdout s"
  by (cases "mkdir s (dir_path_of p) 493")
     (auto simp: ensure_config_dir_exists_def Let_def dest: mkdir_stdout split: if_splits)

lemma fopen_wb_stderr:
  "fopen_wb (s\<lparr>stderr := l\<rparr>) p = map_sum id (map_prod (\<lambda>s. s\<lparr>stderr := l\<rparr>) id) (fopen_wb s p)"
  by (simp add: fopen_wb_def resolve_def add_entry_def split: option.splits sum.splits node.splits)

lemma ensure_config_dir_exists_log_err:
  "\<exists>l. ensure_config_dir_exists (log_err ms s) p = (ensure_config_dir_exists s p)\<lparr>stderr := l\<rparr>"
proof (cases "mkdir s (dir_path_of p) 493")
  case (Inl e)
  then show ?thesis
    by (simp add: ensure_config_dir_exists_def Let_def) (auto simp: log_err_def)
next
  case (Inr s2)
  then show ?thesis
    by (simp add: ensure_config_dir_exists_def Let_def) (auto simp: log_err_def)
qed

lemma config_file_opens_log_err [simp]: "config_file_opens (log_err ms s) = config_file_opens s"
proof -
  have c: "config_path_of (log_err ms s) = config_path_of s" by (simp add: config_path_of_def)
  obtain l where "ensure_config_dir_exists (log_err ms s) (config_path_of s)
      = (ensure_config_dir_exists s (config_path_of s))\<lparr>stderr := l\<rparr>"
    using ensure_config_dir_exists_log_err by blast
  then show ?thesis
    by (cases "fopen_wb (ensure_config_dir_exists s (config_path_of s)) (config_path_of s)")
       (simp_all add: config_file_opens_def c fopen_wb_stderr)
qed

lemma write_default_backup_dir_grows: "grows s (write_default_backup_dir s t)"
proof -
  let ?cfg = "config_path_of s"
  let ?s1 = "ensure_config_dir_exists s ?cfg"
  have g1: "grows s ?s1" by (rule ensure_config_dir_exists_grows)
  show ?thesis
  proof (cases "fopen_wb ?s1 ?cfg")
    case (Inl e)
    then show ?thesis using g1
      by (simp add: write_default_backup_dir_through Let_def grows_log_err_trans)
  next
    case (Inr r)
    obtain s3 q where r: "r = (s3, q)" by (cases r)
    have "grows ?s1 s3" using Inr r by (auto intro: grows_fopen_wb)
    then have "grows s (fst (sys_write s3 q t))"
      using g1 grows_sys_write [of s3 q t] by (blast intro: grows_trans)
    then show ?thesis using Inr r
      by (simp add: write_default_backup_dir_through Let_def grows_log_err_trans)
  qed
qed

lemma write_default_backup_dir_is_dir:
  assumes "is_dir (write_default_backup_dir s t) x"
  shows "is_dir s x \<or> x = dir_path_of (config_path_of s)"
proof -
  let ?cfg = "config_path_of s"
  let ?s1 = "ensure_config_dir_exists s ?cfg"
  have "is_dir ?s1 x"
  proof (cases "fopen_wb ?s1 ?cfg")
    case (Inl e)
    then show ?thesis using assms by (simp add: write_default_backup_dir_through Let_def)
  next
    case (Inr r)
    obtain s3 q where r: "r = (s3, q)" by (cases r)
    then have "is_dir s3 x" using assms Inr by (simp add: write_default_backup_dir_through Let_def)
    then show ?thesis using Inr r fopen_wb_is_dir [of ?s1 ?cfg s3 q x] by simp
  qed
  then show ?thesis by (rule ensure_config_dir_exists_is_dir)
qed

lemma write_default_backup_dir_reg_frame:
  assumes "is_reg (write_default_backup_dir s t) x" and "resolve s (config_path_of s) \<noteq> Inr x"
  shows "files (write_default_backup_dir s t) x = files s x"
proof -
  let ?cfg = "config_path_of s"
  let ?s1 = "ensure_config_dir_exists s ?cfg"
  have rs: "resolve ?s1 ?cfg = resolve s ?cfg"
    by (rule grows_resolve) (rule ensure_config_dir_exists_grows)
  have "is_reg ?s1 x \<and> files (write_default_backup_dir s t) x = files ?s1 x"
  proof (cases "fopen_wb ?s1 ?cfg")
    case (Inl e)
    then show ?thesis using assms by (simp add: write_default_backup_dir_through Let_def is_reg_def)
  next
    case (Inr r)
    obtain s3 q where r: "r = (s3, q)" by (cases r)
    have o: "fopen_wb ?s1 ?cfg = Inr (s3, q)" using Inr r by simp
    then have "resolve ?s1 ?cfg = Inr q" by (simp add: fopen_wb_Inr)
    then have ne: "x \<noteq> q" using assms(2) rs by auto
    have w: "files (write_default_backup_dir s t) x = files s3 x"
      using o ne by (simp add: write_default_backup_dir_through Let_def sys_write_frame)
    then have "is_reg s3 x" using assms(1) by (simp add: is_reg_def)
    then have "files s3 x = files ?s1 x" using fopen_wb_frame [OF o ne] by simp
    then show ?thesis using w \<open>is_reg s3 x\<close> by (simp add: is_reg_def)
  qed
  then show ?thesis using ensure_config_dir_exists_reg_frame [of s x ?cfg] by simp
qed

lemma write_default_backup_dir_stdout [simp]:
  "stdout (write_default_backup_dir s t) = stdout s"
  by (cases "fopen_wb (ensure_config_dir_exists s (config_path_of s)) (config_path_of s)")
     (auto simp: write_default_backup_dir_through Let_def dest: fopen_wb_stdout)

lemma write_default_backup_dir_persists:
  assumes "config_file_opens s" and "resolve s (config_path_of s) = Inr q" and "wlimit s q = None"
  shows "\<exists>pm. files (write_default_backup_dir s t) q = Some (Reg pm t)"
proof -
  let ?cfg = "config_path_of s"
  let ?s1 = "ensure_config_dir_exists s ?cfg"
  have g1: "grows s ?s1" by (rule ensure_config_dir_exists_grows)
  from assms(1) obtain s3 q' where o: "fopen_wb ?s1 ?cfg = Inr (s3, q')"
    by (auto simp: config_file_opens_def split: sum.splits)
  then have "resolve ?s1 ?cfg = Inr q'" by (simp add: fopen_wb_Inr)
  then have q: "q' = q" using grows_resolve [OF g1, of ?cfg] assms(2) by simp
  obtain pm where e: "files s3 q = Some (Reg pm [])" using fopen_wb_empty [OF o] q by auto
  have "wlimit s3 q = None"
    using grows_wlimit [OF grows_fopen_wb [OF o]] grows_wlimit [OF g1] assms(3) by simp
  then have "sys_write s3 q t = (s3\<lparr>files := (files s3)(q \<mapsto> Reg pm ([] @ t))\<rparr>, length t)"
    using e by (rule sys_write_unlimited [rotated])
  then show ?thesis using o q
    by (simp add: write_default_backup_dir_through Let_def)
qed

lemma read_default_backup_dir_line:
  assumes "fopen_rb s (config_path_of s) = Inr q" and "file_data s q = p @ rest" and "line_text p"
    and "(rest = [] \<and> p \<noteq> []) \<or> (\<exists>r. rest = CHR ''\<newline>'' # r)"
  shows "fst (read_default_backup_dir s) = p"
proof -
  obtain line where "fgets PATH_MAX (p @ rest) = Some line"
    "c_str (take (strcspn line CHR ''\<newline>'') line) = p"
    using fgets_line [OF assms(3,4)] by blast
  then show ?thesis using assms(1,2) by (simp add: read_default_backup_dir_def Let_def)
qed

lemma read_after_write:
  assumes "config_file_opens s" and "resolve s (config_path_of s) = Inr q" and "wlimit s q = None"
    and "\<not> refuse s SysOpenRead (config_path_of s)" and "line_text t" and "t \<noteq> []"
  shows "fst (read_default_backup_dir (write_default_backup_dir s t)) = t"
proof -
  let ?s' = "write_default_backup_dir s t"
  have g: "grows s ?s'" by (rule write_default_backup_dir_grows)
  have c: "config_path_of ?s' = config_path_of s" using g by (rule grows_config_path)
  have r: "resolve ?s' (config_path_of s) = Inr q" using grows_resolve [OF g] assms(2) by simp
  obtain pm where f: "files ?s' q = Some (Reg pm t)"
    using write_default_backup_dir_persists [OF assms(1,2,3)] by blast
  have o: "fopen_rb ?s' (config_path_of ?s') = Inr q"
    using r f assms(4) grows_refuse [OF g] by (simp add: c fopen_rb_def)
  have d: "file_data ?s' q = t @ []" using f by (simp add: file_data_def)
  show ?thesis using o d assms(5,6) by (intro read_default_backup_dir_line) auto
qed

subsection \<open>A run that sets the default\<close>

lemma main_options_valid:
  assumes "os \<noteq> []" and "\<forall>x \<in> set os. \<exists>a. x = OptT a \<and> realpath_of s a \<noteq> None"
    and "last os = OptT optarg" and "realpath_of s optarg = Some target"
  shows "\<exists>l. main_options s prog os target_dir update_default = (Inr (target, True), log_err l s)"
  using assms
proof (induction os arbitrary: s target_dir update_default)
  case Nil
  then show ?case by simp
next
  case (Cons o1 os)
  from Cons.prems(2) obtain a r where o1: "o1 = OptT a" and ra: "realpath_of s a = Some r"
    by auto
  let ?s1 = "log_err [Debug (''-t option provided with argument: '' @ a)] s"
  show ?case
  proof (cases "os = []")
    case True
    then have "a = optarg" using Cons.prems(3) o1 by simp
    then have "r = target" using ra Cons.prems(4) by simp
    then show ?thesis using True o1 ra by auto
  next
    case False
    then have l: "last os = OptT optarg" using Cons.prems(3) by simp
    have v: "\<forall>x \<in> set os. \<exists>a. x = OptT a \<and> realpath_of ?s1 a \<noteq> None"
      using Cons.prems(2) by simp
    have t: "realpath_of ?s1 optarg = Some target" using Cons.prems(4) by simp
    from Cons.IH [OF False v l t, of r True]
    obtain l' where "main_options ?s1 prog os r True = (Inr (target, True), log_err l' ?s1)" ..
    then show ?thesis using o1 ra by (auto simp: log_err_log_err)
  qed
qed

lemma main_sets_default:
  assumes "fst (getopt args) \<noteq> []"
    and "\<forall>x \<in> set (fst (getopt args)). \<exists>a. x = OptT a \<and> realpath_of s a \<noteq> None"
    and "last (fst (getopt args)) = OptT optarg" and "realpath_of s optarg = Some target"
  shows "\<exists>l. main depth s prog args =
           Some (0, log_out [Plain (''Updated default backup directory to: '' @ target)]
                      (write_default_backup_dir (log_err l s) target))"
proof -
  let ?s0 = "log_err [Debug ''Starting backup tool.''] s"
  have v: "\<forall>x \<in> set (fst (getopt args)). \<exists>a. x = OptT a \<and> realpath_of ?s0 a \<noteq> None"
    using assms(2) by simp
  have t: "realpath_of ?s0 optarg = Some target" using assms(4) by simp
  from main_options_valid [OF assms(1) v assms(3) t, of prog DEFAULT_TARGET_DIR False]
  obtain l where "main_options ?s0 prog (fst (getopt args)) DEFAULT_TARGET_DIR False
      = (Inr (target, True), log_err l ?s0)" ..
  then have "main depth s prog args =
           Some (0, log_out [Plain (''Updated default backup directory to: '' @ target)]
                      (write_default_backup_dir
                         (log_err ([Debug ''Starting backup tool.''] @ l
                                   @ [Debug (''Updating default backup directory to: '' @ target)]) s) target))"
    by (simp add: main_def log_err_log_err)
  then show ?thesis ..
qed

subsection \<open>Running the program in the example worlds\<close>

lemmas eval_calls = resolve_def follow.simps SYMLOOP_MAX_def stat_def opendir_def mkdir_def
  add_entry_def parent_of_def base_of_def strip_slashes_def fopen_rb_def fopen_wb_def sys_write_def
  file_data_def chmod_def snprintf_path_def PATH_MAX_def log_err_def log_out_def Let_def

lemmas eval_config = config_path_of_def CONFIG_FILE_PATH_def dir_path_of_def
  ensure_config_dir_exists_def write_default_backup_dir_through read_default_backup_dir_def
  fgets_def c_str_def strcspn_def DEFAULT_TARGET_DIR_def

lemma ex_world_resolve_config:
  "resolve ex_world ''/home/pi/.config/backup_tool.conf'' = Inr ''/home/pi/.config/backup_tool.conf''"
  by (simp add: resolve_def follow.simps ex_world_def)

lemma ex_world_config_file_opens: "config_file_opens ex_world"
  by (simp add: config_file_opens_def eval_calls eval_config ex_world_def)

lemma getopt_t_usb: "getopt [''-t'', ''/media/pi/../pi/usb''] = ([OptT ''/media/pi/../pi/usb''], [])"
  by (simp add: getopt.simps)

lemma ex_world_realpath: "realpath_of ex_world ''/media/pi/../pi/usb'' = Some ''/media/pi/usb''"
  by (simp add: ex_world_def)

lemma ex_world_misc:
  "wlimit ex_world q = None" "\<not> refuse ex_world SysOpenRead ''/home/pi/.config/backup_tool.conf''"
  "stdout ex_world = []" "\<not> is_dir ex_world ''/media/pi/usb/Backup 2024-01-02 03-04-05''"
  "dir_path_of ''/home/pi/.config/backup_tool.conf'' = ''/home/pi/.config''"
  by (simp_all add: ex_world_def is_dir_def dir_path_of_def)

lemma sys_write_stderr:
  "sys_write (s\<lparr>stderr := l\<rparr>) q b = map_prod (\<lambda>s. s\<lparr>stderr := l\<rparr>) id (sys_write s q b)"
  by (simp add: sys_write_def Let_def split: option.splits node.splits)

lemma write_default_backup_dir_log_err:
  "\<exists>l'. write_default_backup_dir (log_err l s) t = (write_default_backup_dir s t)\<lparr>stderr := l'\<rparr>"
proof -
  have c: "config_path_of (log_err l s) = config_path_of s" by (simp add: config_path_of_def)
  let ?cfg = "config_path_of s"
  obtain l1 where e: "ensure_config_dir_exists (log_err l s) ?cfg
      = (ensure_config_dir_exists s ?cfg)\<lparr>stderr := l1\<rparr>"
    using ensure_config_dir_exists_log_err by blast
  show ?thesis
  proof (cases "fopen_wb (ensure_config_dir_exists s ?cfg) ?cfg")
    case (Inl e')
    then show ?thesis
      by (simp add: write_default_backup_dir_through Let_def c e fopen_wb_stderr) (auto simp: log_err_def)
  next
    case (Inr r)
    obtain s3 q where r: "r = (s3, q)" by (cases r)
    show ?thesis
    proof (cases "sys_write s3 q t")
      case (Pair s4 n)
      then show ?thesis using Inr r
        by (simp add: write_default_backup_dir_through Let_def c e fopen_wb_stderr sys_write_stderr)
           (auto simp: log_err_def)
    qed
  qed
qed

lemma read_default_backup_dir_stderr:
  "fst (read_default_backup_dir (s\<lparr>stderr := l\<rparr>)) = fst (read_default_backup_dir s)"
  by (rule read_default_backup_dir_cong) simp_all

lemma main_sets_default_read:
  assumes "fst (getopt args) \<noteq> []"
    and "\<forall>x \<in> set (fst (getopt args)). \<exists>a. x = OptT a \<and> realpath_of s a \<noteq> None"
    and "last (fst (getopt args)) = OptT optarg" and "realpath_of s optarg = Some target"
  shows "\<exists>s'. main depth s prog args = Some (0, s')
           \<and> fst (read_default_backup_dir s') = fst (read_default_backup_dir (write_default_backup_dir s target))"
proof -
  from main_sets_default [OF assms, of depth prog] obtain l where
    m: "main depth s prog args =
           Some (0, log_out [Plain (''Updated default backup directory to: '' @ target)]
                      (write_default_backup_dir (log_err l s) target))" ..
  obtain l' where w: "write_default_backup_dir (log_err l s) target
       = (write_default_backup_dir s target)\<lparr>stderr := l'\<rparr>"
    using write_default_backup_dir_log_err by blast
  have "fst (read_default_backup_dir (log_out [Plain (''Updated default backup directory to: '' @ target)]
                      (write_default_backup_dir (log_err l s) target)))
      = fst (read_default_backup_dir (write_default_backup_dir (log_err l s) target))"
    by (rule read_default_backup_dir_cong) simp_all
  then show ?thesis using m w by (simp add: read_default_backup_dir_stderr)
qed

lemma ex_newline_read:
  "fst (read_default_backup_dir (write_default_backup_dir ex_newline newline_dir)) = ''/media/pi/usb''"
  by (simp add: newline_dir_def ex_newline_def ex_world_def eval_calls eval_config)

lemma getopt_t_newline: "getopt [''-t'', newline_dir] = ([OptT newline_dir], [])"
  by (simp add: getopt.simps newline_dir_def)

subsection \<open>What stat reports\<close>

lemma fmt_div: "r < 4096 \<Longrightarrow> (a * 4096 + r) div 4096 = (a::nat)"
  by simp

lemma stat_Dir:
  assumes "\<not> refuse s SysStat p" and "resolve s p = Inr q" and "files s q = Some (Dir pm es)"
  shows "stat s p = Inr (S_IFDIR + pm mod 4096)" and "S_ISDIR (S_IFDIR + pm mod 4096)"
  using assms by (simp_all add: stat_def S_ISDIR_def S_IFDIR_def)

lemma stat_Reg:
  assumes "\<not> refuse s SysStat p" and "resolve s p = Inr q" and "files s q = Some (Reg pm c)"
  shows "stat s p = Inr (S_IFREG + pm mod 4096)" and "\<not> S_ISDIR (S_IFREG + pm mod 4096)"
    and "S_ISREG (S_IFREG + pm mod 4096)"
  using assms by (simp_all add: stat_def S_ISDIR_def S_ISREG_def S_IFREG_def)


lemma stat_refused: "refuse s SysStat p \<Longrightarrow> stat s p = Inl EACCES"
  by (simp add: stat_def)

lemma stat_cong:
  "files s' = files s \<Longrightarrow> refuse s' = refuse s \<Longrightarrow> stat s' p = stat s p"
  by (simp add: stat_def resolve_def cong: sum.case_cong)

lemma fopen_rb_Inr:
  assumes "fopen_rb s p = Inr q"
  shows "resolve s p = Inr q" and "\<not> refuse s SysOpenRead p" and "files s q \<noteq> None"
  using assms by (auto simp: fopen_rb_def split: if_splits sum.splits option.splits node.splits)


subsection \<open>copy_file\<close>

lemma copy_loop_Nil: "copy_loop s f [] src dest = (s, f)"
  by (subst copy_loop.simps) simp

lemma copy_loop_step:
  assumes "data \<noteq> []" and "fwrite s f (take 4096 data) = (s', f', n)"
  shows "copy_loop s f data src dest =
           (if n \<noteq> length (take 4096 data) then
              (log_err [Perror ''Failed to write to destination file'' ENOSPC,
                        Error (''Write error occurred while copying file: '' @ src @ '' -> '' @ dest)] s',
               f')
            else copy_loop s' f' (drop 4096 data) src dest)"
  using assms by (subst copy_loop.simps) (simp add: Let_def)

lemma copy_loop_grows: "grows s (fst (copy_loop s f data src dest))"
proof (induction "length data" arbitrary: s f data rule: less_induct)
  case less
  show ?case
  proof (cases "data = []")
    case True
    then show ?thesis by (simp add: copy_loop_Nil grows_refl)
  next
    case False
    obtain s' f' n where w: "fwrite s f (take 4096 data) = (s', f', n)"
      by (cases "fwrite s f (take 4096 data)")
    have g: "grows s s'" using w by (rule grows_fwrite)
    have "grows s' (fst (copy_loop s' f' (drop 4096 data) src dest))"
      by (rule less) (use False in simp)
    then have "grows s (fst (copy_loop s' f' (drop 4096 data) src dest))"
      using g by (blast intro: grows_trans)
    then show ?thesis
      using g by (simp add: copy_loop_step [OF False w] grows_log_err_trans)
  qed
qed


text \<open>A file shorter than the buffer of the stream goes into the buffer whole, and
  \<^verbatim>\<open>fwrite\<close> reports it as written; a file of a block or more meets the limit of the
  destination at its first block.\<close>

lemma copy_loop_small:
  assumes "data \<noteq> []" and "length data < 4096"
  shows "copy_loop s (stream_of q) data src dest
       = (s, \<lparr>os_fd = q, os_pending = data, os_room = 4096 - length data\<rparr>)"
proof -
  have t: "take 4096 data = data" "drop 4096 data = []" using assms(2) by simp_all
  have w: "fwrite s (stream_of q) (take 4096 data)
         = (s, \<lparr>os_fd = q, os_pending = data, os_room = 4096 - length data\<rparr>, length data)"
    using assms by (simp add: t fwrite_def stream_of_def st_blksize_def Let_def)
  show ?thesis
    by (simp add: copy_loop_step [OF assms(1) w] t copy_loop_Nil)
qed

lemma copy_loop_first_block:
  assumes "files s q = Some (Reg pm [])" and "wlimit s q = Some l" and "l < 4096"
    and "4096 \<le> length data"
  shows "Error (''Write error occurred while copying file: '' @ src @ '' -> '' @ dest)
           \<in> set (stderr (fst (copy_loop s (stream_of q) data src dest)))"
proof -
  let ?b = "take 4096 data"
  have ne: "data \<noteq> []" using assms(4) by auto
  have len: "length ?b = 4096" using assms(4) by simp
  obtain s' f' n where w: "fwrite s (stream_of q) ?b = (s', f', n)"
    by (cases "fwrite s (stream_of q) ?b")
  have "n = l"
    using w assms(1,2,3) len
    by (auto simp: fwrite_def stream_of_def st_blksize_def Let_def sys_write_def
          split: if_splits prod.splits)
  then have "n \<noteq> length ?b" using assms(3) len by simp
  then show ?thesis by (simp add: copy_loop_step [OF ne w])
qed

lemmas log_err_calls = stat_log_err opendir_log_err fopen_rb_log_err file_data_log_err
  add_entry_log_err mkdir_log_err fopen_wb_log_err sys_write_log_err chmod_log_err

lemma grows_stderr_mono: "grows s s' \<Longrightarrow> set (stderr s) \<subseteq> set (stderr s')"
  by (auto simp: grows_def)

lemma grows_is_reg: "grows s s' \<Longrightarrow> is_reg s p \<Longrightarrow> is_reg s' p"
  by (simp add: grows_def)

lemma grows_is_dir: "grows s s' \<Longrightarrow> is_dir s p \<Longrightarrow> is_dir s' p"
  by (simp add: grows_def)

lemma copy_file_no_src:
  "fopen_rb s src = Inl e \<Longrightarrow>
     copy_file s src dest = log_err [Perror ''Failed to open source file'' e,
                                     Error (''Could not open source file: '' @ src)] s"
  by (simp add: copy_file_def)

lemma copy_file_no_dest:
  assumes "fopen_rb s src = Inr sf" and "fopen_wb s dest = Inl e"
  shows "copy_file s src dest =
           log_err [Info (''Opened source file: '' @ src),
                    Perror ''Failed to open destination file'' e,
                    Error (''Could not open destination file: '' @ dest)] s"
  using assms by (simp add: copy_file_def Let_def log_err_log_err)

text \<open>The last part of \<open>copy_file\<close>, lines 269 to 285, from the state in which the loop
  has ended.\<close>

lemma copy_file_opened:
  assumes "fopen_rb s src = Inr sf" and "fopen_wb s dest = Inr (s2, df)"
  shows "copy_file s src dest =
           (let r = copy_loop (log_err [Info (''Opened source file: '' @ src),
                                        Info (''Created destination file: '' @ dest)] s2)
                      (stream_of df) (file_data s2 sf) src dest;
                s5 = log_err [Info (''File copy completed: '' @ src @ '' -> '' @ dest)]
                       (fclose (fst r) (snd r))
            in case stat s5 src of
                 Inl e \<Rightarrow> s5
               | Inr st_mode \<Rightarrow>
                   (case chmod s5 dest st_mode of
                      Inl e \<Rightarrow>
                        log_err [Perror ''Failed to set file permissions'' e,
                                 Warning (''Permissions not set correctly for: '' @ dest)] s5
                    | Inr s6 \<Rightarrow>
                        log_err [Info (''Permissions set successfully for: '' @ dest)] s6))"
proof -
  have o: "fopen_wb (log_err [Info (''Opened source file: '' @ src)] s) dest
      = Inr (log_err [Info (''Opened source file: '' @ src)] s2, df)"
    using assms(2) by simp
  show ?thesis
    unfolding copy_file_def Let_def assms(1) sum.case o prod.case case_prod_beta
    by (simp add: log_err_log_err cong: sum.case_cong)
qed

lemma copy_file_tail_grows:
  "grows s5 (case stat s5 src of
                 Inl e \<Rightarrow> s5
               | Inr st_mode \<Rightarrow>
                   (case chmod s5 dest st_mode of
                      Inl e \<Rightarrow>
                        log_err [Perror ''Failed to set file permissions'' e,
                                 Warning (''Permissions not set correctly for: '' @ dest)] s5
                    | Inr s6 \<Rightarrow>
                        log_err [Info (''Permissions set successfully for: '' @ dest)] s6))"
proof (cases "stat s5 src")
  case (Inl e)
  then show ?thesis by simp
next
  case st: (Inr st_mode)
  show ?thesis
  proof (cases "chmod s5 dest st_mode")
    case (Inl e)
    then show ?thesis using st by (simp del: log_err_calls)
  next
    case (Inr s6)
    then have "grows s5 s6" by (rule grows_chmod)
    then show ?thesis using st Inr by (simp add: grows_log_err_trans del: log_err_calls)
  qed
qed

text \<open>The state in which the copy is logged as completed.\<close>

lemma copy_file_completed_grows:
  assumes "fopen_wb s dest = Inr (s2, df)"
  shows "grows s (log_err ms
           (fclose (fst (copy_loop (log_err ms' s2) (stream_of df) data src dest))
                   (snd (copy_loop (log_err ms' s2) (stream_of df) data src dest))))"
proof -
  have g2: "grows s s2" using assms by (rule grows_fopen_wb)
  have g3: "grows s (log_err ms' s2)" using g2 by (rule grows_log_err_trans)
  have g4: "grows s (fst (copy_loop (log_err ms' s2) (stream_of df) data src dest))"
    by (rule grows_trans [OF g3 copy_loop_grows])
  show ?thesis
    by (rule grows_log_err_trans) (rule grows_trans [OF g4 grows_fclose])
qed

lemma copy_file_grows: "grows s (copy_file s src dest)"
proof (cases "fopen_rb s src")
  case (Inl e)
  then show ?thesis by (simp add: copy_file_no_src grows_log_err_trans)
next
  case (Inr sf)
  show ?thesis
  proof (cases "fopen_wb s dest")
    case (Inl e)
    then show ?thesis using Inr by (simp add: copy_file_no_dest grows_log_err_trans)
  next
    case wb: (Inr r)
    obtain s2 df where r: "r = (s2, df)" by (cases r)
    have wb': "fopen_wb s dest = Inr (s2, df)" using wb r by simp
    show ?thesis
      unfolding copy_file_opened [OF Inr wb'] Let_def
      by (rule grows_trans [OF copy_file_completed_grows [OF wb'] copy_file_tail_grows])
  qed
qed


text \<open>A destination that takes less than a block, and a source of a block or more: the
  first \<^verbatim>\<open>fwrite\<close> comes back short and the error is logged.\<close>

lemma copy_file_write_error:
  assumes rb: "fopen_rb s src = Inr sf" and reg: "files s sf = Some (Reg pm c)"
    and wb: "fopen_wb s dest = Inr (s2, df)" and ne: "df \<noteq> sf"
    and lim: "wlimit s df = Some l" and short: "l < 4096" and block: "4096 \<le> length c"
  shows "Error (''Write error occurred while copying file: '' @ src @ '' -> '' @ dest)
           \<in> set (stderr (copy_file s src dest))"
proof -
  let ?s3 = "log_err [Info (''Opened source file: '' @ src), Info (''Created destination file: '' @ dest)] s2"
  let ?r = "copy_loop ?s3 (stream_of df) (file_data s2 sf) src dest"
  let ?s5 = "log_err [Info (''File copy completed: '' @ src @ '' -> '' @ dest)] (fclose (fst ?r) (snd ?r))"
  have g2: "grows s s2" using wb by (rule grows_fopen_wb)
  have f2: "files s2 sf = Some (Reg pm c)"
    using fopen_wb_frame [OF wb ne [symmetric]] reg by (simp add: is_reg_def)
  then have d: "file_data s2 sf = c" by (simp add: file_data_def)
  obtain pm0 where e: "files s2 df = Some (Reg pm0 [])" using fopen_wb_empty [OF wb] by blast
  have l3: "wlimit ?s3 df = Some l" using grows_wlimit [OF g2] lim by simp
  have e3: "files ?s3 df = Some (Reg pm0 [])" using e by simp
  have "Error (''Write error occurred while copying file: '' @ src @ '' -> '' @ dest)
           \<in> set (stderr (fst (copy_loop ?s3 (stream_of df) c src dest)))"
    using e3 l3 short block by (rule copy_loop_first_block)
  moreover have "set (stderr (fst ?r)) \<subseteq> set (stderr ?s5)"
    by (rule grows_stderr_mono) (rule grows_log_err_trans [OF grows_fclose])
  ultimately have mem: "Error (''Write error occurred while copying file: '' @ src @ '' -> '' @ dest)
           \<in> set (stderr ?s5)" unfolding d by (rule rev_subsetD)
  show ?thesis
    unfolding copy_file_opened [OF rb wb] Let_def
    by (rule subsetD [OF grows_stderr_mono [OF copy_file_tail_grows] mem])
qed

lemma copy_file_chmod_error:
  assumes rb: "fopen_rb s src = Inr sf" and wb: "fopen_wb s dest = Inr (s2, df)"
    and st: "\<not> refuse s SysStat src" and ch: "refuse s SysChmod dest"
  shows "Warning (''Permissions not set correctly for: '' @ dest) \<in> set (stderr (copy_file s src dest))"
proof -
  let ?s3 = "log_err [Info (''Opened source file: '' @ src), Info (''Created destination file: '' @ dest)] s2"
  let ?r = "copy_loop ?s3 (stream_of df) (file_data s2 sf) src dest"
  let ?s5 = "log_err [Info (''File copy completed: '' @ src @ '' -> '' @ dest)] (fclose (fst ?r) (snd ?r))"
  have g5: "grows s ?s5" using wb by (rule copy_file_completed_grows)
  have rs: "resolve ?s5 src = Inr sf" using grows_resolve [OF g5] fopen_rb_Inr(1) [OF rb] by simp
  have "lnk_of (files s sf) = None" using fopen_rb_Inr(1) [OF rb] by (rule resolve_not_link)
  moreover have "files s sf \<noteq> None" using rb by (rule fopen_rb_Inr)
  moreover have "\<forall>k pm. files s sf \<noteq> Some (Special k pm)"
    using rb by (auto simp: fopen_rb_def split: if_splits sum.splits option.splits node.splits)
  ultimately have "is_dir s sf \<or> is_reg s sf"
    by (cases "files s sf"; simp add: is_dir_def is_reg_def) (rename_tac nd, case_tac nd; simp)
  then have "is_dir ?s5 sf \<or> is_reg ?s5 sf"
    using grows_is_dir [OF g5] grows_is_reg [OF g5] by blast
  then obtain nd where "files ?s5 sf = Some nd" by (auto simp: is_dir_iff is_reg_iff)
  then have fn: "files ?s5 sf = Some nd" .
  have rf5: "refuse ?s5 = refuse s" by (rule grows_refuse [OF g5])
  have ns: "\<not> refuse ?s5 SysStat src" unfolding rf5 by (rule st)
  have yc: "refuse ?s5 SysChmod dest" unfolding rf5 by (rule ch)
  have st5: "stat ?s5 src = Inr (st_mode_of nd)"
    by (simp only: stat_def ns rs fn if_False sum.case option.case)
  have ch5: "chmod ?s5 dest (st_mode_of nd) = Inl EPERM"
    by (simp only: chmod_def yc if_True)
  show ?thesis
    unfolding copy_file_opened [OF rb wb] Let_def st5 sum.case ch5 by simp
qed

lemma fopen_wb_stderr_eq: "fopen_wb s p = Inr (s', q) \<Longrightarrow> stderr s' = stderr s"
  by (drule fopen_wb_Inr) auto

text \<open>
  A source shorter than a block and a destination that takes less than the source holds.
  The bytes go into the buffer of the stream, \<^verbatim>\<open>fwrite\<close> reports them written, and the
  write that is cut short is the one \<^verbatim>\<open>fclose\<close> makes, whose result is dropped: the log
  is that of a copy that went well, and the destination holds the first bytes only.
\<close>

lemma copy_file_cut_short:
  assumes rb: "fopen_rb s src = Inr sf" and reg: "files s sf = Some (Reg pm c)"
    and wb: "fopen_wb s dest = Inr (s2, df)" and ne: "df \<noteq> sf"
    and lim: "wlimit s df = Some l" and small: "length c < 4096" and "c \<noteq> []"
    and st: "\<not> refuse s SysStat src" and ch: "\<not> refuse s SysChmod dest"
  shows "stderr (copy_file s src dest) =
           stderr s @ [Info (''Opened source file: '' @ src),
                       Info (''Created destination file: '' @ dest),
                       Info (''File copy completed: '' @ src @ '' -> '' @ dest),
                       Info (''Permissions set successfully for: '' @ dest)]"
    and "files (copy_file s src dest) df = Some (Reg (pm mod 4096) (take l c))"
proof -
  let ?s3 = "log_err [Info (''Opened source file: '' @ src), Info (''Created destination file: '' @ dest)] s2"
  let ?f = "\<lparr>os_fd = df, os_pending = c, os_room = 4096 - length c\<rparr>"
  let ?s5 = "log_err [Info (''File copy completed: '' @ src @ '' -> '' @ dest)] (fclose ?s3 ?f)"
  have g2: "grows s s2" using wb by (rule grows_fopen_wb)
  have f2: "files s2 sf = Some (Reg pm c)"
    using fopen_wb_frame [OF wb ne [symmetric]] reg by (simp add: is_reg_def)
  then have d: "file_data s2 sf = c" by (simp add: file_data_def)
  obtain pm0 where e: "files s2 df = Some (Reg pm0 [])" using fopen_wb_empty [OF wb] by blast
  have l2: "wlimit s2 df = Some l" using grows_wlimit [OF g2] lim by simp
  have loop: "copy_loop ?s3 (stream_of df) (file_data s2 sf) src dest = (?s3, ?f)"
    unfolding d using assms(7) small by (rule copy_loop_small)
  have cl: "fclose s2 ?f = s2\<lparr>files := (files s2)(df \<mapsto> Reg pm0 (take l c))\<rparr>"
    using e l2 by (simp add: fclose_def sys_write_def)
  have f5: "files ?s5 = (files s2)(df \<mapsto> Reg pm0 (take l c))"
    by (simp add: cl)
  have e5: "stderr ?s5 = stderr s2 @ [Info (''Opened source file: '' @ src),
                       Info (''Created destination file: '' @ dest),
                       Info (''File copy completed: '' @ src @ '' -> '' @ dest)]"
    by (simp add: cl)
  have e2: "stderr s2 = stderr s" using wb by (rule fopen_wb_stderr_eq)
  have g5: "grows s ?s5"
    using copy_file_completed_grows [OF wb,
        where ms = "[Info (''File copy completed: '' @ src @ '' -> '' @ dest)]"
          and ms' = "[Info (''Opened source file: '' @ src), Info (''Created destination file: '' @ dest)]"
          and data = "file_data s2 sf" and src = src]
    unfolding loop fst_conv snd_conv .
  have rs: "resolve ?s5 src = Inr sf" using grows_resolve [OF g5] fopen_rb_Inr(1) [OF rb] by simp
  have rd: "resolve ?s5 dest = Inr df" using grows_resolve [OF g5] fopen_wb_Inr [OF wb] by simp
  have fs5: "files ?s5 sf = Some (Reg pm c)" using f5 f2 ne by simp
  have fd5: "files ?s5 df = Some (Reg pm0 (take l c))" using f5 by simp
  have rf5: "refuse ?s5 = refuse s" by (rule grows_refuse [OF g5])
  have ns: "\<not> refuse ?s5 SysStat src" unfolding rf5 by (rule st)
  have nc: "\<not> refuse ?s5 SysChmod dest" unfolding rf5 by (rule ch)
  have st5: "stat ?s5 src = Inr (S_IFREG + pm mod 4096)"
    using ns rs fs5 by (rule stat_Reg)
  have "(8 * 4096 + pm mod 4096) mod 4096 = (pm mod 4096) mod (4096::nat)"
    by (rule mod_mult_self3)
  then have m: "(S_IFREG + pm mod 4096) mod 4096 = pm mod 4096"
    unfolding S_IFREG_def by (simp only: mod_mod_trivial)
  have ch5: "chmod ?s5 dest (S_IFREG + pm mod 4096)
      = Inr (?s5\<lparr>files := (files ?s5)(df \<mapsto> Reg (pm mod 4096) (take l c))\<rparr>)"
    by (simp only: chmod_def nc rd fd5 if_False sum.case option.case set_perm.simps m)
  have cf: "copy_file s src dest = log_err [Info (''Permissions set successfully for: '' @ dest)]
      (?s5\<lparr>files := (files ?s5)(df \<mapsto> Reg (pm mod 4096) (take l c))\<rparr>)"
    unfolding copy_file_opened [OF rb wb] Let_def loop fst_conv snd_conv st5 sum.case ch5 ..
  show "files (copy_file s src dest) df = Some (Reg (pm mod 4096) (take l c))"
    unfolding cf by simp
  show "stderr (copy_file s src dest) =
           stderr s @ [Info (''Opened source file: '' @ src),
                       Info (''Created destination file: '' @ dest),
                       Info (''File copy completed: '' @ src @ '' -> '' @ dest),
                       Info (''Permissions set successfully for: '' @ dest)]"
  proof -
    have "stderr (copy_file s src dest)
        = stderr ?s5 @ [Info (''Permissions set successfully for: '' @ dest)]"
      unfolding cf by simp
    then show ?thesis unfolding e5 e2 by simp
  qed
qed

subsection \<open>One iteration of the loop of copy_directory\<close>

lemma copy_entries_dot:
  "d_name = ''.'' \<or> d_name = ''..'' \<Longrightarrow>
     copy_entries k s src dest (d_name # rest) = copy_entries k s src dest rest"
  by simp

lemma copy_entries_stat_fails:
  assumes "d_name \<noteq> ''.''" and "d_name \<noteq> ''..''"
    and "stat s (snprintf_path PATH_MAX src d_name) = Inl e"
  shows "copy_entries k s src dest (d_name # rest) =
           copy_entries k
             (log_err [Perror ''Failed to retrieve file metadata'' e,
                       Warning (''Could not stat entry: '' @ snprintf_path PATH_MAX src d_name)] s)
             src dest rest"
  using assms by (simp add: Let_def)

lemma copy_entries_dir:
  assumes "d_name \<noteq> ''.''" and "d_name \<noteq> ''..''"
    and "stat s (snprintf_path PATH_MAX src d_name) = Inr m" and "S_ISDIR m"
  shows "copy_entries k s src dest (d_name # rest) =
           (case copy_directory k
                   (log_err [Info (''Found directory: '' @ snprintf_path PATH_MAX src d_name)] s)
                   (snprintf_path PATH_MAX src d_name) (snprintf_path PATH_MAX dest d_name) of
              None \<Rightarrow> None
            | Some s' \<Rightarrow> copy_entries k s' src dest rest)"
  using assms by (simp add: Let_def)

lemma copy_entries_reg:
  assumes "d_name \<noteq> ''.''" and "d_name \<noteq> ''..''"
    and "stat s (snprintf_path PATH_MAX src d_name) = Inr m" and "\<not> S_ISDIR m" and "S_ISREG m"
  shows "copy_entries k s src dest (d_name # rest) =
           copy_entries k
             (copy_file (log_err [Info (''Found file: '' @ snprintf_path PATH_MAX src d_name)] s)
                (snprintf_path PATH_MAX src d_name) (snprintf_path PATH_MAX dest d_name))
             src dest rest"
  using assms by (simp add: Let_def)

lemma copy_entries_other:
  assumes "d_name \<noteq> ''.''" and "d_name \<noteq> ''..''"
    and "stat s (snprintf_path PATH_MAX src d_name) = Inr m" and "\<not> S_ISDIR m" and "\<not> S_ISREG m"
  shows "copy_entries k s src dest (d_name # rest) =
           copy_entries k
             (log_err [Warning (''Skipped unknown entry type: '' @ snprintf_path PATH_MAX src d_name)] s)
             src dest rest"
  using assms by (simp add: Let_def)

lemma copy_directory_opendir_fails:
  "opendir s src = Inl e \<Longrightarrow>
     copy_directory (Suc k) s src dest =
       Some (log_err [Perror ''Failed to open source directory'' e,
                      Error (''Could not open directory: '' @ src)] s)"
  by simp

lemma copy_directory_mkdir_fails:
  assumes "opendir s src = Inr es" and "mkdir s dest 493 = Inl e" and "e \<noteq> EEXIST"
  shows "copy_directory (Suc k) s src dest =
           Some (log_err [Info (''Opened source directory: '' @ src),
                          Perror ''Failed to create destination directory'' e,
                          Error (''Could not create destination directory: '' @ dest)] s)"
  using assms by (simp add: Let_def log_err_log_err)

lemma copy_directory_exists:
  assumes "opendir s src = Inr es" and "mkdir s dest 493 = Inl EEXIST"
  shows "copy_directory (Suc k) s src dest =
           (case copy_entries k
                   (log_err [Info (''Opened source directory: '' @ src),
                             Info (''Destination directory created or already exists: '' @ dest)] s)
                   src dest es of
              None \<Rightarrow> None
            | Some s3 \<Rightarrow> Some (log_err [Info (''Finished processing directory: '' @ src)] s3))"
  using assms by (simp add: Let_def log_err_log_err)

lemma copy_directory_created:
  assumes "opendir s src = Inr es" and "mkdir s dest 493 = Inr s2"
  shows "copy_directory (Suc k) s src dest =
           (case copy_entries k
                   (log_err [Info (''Opened source directory: '' @ src),
                             Info (''Destination directory created or already exists: '' @ dest)] s2)
                   src dest es of
              None \<Rightarrow> None
            | Some s3 \<Rightarrow> Some (log_err [Info (''Finished processing directory: '' @ src)] s3))"
  using assms by (simp add: Let_def log_err_log_err)

declare copy_directory.simps [simp del] copy_entries.simps(2) [simp del]


subsection \<open>The copy keeps what grows allows\<close>

lemma copy_entries_grows_aux:
  assumes dir: "\<And>s src dest s'. copy_directory k s src dest = Some s' \<Longrightarrow> grows s s'"
  shows "copy_entries k s src dest es = Some s' \<Longrightarrow> grows s s'"
proof (induction es arbitrary: s)
  case Nil
  then show ?case by simp
next
  case (Cons e rest)
  let ?sp = "snprintf_path PATH_MAX src e"
  let ?dp = "snprintf_path PATH_MAX dest e"
  show ?case
  proof (cases "e = ''.'' \<or> e = ''..''")
    case True
    then show ?thesis using Cons by (simp add: copy_entries_dot)
  next
    case False
    then have ne: "e \<noteq> ''.''" "e \<noteq> ''..''" by simp_all
    show ?thesis
    proof (cases "stat s ?sp")
      case (Inl er)
      from Cons.prems have "grows (log_err [Perror ''Failed to retrieve file metadata'' er,
                       Warning (''Could not stat entry: '' @ ?sp)] s) s'"
        unfolding copy_entries_stat_fails [OF ne Inl] by (rule Cons.IH)
      then show ?thesis by (rule grows_trans [OF grows_log_err])
    next
      case (Inr m)
      show ?thesis
      proof (cases "S_ISDIR m")
        case True
        let ?s0 = "log_err [Info (''Found directory: '' @ ?sp)] s"
        from Cons.prems obtain s1 where c: "copy_directory k ?s0 ?sp ?dp = Some s1"
          and r: "copy_entries k s1 src dest rest = Some s'"
          unfolding copy_entries_dir [OF ne Inr True] by (auto split: option.splits)
        have "grows ?s0 s1" using c by (rule dir)
        moreover have "grows s1 s'" using r by (rule Cons.IH)
        ultimately show ?thesis by (blast intro: grows_trans grows_log_err)
      next
        case nd: False
        show ?thesis
        proof (cases "S_ISREG m")
          case True
          let ?s1 = "copy_file (log_err [Info (''Found file: '' @ ?sp)] s) ?sp ?dp"
          from Cons.prems have "grows ?s1 s'"
            unfolding copy_entries_reg [OF ne Inr nd True] by (rule Cons.IH)
          moreover have "grows s ?s1"
            by (rule grows_trans [OF grows_log_err copy_file_grows])
          ultimately show ?thesis by (rule grows_trans [rotated])
        next
          case False
          from Cons.prems have "grows (log_err [Warning (''Skipped unknown entry type: '' @ ?sp)] s) s'"
            unfolding copy_entries_other [OF ne Inr nd False] by (rule Cons.IH)
          then show ?thesis by (rule grows_trans [OF grows_log_err])
        qed
      qed
    qed
  qed
qed

lemma copy_directory_grows: "copy_directory k s src dest = Some s' \<Longrightarrow> grows s s'"
proof (induction k arbitrary: s src dest s')
  case 0
  then show ?case by (simp add: copy_directory.simps)
next
  case (Suc k)
  have ent: "\<And>s src dest es s'. copy_entries k s src dest es = Some s' \<Longrightarrow> grows s s'"
    by (rule copy_entries_grows_aux) (rule Suc.IH)
  show ?case
  proof (cases "opendir s src")
    case (Inl e)
    then show ?thesis using Suc.prems by (auto simp: copy_directory_opendir_fails grows_log_err_trans)
  next
    case (Inr es)
    show ?thesis
    proof (cases "mkdir s dest 493")
      case mk: (Inl e)
      show ?thesis
      proof (cases "e = EEXIST")
        case True
        from Suc.prems obtain s3 where
          c: "copy_entries k (log_err [Info (''Opened source directory: '' @ src),
                 Info (''Destination directory created or already exists: '' @ dest)] s) src dest es = Some s3"
          and s': "s' = log_err [Info (''Finished processing directory: '' @ src)] s3"
          using mk True unfolding copy_directory_exists [OF Inr mk [unfolded True]]
          by (auto split: option.splits)
        have "grows s s3" using ent [OF c] by (rule grows_trans [OF grows_log_err])
        then show ?thesis unfolding s' by (rule grows_log_err_trans)
      next
        case False
        then show ?thesis using Suc.prems
          by (auto simp: copy_directory_mkdir_fails [OF Inr mk] grows_log_err_trans)
      qed
    next
      case mk: (Inr s2)
      from Suc.prems obtain s3 where
        c: "copy_entries k (log_err [Info (''Opened source directory: '' @ src),
               Info (''Destination directory created or already exists: '' @ dest)] s2) src dest es = Some s3"
        and s': "s' = log_err [Info (''Finished processing directory: '' @ src)] s3"
        unfolding copy_directory_created [OF Inr mk] by (auto split: option.splits)
      have "grows s s2" using mk by (rule grows_mkdir)
      moreover have "grows s2 s3" using ent [OF c] by (rule grows_trans [OF grows_log_err])
      ultimately have "grows s s3" by (rule grows_trans)
      then show ?thesis unfolding s' by (rule grows_log_err_trans)
    qed
  qed
qed

lemma copy_entries_grows: "copy_entries k s src dest es = Some s' \<Longrightarrow> grows s s'"
  by (rule copy_entries_grows_aux) (rule copy_directory_grows)

subsection \<open>The copy returns\<close>

lemma long_paths_fail_grows: "grows s s' \<Longrightarrow> long_paths_fail s \<Longrightarrow> long_paths_fail s'"
  by (simp add: long_paths_fail_def grows_def)

lemma long_paths_fail_log_err [simp]: "long_paths_fail (log_err ms s) = long_paths_fail s"
  by (simp add: long_paths_fail_def)

lemma snprintf_path_short:
  assumes "length (snprintf_path PATH_MAX a b) < PATH_MAX - 1"
  shows "snprintf_path PATH_MAX a b = a @ ''/'' @ b"
proof -
  have "length (a @ ''/'' @ b) < PATH_MAX - 1"
    using assms by (simp add: snprintf_path_def)
  then show ?thesis by (simp add: snprintf_path_def)
qed

lemma stat_ok_short:
  assumes "long_paths_fail s" and "stat s p = Inr m"
  shows "length p < PATH_MAX - 1"
proof (rule ccontr)
  assume "\<not> length p < PATH_MAX - 1"
  then have "refuse s SysStat p" using assms(1) by (simp add: long_paths_fail_def)
  then show False using assms(2) by (simp add: stat_refused)
qed

lemma copy_entries_total_aux:
  assumes dir: "\<And>s src' dest. long_paths_fail s \<Longrightarrow> 0 < k \<Longrightarrow> PATH_MAX \<le> k + length src'
                   \<Longrightarrow> copy_directory k s src' dest \<noteq> None"
  shows "long_paths_fail s \<Longrightarrow> PATH_MAX \<le> Suc k + length src
           \<Longrightarrow> copy_entries k s src dest es \<noteq> None"
proof (induction es arbitrary: s)
  case Nil
  show ?case by simp
next
  case (Cons e rest)
  let ?sp = "snprintf_path PATH_MAX src e"
  let ?dp = "snprintf_path PATH_MAX dest e"
  show ?case
  proof (cases "e = ''.'' \<or> e = ''..''")
    case True
    then show ?thesis using Cons by (simp add: copy_entries_dot)
  next
    case False
    then have ne: "e \<noteq> ''.''" "e \<noteq> ''..''" by simp_all
    show ?thesis
    proof (cases "stat s ?sp")
      case (Inl er)
      show ?thesis
        unfolding copy_entries_stat_fails [OF ne Inl]
        by (rule Cons.IH) (use Cons.prems in simp_all)
    next
      case (Inr m)
      show ?thesis
      proof (cases "S_ISDIR m")
        case True
        let ?s0 = "log_err [Info (''Found directory: '' @ ?sp)] s"
        have short: "length ?sp < PATH_MAX - 1" using Cons.prems(1) Inr by (rule stat_ok_short)
        then have "?sp = src @ ''/'' @ e" by (rule snprintf_path_short)
        then have len: "length src < length ?sp" by simp
        have k: "0 < k" using short len Cons.prems(2) by simp
        have "PATH_MAX \<le> k + length ?sp" using len Cons.prems(2) by simp
        then have "copy_directory k ?s0 ?sp ?dp \<noteq> None"
          using Cons.prems(1) k by (intro dir [of ?s0 ?sp ?dp]) simp_all
        then obtain s1 where c: "copy_directory k ?s0 ?sp ?dp = Some s1" by auto
        have "long_paths_fail ?s0" using Cons.prems(1) by simp
        then have "long_paths_fail s1"
          by (rule long_paths_fail_grows [OF copy_directory_grows [OF c]])
        then have "copy_entries k s1 src dest rest \<noteq> None"
          using Cons.prems(2) by (rule Cons.IH)
        then show ?thesis unfolding copy_entries_dir [OF ne Inr True] c by simp
      next
        case nd: False
        show ?thesis
        proof (cases "S_ISREG m")
          case True
          let ?s1 = "copy_file (log_err [Info (''Found file: '' @ ?sp)] s) ?sp ?dp"
          have "long_paths_fail (log_err [Info (''Found file: '' @ ?sp)] s)"
            using Cons.prems(1) by simp
          then have "long_paths_fail ?s1"
            by (rule long_paths_fail_grows [OF copy_file_grows])
          then show ?thesis
            unfolding copy_entries_reg [OF ne Inr nd True] using Cons.prems(2) by (rule Cons.IH)
        next
          case False
          show ?thesis
            unfolding copy_entries_other [OF ne Inr nd False]
            by (rule Cons.IH) (use Cons.prems in simp_all)
        qed
      qed
    qed
  qed
qed

lemma copy_directory_total:
  "long_paths_fail s \<Longrightarrow> 0 < k \<Longrightarrow> PATH_MAX \<le> k + length src
     \<Longrightarrow> copy_directory k s src dest \<noteq> None"
proof (induction k arbitrary: s src dest)
  case 0
  then show ?case by simp
next
  case (Suc k)
  have ent: "\<And>s es. long_paths_fail s \<Longrightarrow> copy_entries k s src dest es \<noteq> None"
    by (rule copy_entries_total_aux [where src = src]) (use Suc in simp_all)
  show ?case
  proof (cases "opendir s src")
    case (Inl e)
    then show ?thesis by (simp add: copy_directory_opendir_fails)
  next
    case (Inr es)
    show ?thesis
    proof (cases "mkdir s dest 493")
      case mk: (Inl e)
      show ?thesis
      proof (cases "e = EEXIST")
        case True
        have "copy_entries k (log_err [Info (''Opened source directory: '' @ src),
                 Info (''Destination directory created or already exists: '' @ dest)] s) src dest es \<noteq> None"
          by (rule ent) (use Suc.prems in simp)
        then show ?thesis
          unfolding copy_directory_exists [OF Inr mk [unfolded True]] by (auto split: option.splits)
      next
        case False
        then show ?thesis by (simp add: copy_directory_mkdir_fails [OF Inr mk])
      qed
    next
      case mk: (Inr s2)
      have "long_paths_fail s2" using grows_mkdir [OF mk] Suc.prems(1) by (rule long_paths_fail_grows)
      then have "copy_entries k (log_err [Info (''Opened source directory: '' @ src),
                 Info (''Destination directory created or already exists: '' @ dest)] s2) src dest es \<noteq> None"
        by (intro ent [of "log_err [Info (''Opened source directory: '' @ src),
                 Info (''Destination directory created or already exists: '' @ dest)] s2" es]) simp
      then show ?thesis
        unfolding copy_directory_created [OF Inr mk] by (auto split: option.splits)
    qed
  qed
qed

subsection \<open>The loop comes to every entry\<close>

lemma grows_stderr: "grows s s' \<Longrightarrow> \<exists>l. stderr s' = stderr s @ l"
  by (simp add: grows_def)

lemma visited_append: "visited l p \<or> visited l' p \<Longrightarrow> visited (l @ l') p"
  by (auto simp: visited_def)

lemma copy_entries_visits:
  "copy_entries k s src dest es = Some s' \<Longrightarrow>
     \<exists>l. stderr s' = stderr s @ l
        \<and> (\<forall>e \<in> set es. e \<noteq> ''.'' \<and> e \<noteq> ''..'' \<longrightarrow> visited l (snprintf_path PATH_MAX src e))"
proof (induction es arbitrary: s)
  case Nil
  then show ?case by simp
next
  case (Cons e rest)
  let ?sp = "snprintf_path PATH_MAX src e"
  let ?dp = "snprintf_path PATH_MAX dest e"
  have step: "\<exists>l. stderr s' = stderr s @ l
        \<and> (\<forall>x \<in> set (e # rest). x \<noteq> ''.'' \<and> x \<noteq> ''..'' \<longrightarrow> visited l (snprintf_path PATH_MAX src x))"
    if r: "copy_entries k s1 src dest rest = Some s'" and l1: "stderr s1 = stderr s @ l1"
      and v: "visited l1 ?sp" for s1 l1
  proof -
    from Cons.IH [OF r] obtain l2 where l2: "stderr s' = stderr s1 @ l2"
      and v2: "\<forall>x \<in> set rest. x \<noteq> ''.'' \<and> x \<noteq> ''..'' \<longrightarrow> visited l2 (snprintf_path PATH_MAX src x)"
      by blast
    have "stderr s' = stderr s @ (l1 @ l2)" using l1 l2 by simp
    moreover have "\<forall>x \<in> set (e # rest). x \<noteq> ''.'' \<and> x \<noteq> ''..''
        \<longrightarrow> visited (l1 @ l2) (snprintf_path PATH_MAX src x)"
      using v v2 by (auto intro: visited_append)
    ultimately show ?thesis by blast
  qed
  show ?case
  proof (cases "e = ''.'' \<or> e = ''..''")
    case True
    then have "copy_entries k s src dest rest = Some s'" using Cons.prems by (simp add: copy_entries_dot)
    from Cons.IH [OF this] show ?thesis using True by auto
  next
    case False
    then have ne: "e \<noteq> ''.''" "e \<noteq> ''..''" by simp_all
    show ?thesis
    proof (cases "stat s ?sp")
      case (Inl er)
      show ?thesis
      proof (rule step [OF Cons.prems [unfolded copy_entries_stat_fails [OF ne Inl]]])
        show "stderr (log_err [Perror ''Failed to retrieve file metadata'' er,
                       Warning (''Could not stat entry: '' @ ?sp)] s)
            = stderr s @ [Perror ''Failed to retrieve file metadata'' er,
                       Warning (''Could not stat entry: '' @ ?sp)]" by simp
        show "visited [Perror ''Failed to retrieve file metadata'' er,
                       Warning (''Could not stat entry: '' @ ?sp)] ?sp"
          unfolding visited_def by (intro disjI2) simp
      qed
    next
      case (Inr m)
      show ?thesis
      proof (cases "S_ISDIR m")
        case True
        let ?s0 = "log_err [Info (''Found directory: '' @ ?sp)] s"
        from Cons.prems obtain s1 where c: "copy_directory k ?s0 ?sp ?dp = Some s1"
          and r: "copy_entries k s1 src dest rest = Some s'"
          unfolding copy_entries_dir [OF ne Inr True] by (auto split: option.splits)
        obtain l' where "stderr s1 = stderr ?s0 @ l'"
          using grows_stderr [OF copy_directory_grows [OF c]] by blast
        then have "stderr s1 = stderr s @ (Info (''Found directory: '' @ ?sp) # l')" by simp
        moreover have "visited (Info (''Found directory: '' @ ?sp) # l') ?sp"
          unfolding visited_def by (intro disjI1) simp
        ultimately show ?thesis by (rule step [OF r])
      next
        case nd: False
        show ?thesis
        proof (cases "S_ISREG m")
          case True
          let ?s0 = "log_err [Info (''Found file: '' @ ?sp)] s"
          obtain l' where "stderr (copy_file ?s0 ?sp ?dp) = stderr ?s0 @ l'"
            using grows_stderr [OF copy_file_grows] by blast
          then have "stderr (copy_file ?s0 ?sp ?dp) = stderr s @ (Info (''Found file: '' @ ?sp) # l')"
            by simp
          moreover have "visited (Info (''Found file: '' @ ?sp) # l') ?sp"
            unfolding visited_def by (intro disjI2 disjI1) simp
          ultimately show ?thesis
            by (rule step [OF Cons.prems [unfolded copy_entries_reg [OF ne Inr nd True]]])
        next
          case False
          show ?thesis
          proof (rule step [OF Cons.prems [unfolded copy_entries_other [OF ne Inr nd False]]])
            show "stderr (log_err [Warning (''Skipped unknown entry type: '' @ ?sp)] s)
                = stderr s @ [Warning (''Skipped unknown entry type: '' @ ?sp)]" by simp
            show "visited [Warning (''Skipped unknown entry type: '' @ ?sp)] ?sp"
              unfolding visited_def by (intro disjI2 disjI1) simp
          qed
        qed
      qed
    qed
  qed
qed

lemma visited_mid: "visited l p \<Longrightarrow> visited (a @ l @ b) p"
  by (auto simp: visited_def)

lemma copy_directory_visits:
  assumes "opendir s src = Inr es" and "\<forall>e. mkdir s dest 493 = Inl e \<longrightarrow> e = EEXIST"
    and "long_paths_fail s" and "PATH_MAX \<le> Suc k + length src"
  shows "\<exists>s' l. copy_directory (Suc k) s src dest = Some s' \<and> stderr s' = stderr s @ l
           \<and> (\<forall>e \<in> set es. e \<noteq> ''.'' \<and> e \<noteq> ''..'' \<longrightarrow> visited l (snprintf_path PATH_MAX src e))"
proof -
  let ?m = "[Info (''Opened source directory: '' @ src),
             Info (''Destination directory created or already exists: '' @ dest)]"
  let ?f = "[Info (''Finished processing directory: '' @ src)]"
  have "copy_directory (Suc k) s src dest \<noteq> None"
    using assms(3) _ assms(4) by (rule copy_directory_total) simp
  then obtain s' where c: "copy_directory (Suc k) s src dest = Some s'" by auto
  have "\<exists>s2. grows s s2 \<and> copy_directory (Suc k) s src dest =
           (case copy_entries k (log_err ?m s2) src dest es of
              None \<Rightarrow> None
            | Some s3 \<Rightarrow> Some (log_err ?f s3))"
  proof (cases "mkdir s dest 493")
    case (Inl e)
    then have mk: "mkdir s dest 493 = Inl EEXIST" using assms(2) by simp
    show ?thesis
      by (rule exI [of _ s]) (simp add: copy_directory_exists [OF assms(1) mk])
  next
    case (Inr s2)
    show ?thesis
      by (rule exI [of _ s2]) (simp add: copy_directory_created [OF assms(1) Inr] grows_mkdir [OF Inr])
  qed
  then obtain s2 where g2: "grows s s2"
    and e: "copy_directory (Suc k) s src dest =
           (case copy_entries k (log_err ?m s2) src dest es of
              None \<Rightarrow> None
            | Some s3 \<Rightarrow> Some (log_err ?f s3))"
    by (elim exE conjE)
  have "\<exists>s3. copy_entries k (log_err ?m s2) src dest es = Some s3 \<and> s' = log_err ?f s3"
    using c unfolding e by (cases "copy_entries k (log_err ?m s2) src dest es") simp_all
  then obtain s3 where c3: "copy_entries k (log_err ?m s2) src dest es = Some s3"
    and s': "s' = log_err ?f s3"
    by (elim exE conjE)
  from copy_entries_visits [OF c3] obtain l where l: "stderr s3 = stderr (log_err ?m s2) @ l"
    and v: "\<forall>e \<in> set es. e \<noteq> ''.'' \<and> e \<noteq> ''..'' \<longrightarrow> visited l (snprintf_path PATH_MAX src e)"
    by (elim exE conjE)
  obtain l0 where l0: "stderr s2 = stderr s @ l0" using grows_stderr [OF g2] by (elim exE)
  have st: "stderr s' = stderr s @ ((l0 @ ?m) @ l @ ?f)"
    unfolding s' using l l0 by simp
  have vs: "\<forall>e \<in> set es. e \<noteq> ''.'' \<and> e \<noteq> ''..''
      \<longrightarrow> visited ((l0 @ ?m) @ l @ ?f) (snprintf_path PATH_MAX src e)"
  proof (intro ballI impI)
    fix e assume "e \<in> set es" and "e \<noteq> ''.'' \<and> e \<noteq> ''..''"
    then have "visited l (snprintf_path PATH_MAX src e)" using v by simp
    then show "visited ((l0 @ ?m) @ l @ ?f) (snprintf_path PATH_MAX src e)"
      by (rule visited_mid)
  qed
  show ?thesis
    by (rule exI [of _ s'], rule exI [of _ "(l0 @ ?m) @ l @ ?f"]) (intro conjI c st vs)
qed

subsection \<open>What one iteration does to the entry\<close>





subsection \<open>A run into an existing backup directory\<close>

lemma create_timestamped_dir_fits:
  assumes "localtime s = Some t" and "tm_in_range t" and "length base_path + 1 + 26 < PATH_MAX"
  shows "create_timestamped_dir s base_path = (Inr (base_path @ ''/'' @ spec_backup_name t), s)"
proof -
  have "timestamp_text t = spec_backup_name t" using assms(2) by (rule timestamp_text_spec)
  then show ?thesis
    using assms(1,3) length_spec_backup_name [of t]
    by (simp add: create_timestamped_dir_def strftime_def snprintf_len_def snprintf_path_fits)
qed

lemma main_collision:
  assumes "fst (getopt args) = []" and "snd (getopt args) = source_dir # operands"
    and "length source_dir < PATH_MAX" and "stat s source_dir = Inr m" and "S_ISDIR m"
    and "localtime s = Some t" and "tm_in_range t"
    and "length (fst (read_default_backup_dir s)) + 1 + 26 < PATH_MAX"
    and "files s (fst (read_default_backup_dir s) @ ''/'' @ spec_backup_name t) \<noteq> None"
  shows "\<exists>s'. main depth s prog args = Some (EXIT_FAILURE, s')
           \<and> files s' = files s \<and> stdout s' = stdout s
           \<and> last (stderr s') = Perror ''Failed to create backup directory'' EEXIST"
proof -
  let ?s1 = "log_err [Debug ''Reading default backup directory.'']
               (log_err [Debug ''Starting backup tool.''] s)"
  obtain target s2 where r: "read_default_backup_dir ?s1 = (target, s2)"
    by (cases "read_default_backup_dir ?s1")
  have t: "target = fst (read_default_backup_dir s)"
    using read_default_backup_dir_cong [of ?s1 s] r by simp
  have g: "grows ?s1 s2" using read_default_backup_dir_grows [of ?s1] r by simp
  have f: "files s2 = files s" using read_default_backup_dir_files(1) [of ?s1] r by simp
  have o: "stdout s2 = stdout s" using read_default_backup_dir_files(2) [of ?s1] r by simp
  have rf: "refuse s2 = refuse s" using grows_refuse [OF g] by simp
  have lt: "localtime s2 = Some t" using g assms(6) by (simp add: grows_def)
  let ?s3 = "log_err [Debug (''Validating source directory: '' @ source_dir)] s2"
  let ?s4 = "log_err [Debug (''Creating timestamped backup directory in: '' @ target)] ?s3"
  have st: "stat ?s3 source_dir = Inr m" using stat_cong [OF f rf] assms(4) by simp
  have c: "create_timestamped_dir ?s4 target = (Inr (target @ ''/'' @ spec_backup_name t), ?s4)"
    using lt assms(7,8) t by (intro create_timestamped_dir_fits) simp_all
  have mk: "mkdir ?s4 (target @ ''/'' @ spec_backup_name t) 493 = Inl EEXIST"
    using assms(9) f t by (intro mkdir_exists) simp
  have "main depth s prog args =
          Some (EXIT_FAILURE, log_err [Perror ''Failed to create backup directory'' EEXIST] ?s4)"
    unfolding main_def Let_def
    using assms(1,2,3,5) r st c mk by (simp del: mkdir_log_err stat_log_err)
  then show ?thesis using f o by simp
qed

subsection \<open>The source directory of the example world\<close>






lemma ex_world_long_paths_fail: "long_paths_fail ex_world"
  by (simp add: long_paths_fail_def ex_world_def)

subsection \<open>A second run in the same second\<close>

lemma getopt_src: "getopt [''/src''] = ([], [''/src''])"
  by (simp add: getopt.simps)

lemma ex_collision_src:
  shows "stat ex_collision ''/src'' = Inr (S_IFDIR + 493 mod 4096)"
    and "S_ISDIR (S_IFDIR + 493 mod 4096)"
proof -
  have a: "\<not> refuse ex_collision SysStat ''/src''"
    by (simp add: ex_collision_def ex_world_def PATH_MAX_def)
  have b: "resolve ex_collision ''/src'' = Inr ''/src''"
    by (simp add: resolve_def follow.simps SYMLOOP_MAX_def ex_collision_def ex_world_def)
  have c: "files ex_collision ''/src'' =
             Some (Dir 493 [''.'', ''..'', ''a.txt'', ''secret'', ''link'', ''pipe'', ''sub''])"
    by (simp add: ex_collision_def ex_world_def)
  show "stat ex_collision ''/src'' = Inr (S_IFDIR + 493 mod 4096)"
    by (rule stat_Dir(1) [OF a b c])
  show "S_ISDIR (S_IFDIR + 493 mod 4096)"
    by (rule stat_Dir(2) [OF a b c])
qed

lemma ex_collision_default: "fst (read_default_backup_dir ex_collision) = ''/media/pi/piBackup''"
  by (simp add: eval_calls eval_config ex_collision_def ex_world_def)

lemma ex_collision_misc:
  "localtime ex_collision = Some \<lparr>tm_year = 124, tm_mon = 0, tm_mday = 2, tm_hour = 3, tm_min = 4, tm_sec = 5\<rparr>"
  "files ex_collision ''/media/pi/piBackup/Backup 2024-01-02 03-04-05'' = Some (Dir 493 [''.'', ''..''])"
  "files ex_collision ''/media/pi/piBackup/Backup 2024-01-02 03-04-05/a.txt'' = None"
  "files ex_collision ''/src/a.txt'' = Some (Reg 420 ''hello'')"
  "long_paths_fail ex_collision"
  by (simp_all add: ex_collision_def ex_world_def long_paths_fail_def)

lemma ex_collision_calls:
  "opendir ex_collision ''/src'' = Inr [''.'', ''..'', ''a.txt'', ''secret'', ''link'', ''pipe'', ''sub'']"
  "mkdir ex_collision ''/media/pi/piBackup/Backup 2024-01-02 03-04-05'' 493 = Inl EEXIST"
  by (simp_all add: opendir_def mkdir_def resolve_def follow.simps SYMLOOP_MAX_def ex_collision_def ex_world_def)

subsection \<open>The entries of the example worlds\<close>






subsection \<open>A write that is cut short when the stream is closed\<close>

lemma ex_full_copy:
  "\<exists>s'. copy_directory 1 ex_full ''/src/sub'' ''/media/pi/usb/sub'' = Some s'
     \<and> stderr s' =
       [Info ''Opened source directory: /src/sub'',
        Info ''Destination directory created or already exists: /media/pi/usb/sub'',
        Info ''Found file: /src/sub/b'',
        Info ''Opened source file: /src/sub/b'',
        Info ''Created destination file: /media/pi/usb/sub/b'',
        Info ''File copy completed: /src/sub/b -> /media/pi/usb/sub/b'',
        Info ''Permissions set successfully for: /media/pi/usb/sub/b'',
        Info ''Finished processing directory: /src/sub'']
     \<and> files s' ''/media/pi/usb/sub/b'' = Some (Reg 292 [])"
  by (simp add: copy_directory.simps copy_entries.simps copy_file_def copy_loop.simps fwrite_def
      fclose_def stream_of_def st_blksize_def eval_calls st_mode_of.simps S_ISDIR_def S_ISREG_def
      S_IFREG_def S_IFDIR_def ex_full_def ex_world_def)

subsection \<open>A directory whose path fills the buffer\<close>

lemma length_deep_dir: "length (deep_dir c) = 4095"
  by (simp add: deep_dir_def length_concat sum_list_replicate)

lemma deep_dir_entry: "snprintf_path PATH_MAX (deep_dir c) ''x'' = deep_dir c"
  by (simp add: snprintf_path_def PATH_MAX_def length_deep_dir)

lemma deep_world_calls:
  assumes "files s = files deep_world" and "refuse s = refuse deep_world"
  shows "opendir s (deep_dir CHR ''s'') = Inr [''.'', ''..'', ''x'']"
    and "mkdir s (deep_dir CHR ''d'') 493 = Inl EEXIST"
    and "stat s (deep_dir CHR ''s'') = Inr (S_IFDIR + 493 mod 4096)"
  using assms
  by (simp_all add: opendir_def mkdir_def stat_def resolve_def follow.simps SYMLOOP_MAX_def
        deep_world_def PATH_MAX_def length_deep_dir S_IFDIR_def)

text \<open>The path built for the entry is cut to the path of the directory itself, which
  \<^verbatim>\<open>stat\<close> reports as a directory: \<open>copy_directory\<close> calls itself with the arguments it
  has, at every depth.\<close>

lemma copy_directory_deep:
  "files s = files deep_world \<Longrightarrow> refuse s = refuse deep_world
     \<Longrightarrow> copy_directory k s (deep_dir CHR ''s'') (deep_dir CHR ''d'') = None"
proof (induction k arbitrary: s)
  case 0
  show ?case by (simp add: copy_directory.simps)
next
  case (Suc k)
  let ?S = "deep_dir CHR ''s''"
  let ?D = "deep_dir CHR ''d''"
  let ?s1 = "log_err [Info (''Opened source directory: '' @ ?S),
                      Info (''Destination directory created or already exists: '' @ ?D)] s"
  let ?s2 = "log_err [Info (''Found directory: '' @ snprintf_path PATH_MAX ?S ''x'')] ?s1"
  have f1: "files ?s1 = files deep_world" "refuse ?s1 = refuse deep_world"
    using Suc.prems by simp_all
  have f2: "files ?s2 = files deep_world" "refuse ?s2 = refuse deep_world"
    using Suc.prems by simp_all
  have st: "stat ?s1 (snprintf_path PATH_MAX ?S ''x'') = Inr (S_IFDIR + 493 mod 4096)"
    unfolding deep_dir_entry by (rule deep_world_calls(3) [OF f1])
  have d: "S_ISDIR (S_IFDIR + 493 mod 4096)" by (simp add: S_ISDIR_def S_IFDIR_def)
  have "copy_directory k ?s2 ?S ?D = None" by (rule Suc.IH [OF f2])
  then have rec: "copy_directory k ?s2 (snprintf_path PATH_MAX ?S ''x'') (snprintf_path PATH_MAX ?D ''x'') = None"
    by (simp only: deep_dir_entry)
  have nd: "''x'' \<noteq> ''.''" "''x'' \<noteq> ''..''" by simp_all
  have x: "copy_entries k ?s1 ?S ?D [''x''] = None"
    unfolding copy_entries_dir [OF nd st d] rec option.case ..
  have "copy_entries k ?s1 ?S ?D [''.'', ''..'', ''x''] = copy_entries k ?s1 ?S ?D [''..'', ''x'']"
    by (rule copy_entries_dot) simp
  also have "\<dots> = copy_entries k ?s1 ?S ?D [''x'']"
    by (rule copy_entries_dot) simp
  finally have e: "copy_entries k ?s1 ?S ?D [''.'', ''..'', ''x''] = None"
    by (simp only: x)
  show ?case
    unfolding copy_directory_exists [OF deep_world_calls(1,2) [OF Suc.prems]] e option.case ..
qed

lemma copy_directory_deep_world:
  "copy_directory k deep_world (deep_dir CHR ''s'') (deep_dir CHR ''d'') = None"
  by (rule copy_directory_deep) (rule refl)+

section \<open>The claims\<close>

text \<open>
  C10. When \<open>copy_file\<close> cannot open the source for reading it returns at once: the
  file system is the one it started with, so the destination has been neither created nor
  truncated nor written, and the two lines of the error are all that was added to the log.
\<close>

theorem copy_file_source_unopened:
  assumes "fopen_rb s src = Inl e"
  shows "files (copy_file s src dest) = files s
       \<and> stderr (copy_file s src dest) =
           stderr s @ [Perror ''Failed to open source file'' e,
                       Error (''Could not open source file: '' @ src)]"
  using assms by (simp add: copy_file_def)

theorem copy_file_source_unopened_witness:
  "fopen_rb ex_world ''/src/secret'' = Inl EACCES
   \<and> files (copy_file ex_world ''/src/secret'' ''/d/secret'') = files ex_world
   \<and> stderr (copy_file ex_world ''/src/secret'' ''/d/secret'') =
       stderr ex_world @ [Perror ''Failed to open source file'' EACCES,
                          Error (''Could not open source file: '' @ ''/src/secret'')]"
proof -
  have h: "fopen_rb ex_world ''/src/secret'' = Inl EACCES"
    by (simp add: fopen_rb_def ex_world_def)
  show ?thesis
    using h copy_file_source_unopened [OF h, of "''/d/secret''"] by simp
qed

text \<open>
  C5. \<open>read_default_backup_dir\<close> returns the path the configuration file holds: the
  text of its first line, whether or not a newline ends it. When the file cannot be opened
  (it is absent, or the program may not read it) the result is the built-in default
  \<^verbatim>\<open>/media/pi/piBackup\<close>; the function returns all the same, its last line of log is
  the warning, and the file system is as before.
\<close>

theorem read_default_backup_dir_result:
  "(\<forall>q p rest. fopen_rb s (config_path_of s) = Inr q \<and> file_data s q = p @ rest \<and> line_text p
        \<and> ((rest = [] \<and> p \<noteq> []) \<or> (\<exists>r. rest = CHR ''\<newline>'' # r))
      \<longrightarrow> fst (read_default_backup_dir s) = p)
   \<and> (\<forall>e. fopen_rb s (config_path_of s) = Inl e
      \<longrightarrow> fst (read_default_backup_dir s) = ''/media/pi/piBackup''
        \<and> stderr (snd (read_default_backup_dir s)) =
            stderr s @ [Debug (''Reading config file: '' @ config_path_of s),
                        Warning ''Config file not found or empty. Using default target directory.''])
   \<and> files (snd (read_default_backup_dir s)) = files s"
proof (intro conjI allI impI)
  fix q p rest
  assume a: "fopen_rb s (config_path_of s) = Inr q \<and> file_data s q = p @ rest \<and> line_text p
        \<and> ((rest = [] \<and> p \<noteq> []) \<or> (\<exists>r. rest = CHR ''\<newline>'' # r))"
  then obtain line where "fgets PATH_MAX (p @ rest) = Some line"
    "c_str (take (strcspn line CHR ''\<newline>'') line) = p"
    using fgets_line [of p rest] by blast
  then show "fst (read_default_backup_dir s) = p"
    using a by (simp add: read_default_backup_dir_def Let_def)
next
  fix e assume "fopen_rb s (config_path_of s) = Inl e"
  then show "fst (read_default_backup_dir s) = ''/media/pi/piBackup''"
    and "stderr (snd (read_default_backup_dir s)) =
            stderr s @ [Debug (''Reading config file: '' @ config_path_of s),
                        Warning ''Config file not found or empty. Using default target directory.'']"
    by (simp_all add: read_default_backup_dir_def Let_def DEFAULT_TARGET_DIR_def)
next
  show "files (snd (read_default_backup_dir s)) = files s" by simp
qed

theorem read_default_backup_dir_result_witness:
  "(fopen_rb ex_config (config_path_of ex_config) = Inr ''/home/pi/.config/backup_tool.conf''
      \<and> file_data ex_config ''/home/pi/.config/backup_tool.conf'' = ''/media/pi/usb'' @ [CHR ''\<newline>'']
      \<and> line_text ''/media/pi/usb''
      \<and> fst (read_default_backup_dir ex_config) = ''/media/pi/usb'')
   \<and> (fopen_rb ex_world (config_path_of ex_world) = Inl ENOENT
      \<and> fst (read_default_backup_dir ex_world) = ''/media/pi/piBackup''
      \<and> stderr (snd (read_default_backup_dir ex_world)) =
            [Debug ''Reading config file: /home/pi/.config/backup_tool.conf'',
             Warning ''Config file not found or empty. Using default target directory.''])"
proof -
  have c: "config_path_of ex_config = ''/home/pi/.config/backup_tool.conf''"
    by (simp add: config_path_of_def CONFIG_FILE_PATH_def PATH_MAX_def ex_config_def ex_world_def)
  have o: "fopen_rb ex_config (config_path_of ex_config) = Inr ''/home/pi/.config/backup_tool.conf''"
    unfolding c by (simp add: fopen_rb_def resolve_def follow.simps ex_config_def ex_world_def)
  have d: "file_data ex_config ''/home/pi/.config/backup_tool.conf'' = ''/media/pi/usb'' @ [CHR ''\<newline>'']"
    by (simp add: file_data_def ex_config_def)
  have l: "line_text ''/media/pi/usb''"
    by (simp add: line_text_def PATH_MAX_def)
  have w: "fopen_rb ex_world (config_path_of ex_world) = Inl ENOENT"
    by (simp add: ex_world_config_path ex_world_no_config)
  have e: "stderr ex_world = []" by (simp add: ex_world_def)
  from read_default_backup_dir_result [of ex_config] o d l
  have 1: "fst (read_default_backup_dir ex_config) = ''/media/pi/usb''" by blast
  from read_default_backup_dir_result [of ex_world] w
  have 2: "fst (read_default_backup_dir ex_world) = ''/media/pi/piBackup''
      \<and> stderr (snd (read_default_backup_dir ex_world)) =
            stderr ex_world @ [Debug (''Reading config file: '' @ config_path_of ex_world),
                        Warning ''Config file not found or empty. Using default target directory.'']"
    by blast
  show ?thesis using o d l w 1 2 e by (simp add: ex_world_config_path)
qed

text \<open>
  C9. A run without \<^verbatim>\<open>-t\<close> and without a source directory (\<^verbatim>\<open>getopt\<close> finds no
  option and leaves no operand) ends with the status \<open>EXIT_FAILURE\<close>, which is not
  zero, after the usage line has been written to the standard error stream. The file
  system is the one the run started with: no backup directory has been created, nothing
  has been copied; nothing was written to the standard output.
\<close>

theorem main_missing_source_dir:
  assumes "fst (getopt args) = []" and "snd (getopt args) = []"
  shows "\<exists>s'. main depth s prog args = Some (EXIT_FAILURE, s')
            \<and> EXIT_FAILURE \<noteq> 0
            \<and> files s' = files s
            \<and> stdout s' = stdout s
            \<and> last (stderr s') = Plain (''Usage: '' @ prog @ '' [-t target_dir] source_dir'')"
proof -
  obtain td s2 where r: "read_default_backup_dir
      (log_err [Debug ''Reading default backup directory.'']
         (log_err [Debug ''Starting backup tool.''] s)) = (td, s2)"
    by (cases "read_default_backup_dir
      (log_err [Debug ''Reading default backup directory.'']
         (log_err [Debug ''Starting backup tool.''] s))") 
  have f: "files s2 = files s" "stdout s2 = stdout s"
    using read_default_backup_dir_files [of "log_err [Debug ''Reading default backup directory.'']
         (log_err [Debug ''Starting backup tool.''] s)"] r by simp_all
  show ?thesis
    using assms r f by (simp add: main_def EXIT_FAILURE_def)
qed

theorem main_missing_source_dir_witness:
  "fst (getopt []) = [] \<and> snd (getopt []) = []
   \<and> (\<exists>s'. main 0 ex_world ''backup'' [] = Some (EXIT_FAILURE, s')
            \<and> EXIT_FAILURE \<noteq> 0
            \<and> files s' = files ex_world
            \<and> stdout s' = stdout ex_world
            \<and> last (stderr s') = Plain (''Usage: '' @ ''backup'' @ '' [-t target_dir] source_dir''))"
  using main_missing_source_dir [of "[]" 0 ex_world "''backup''"] by (simp add: getopt_Nil)

text \<open>
  C7. When one of the \<^verbatim>\<open>-t\<close> options of the command line names a target that
  \<^verbatim>\<open>realpath\<close> does not resolve, the run ends with the status \<open>EXIT_FAILURE\<close>,
  which is not zero, and with the file system it started with; the configuration file is
  therefore untouched, and \<open>read_default_backup_dir\<close> reads the same default after the
  run as before it.
\<close>

theorem main_invalid_target:
  assumes "OptT optarg \<in> set (fst (getopt args))" and "realpath_of s optarg = None"
  shows "\<exists>s'. main depth s prog args = Some (EXIT_FAILURE, s')
            \<and> EXIT_FAILURE \<noteq> 0
            \<and> files s' = files s
            \<and> fst (read_default_backup_dir s') = fst (read_default_backup_dir s)"
proof -
  obtain s' where m: "main_options (log_err [Debug ''Starting backup tool.''] s) prog (fst (getopt args))
       DEFAULT_TARGET_DIR False = (Inl EXIT_FAILURE, s')" and f: "files s' = files s"
       and g: "grows (log_err [Debug ''Starting backup tool.''] s) s'"
    using main_options_invalid_target [OF assms(1), of "log_err [Debug ''Starting backup tool.''] s" prog
      DEFAULT_TARGET_DIR False] assms(2) by auto
  from g have "refuse s' = refuse s" "homedir s' = homedir s"
    by (simp_all add: grows_def)
  with f have "fst (read_default_backup_dir s') = fst (read_default_backup_dir s)"
    by (intro read_default_backup_dir_cong)
  with m f show ?thesis by (simp add: main_def EXIT_FAILURE_def)
qed

theorem main_invalid_target_witness:
  "OptT ''/nowhere'' \<in> set (fst (getopt [''-t'', ''/nowhere'']))
   \<and> realpath_of ex_world ''/nowhere'' = None
   \<and> (\<exists>s'. main 0 ex_world ''backup'' [''-t'', ''/nowhere''] = Some (EXIT_FAILURE, s')
            \<and> EXIT_FAILURE \<noteq> 0
            \<and> files s' = files ex_world
            \<and> fst (read_default_backup_dir s') = fst (read_default_backup_dir ex_world))"
proof -
  have a: "OptT ''/nowhere'' \<in> set (fst (getopt [''-t'', ''/nowhere'']))"
    by (simp add: getopt.simps)
  have b: "realpath_of ex_world ''/nowhere'' = None"
    by (simp add: ex_world_def)
  show ?thesis using a b main_invalid_target [OF a b, of 0 "''backup''"] by blast
qed

text \<open>
  C6. \<open>create_timestamped_dir\<close> computes its result from the base path and the local
  time alone. For a local time with a year of four digits the result is the base path,
  a slash and the name \<^verbatim>\<open>Backup YYYY-MM-DD HH-MM-SS\<close> of the specification, provided
  the path with its final NUL fits \<open>PATH_MAX\<close> bytes; when it does not fit, the
  process exits with \<open>EXIT_FAILURE\<close>, which is not zero. It exits in the same way when
  \<^verbatim>\<open>localtime_r\<close> gives no time and when \<^verbatim>\<open>strftime\<close> cannot put the name into its
  buffer of 30 bytes. The file system is not touched.
\<close>

theorem create_timestamped_dir_result:
  "(\<forall>t. localtime s = Some t \<and> tm_in_range t \<and> length base_path + 1 + 26 < PATH_MAX
      \<longrightarrow> fst (create_timestamped_dir s base_path) = Inr (base_path @ ''/'' @ spec_backup_name t))
   \<and> (\<forall>t. localtime s = Some t \<and> tm_in_range t \<and> PATH_MAX \<le> length base_path + 1 + 26
      \<longrightarrow> fst (create_timestamped_dir s base_path) = Inl EXIT_FAILURE)
   \<and> (\<forall>t. localtime s = Some t \<and> 30 \<le> length (timestamp_text t)
      \<longrightarrow> fst (create_timestamped_dir s base_path) = Inl EXIT_FAILURE)
   \<and> (localtime s = None \<longrightarrow> fst (create_timestamped_dir s base_path) = Inl EXIT_FAILURE)
   \<and> EXIT_FAILURE \<noteq> 0
   \<and> files (snd (create_timestamped_dir s base_path)) = files s"
proof (intro conjI allI impI)
  fix t assume a: "localtime s = Some t \<and> tm_in_range t \<and> length base_path + 1 + 26 < PATH_MAX"
  then have "timestamp_text t = spec_backup_name t" by (simp add: timestamp_text_spec)
  then show "fst (create_timestamped_dir s base_path) = Inr (base_path @ ''/'' @ spec_backup_name t)"
    using a length_spec_backup_name [of t]
    by (simp add: create_timestamped_dir_def strftime_def snprintf_len_def snprintf_path_fits)
next
  fix t assume a: "localtime s = Some t \<and> tm_in_range t \<and> PATH_MAX \<le> length base_path + 1 + 26"
  then have "timestamp_text t = spec_backup_name t" by (simp add: timestamp_text_spec)
  then show "fst (create_timestamped_dir s base_path) = Inl EXIT_FAILURE"
    using a length_spec_backup_name [of t]
    by (simp add: create_timestamped_dir_def strftime_def snprintf_len_def)
next
  fix t assume "localtime s = Some t \<and> 30 \<le> length (timestamp_text t)"
  then show "fst (create_timestamped_dir s base_path) = Inl EXIT_FAILURE"
    by (simp add: create_timestamped_dir_def strftime_def)
next
  assume "localtime s = None"
  then show "fst (create_timestamped_dir s base_path) = Inl EXIT_FAILURE"
    by (simp add: create_timestamped_dir_def)
next
  show "EXIT_FAILURE \<noteq> 0" by (simp add: EXIT_FAILURE_def)
next
  show "files (snd (create_timestamped_dir s base_path)) = files s"
    by (simp add: create_timestamped_dir_def split: option.splits)
qed

theorem create_timestamped_dir_result_witness:
  "fst (create_timestamped_dir ex_world ''/media/pi/piBackup'')
     = Inr ''/media/pi/piBackup/Backup 2024-01-02 03-04-05''
   \<and> tm_in_range \<lparr>tm_year = 124, tm_mon = 0, tm_mday = 2, tm_hour = 3, tm_min = 4, tm_sec = 5\<rparr>
   \<and> PATH_MAX \<le> length long_base + 1 + 26
   \<and> fst (create_timestamped_dir ex_world long_base) = Inl EXIT_FAILURE
   \<and> 30 \<le> length (timestamp_text far_future)
   \<and> fst (create_timestamped_dir (ex_world\<lparr>localtime := Some far_future\<rparr>) ''/media/pi/piBackup'')
       = Inl EXIT_FAILURE
   \<and> fst (create_timestamped_dir (ex_world\<lparr>localtime := None\<rparr>) ''/media/pi/piBackup'') = Inl EXIT_FAILURE"
proof -
  have 1: "fst (create_timestamped_dir ex_world ''/media/pi/piBackup'')
     = Inr ''/media/pi/piBackup/Backup 2024-01-02 03-04-05''"
    using create_timestamped_dir_result [of ex_world "''/media/pi/piBackup''"]
      ex_world_localtime ex_world_tm_in_range
    by (simp add: PATH_MAX_def ex_world_backup_name)
  have l: "PATH_MAX \<le> length long_base + 1 + 26"
    by (simp add: PATH_MAX_def long_base_def)
  have 2: "fst (create_timestamped_dir ex_world long_base) = Inl EXIT_FAILURE"
    using create_timestamped_dir_result [of ex_world long_base]
      ex_world_localtime ex_world_tm_in_range l by blast
  have 3: "fst (create_timestamped_dir (ex_world\<lparr>localtime := Some far_future\<rparr>) ''/media/pi/piBackup'')
       = Inl EXIT_FAILURE"
    using create_timestamped_dir_result [of "ex_world\<lparr>localtime := Some far_future\<rparr>" "''/media/pi/piBackup''"]
      far_future_text by simp
  have 4: "fst (create_timestamped_dir (ex_world\<lparr>localtime := None\<rparr>) ''/media/pi/piBackup'') = Inl EXIT_FAILURE"
    using create_timestamped_dir_result [of "ex_world\<lparr>localtime := None\<rparr>" "''/media/pi/piBackup''"]
    by simp
  show ?thesis using 1 2 3 4 l ex_world_tm_in_range far_future_text by simp
qed

text \<open>
  C8. A run whose options are \<^verbatim>\<open>-t\<close> options with targets that \<^verbatim>\<open>realpath\<close> resolves
  returns the status 0 and prints the confirmation with the canonical path of the last of
  them. It performs no backup: every directory of the final state was a directory before,
  the configuration directory apart, so no timestamped directory has been created; and
  every regular file of the final state was there before with the same contents, the
  configuration file apart, so nothing has been copied. When the configuration file can be
  opened for writing and the write is not cut short, it holds that canonical path
  afterwards.
\<close>

theorem main_sets_default_only:
  assumes "fst (getopt args) \<noteq> []"
    and "\<forall>x \<in> set (fst (getopt args)). \<exists>a. x = OptT a \<and> realpath_of s a \<noteq> None"
    and "last (fst (getopt args)) = OptT optarg" and "realpath_of s optarg = Some target"
  shows "\<exists>s'. main depth s prog args = Some (0, s')
          \<and> stdout s' = stdout s @ [Plain (''Updated default backup directory to: '' @ target)]
          \<and> (\<forall>p. is_dir s' p \<longrightarrow> is_dir s p \<or> p = dir_path_of (config_path_of s))
          \<and> (\<forall>p. is_reg s' p \<longrightarrow> files s' p = files s p \<or> resolve s (config_path_of s) = Inr p)
          \<and> (\<forall>q. config_file_opens s \<and> resolve s (config_path_of s) = Inr q \<and> wlimit s q = None
                \<longrightarrow> (\<exists>pm. files s' q = Some (Reg pm target)))"
proof -
  from main_sets_default [OF assms, of depth prog] obtain l where
    m: "main depth s prog args =
           Some (0, log_out [Plain (''Updated default backup directory to: '' @ target)]
                      (write_default_backup_dir (log_err l s) target))" ..
  let ?w = "write_default_backup_dir (log_err l s) target"
  have c: "config_path_of (log_err l s) = config_path_of s" by (simp add: config_path_of_def)
  have d: "\<forall>p. is_dir ?w p \<longrightarrow> is_dir s p \<or> p = dir_path_of (config_path_of s)"
    using write_default_backup_dir_is_dir [of "log_err l s" target] by (simp add: c)
  have r: "\<forall>p. is_reg ?w p \<longrightarrow> files ?w p = files s p \<or> resolve s (config_path_of s) = Inr p"
    using write_default_backup_dir_reg_frame [of "log_err l s" target] by (auto simp: c)
  have p: "\<forall>q. config_file_opens s \<and> resolve s (config_path_of s) = Inr q \<and> wlimit s q = None
                \<longrightarrow> (\<exists>pm. files ?w q = Some (Reg pm target))"
    using write_default_backup_dir_persists [of "log_err l s" _ target] by (simp add: c)
  show ?thesis using m d r p by simp
qed

text \<open>
  C4, as amended. Let the configuration file be one that can be opened for writing and
  for reading, with no limit on its size, and let the path to store be a line of text: not
  empty, without newline or NUL, shorter than \<open>PATH_MAX\<close>. Then
  \<open>read_default_backup_dir\<close> reads back the path \<open>write_default_backup_dir\<close> has
  stored; and after a run with \<^verbatim>\<open>-t\<close> whose last target has such a canonical path,
  \<open>read_default_backup_dir\<close>, with which a run without \<^verbatim>\<open>-t\<close> sets its base
  directory, returns that canonical path.
\<close>

theorem default_round_trip:
  assumes "config_file_opens s" and "resolve s (config_path_of s) = Inr q" and "wlimit s q = None"
    and "\<not> refuse s SysOpenRead (config_path_of s)" and "line_text target" and "target \<noteq> []"
  shows "fst (read_default_backup_dir (write_default_backup_dir s target)) = target
       \<and> (fst (getopt args) \<noteq> []
            \<and> (\<forall>x \<in> set (fst (getopt args)). \<exists>a. x = OptT a \<and> realpath_of s a \<noteq> None)
            \<and> last (fst (getopt args)) = OptT optarg \<and> realpath_of s optarg = Some target
          \<longrightarrow> (\<exists>s'. main depth s prog args = Some (0, s')
                  \<and> fst (read_default_backup_dir s') = target))"
proof (intro conjI impI)
  show "fst (read_default_backup_dir (write_default_backup_dir s target)) = target"
    using assms by (rule read_after_write)
next
  assume a: "fst (getopt args) \<noteq> []
            \<and> (\<forall>x \<in> set (fst (getopt args)). \<exists>a. x = OptT a \<and> realpath_of s a \<noteq> None)
            \<and> last (fst (getopt args)) = OptT optarg \<and> realpath_of s optarg = Some target"
  then obtain l where
    m: "main depth s prog args =
           Some (0, log_out [Plain (''Updated default backup directory to: '' @ target)]
                      (write_default_backup_dir (log_err l s) target))"
    using main_sets_default [of args s optarg target depth prog] by blast
  let ?w = "write_default_backup_dir (log_err l s) target"
  have c: "config_path_of (log_err l s) = config_path_of s" by (simp add: config_path_of_def)
  have "fst (read_default_backup_dir ?w) = target"
    using assms by (intro read_after_write [where q = q]) (simp_all add: c)
  moreover have "fst (read_default_backup_dir (log_out [Plain (''Updated default backup directory to: '' @ target)] ?w))
      = fst (read_default_backup_dir ?w)"
    by (rule read_default_backup_dir_cong) simp_all
  ultimately show "\<exists>s'. main depth s prog args = Some (0, s') \<and> fst (read_default_backup_dir s') = target"
    using m by simp
qed

theorem main_sets_default_only_witness:
  "fst (getopt [''-t'', ''/media/pi/../pi/usb'']) = [OptT ''/media/pi/../pi/usb'']
   \<and> realpath_of ex_world ''/media/pi/../pi/usb'' = Some ''/media/pi/usb''
   \<and> config_file_opens ex_world
   \<and> resolve ex_world (config_path_of ex_world) = Inr ''/home/pi/.config/backup_tool.conf''
   \<and> wlimit ex_world ''/home/pi/.config/backup_tool.conf'' = None
   \<and> (\<exists>s'. main 0 ex_world ''backup'' [''-t'', ''/media/pi/../pi/usb''] = Some (0, s')
          \<and> stdout s' = [Plain ''Updated default backup directory to: /media/pi/usb'']
          \<and> \<not> is_dir s' ''/media/pi/usb/Backup 2024-01-02 03-04-05''
          \<and> (\<exists>pm. files s' ''/home/pi/.config/backup_tool.conf'' = Some (Reg pm ''/media/pi/usb'')))"
proof -
  have g: "fst (getopt [''-t'', ''/media/pi/../pi/usb'']) = [OptT ''/media/pi/../pi/usb'']"
    by (simp add: getopt_t_usb)
  have r: "resolve ex_world (config_path_of ex_world) = Inr ''/home/pi/.config/backup_tool.conf''"
    by (simp add: ex_world_config_path ex_world_resolve_config)
  from main_sets_default_only [of "[''-t'', ''/media/pi/../pi/usb'']" ex_world
      "''/media/pi/../pi/usb''" "''/media/pi/usb''" 0 "''backup''"]
  obtain s' where m: "main 0 ex_world ''backup'' [''-t'', ''/media/pi/../pi/usb''] = Some (0, s')"
    and o: "stdout s' = stdout ex_world @ [Plain (''Updated default backup directory to: '' @ ''/media/pi/usb'')]"
    and d: "\<forall>p. is_dir s' p \<longrightarrow> is_dir ex_world p \<or> p = dir_path_of (config_path_of ex_world)"
    and p: "\<forall>q. config_file_opens ex_world \<and> resolve ex_world (config_path_of ex_world) = Inr q
                  \<and> wlimit ex_world q = None
                \<longrightarrow> (\<exists>pm. files s' q = Some (Reg pm ''/media/pi/usb''))"
    using g ex_world_realpath by auto
  have 1: "\<not> is_dir s' ''/media/pi/usb/Backup 2024-01-02 03-04-05''"
    using d ex_world_misc(4) by (auto simp: ex_world_config_path ex_world_misc(5))
  have 2: "\<exists>pm. files s' ''/home/pi/.config/backup_tool.conf'' = Some (Reg pm ''/media/pi/usb'')"
    using p r ex_world_config_file_opens ex_world_misc(1) by blast
  show ?thesis
    using g r ex_world_realpath ex_world_config_file_opens ex_world_misc(1,3) m o 1 2 by auto
qed

theorem default_round_trip_witness:
  "config_file_opens ex_world
   \<and> resolve ex_world (config_path_of ex_world) = Inr ''/home/pi/.config/backup_tool.conf''
   \<and> wlimit ex_world ''/home/pi/.config/backup_tool.conf'' = None
   \<and> \<not> refuse ex_world SysOpenRead (config_path_of ex_world)
   \<and> line_text ''/media/pi/usb''
   \<and> fst (getopt [''-t'', ''/media/pi/../pi/usb'']) = [OptT ''/media/pi/../pi/usb'']
   \<and> realpath_of ex_world ''/media/pi/../pi/usb'' = Some ''/media/pi/usb''
   \<and> fst (read_default_backup_dir (write_default_backup_dir ex_world ''/media/pi/usb'')) = ''/media/pi/usb''
   \<and> (\<exists>s'. main 0 ex_world ''backup'' [''-t'', ''/media/pi/../pi/usb''] = Some (0, s')
          \<and> fst (read_default_backup_dir s') = ''/media/pi/usb'')"
proof -
  have g: "fst (getopt [''-t'', ''/media/pi/../pi/usb'']) = [OptT ''/media/pi/../pi/usb'']"
    by (simp add: getopt_t_usb)
  have r: "resolve ex_world (config_path_of ex_world) = Inr ''/home/pi/.config/backup_tool.conf''"
    by (simp add: ex_world_config_path ex_world_resolve_config)
  have n: "\<not> refuse ex_world SysOpenRead (config_path_of ex_world)"
    by (simp add: ex_world_config_path ex_world_misc(2))
  have l: "line_text ''/media/pi/usb''" by (simp add: line_text_def PATH_MAX_def)
  have e: "''/media/pi/usb'' \<noteq> []" by simp
  note t = default_round_trip [OF ex_world_config_file_opens r ex_world_misc(1) n l e,
      of "[''-t'', ''/media/pi/../pi/usb'']" "''/media/pi/../pi/usb''" 0 "''backup''"]
  have 1: "fst (read_default_backup_dir (write_default_backup_dir ex_world ''/media/pi/usb'')) = ''/media/pi/usb''"
    using t by blast
  have 2: "\<exists>s'. main 0 ex_world ''backup'' [''-t'', ''/media/pi/../pi/usb''] = Some (0, s')
          \<and> fst (read_default_backup_dir s') = ''/media/pi/usb''"
    using t g ex_world_realpath by auto
  show ?thesis
    using ex_world_config_file_opens r ex_world_misc(1) n l g ex_world_realpath 1 2 by blast
qed

theorem default_round_trip_counterexample:
  "realpath_of ex_newline newline_dir = Some newline_dir
   \<and> is_dir ex_newline newline_dir
   \<and> map_option fst (main 0 ex_newline ''backup'' [''-t'', newline_dir]) = Some 0
   \<and> map_option (fst \<circ> read_default_backup_dir \<circ> snd) (main 0 ex_newline ''backup'' [''-t'', newline_dir])
       = Some ''/media/pi/usb''
   \<and> newline_dir \<noteq> ''/media/pi/usb''
   \<and> fst (read_default_backup_dir (write_default_backup_dir ex_newline newline_dir)) \<noteq> newline_dir"
proof -
  have rp: "realpath_of ex_newline newline_dir = Some newline_dir"
    by (simp add: ex_newline_def)
  have d: "is_dir ex_newline newline_dir"
    by (simp add: ex_newline_def is_dir_def)
  have ne: "newline_dir \<noteq> ''/media/pi/usb''" by (simp add: newline_dir_def)
  from main_sets_default_read [of "[''-t'', newline_dir]" ex_newline newline_dir newline_dir 0 "''backup''"]
  obtain s' where "main 0 ex_newline ''backup'' [''-t'', newline_dir] = Some (0, s')"
    "fst (read_default_backup_dir s')
       = fst (read_default_backup_dir (write_default_backup_dir ex_newline newline_dir))"
    using rp by (auto simp: getopt_t_newline)
  then show ?thesis using rp d ne by (simp add: ex_newline_read)
qed

text \<open>
  C3, as amended. When the timestamped directory of a run exists already, the
  \<^verbatim>\<open>mkdir\<close> of \<open>main\<close> fails with \<^verbatim>\<open>EEXIST\<close> and the run ends with the status
  \<open>EXIT_FAILURE\<close> before anything is copied: the collision is an error, the file system
  and the standard output are as before. It is \<open>copy_directory\<close> that tolerates a
  destination that exists: it goes on to copy the entries into it, and whatever it
  returns, every directory and every regular file that was there is still there.
\<close>

theorem main_collision_is_fatal:
  assumes "fst (getopt args) = []" and "snd (getopt args) = source_dir # operands"
    and "length source_dir < PATH_MAX" and "stat s source_dir = Inr m" and "S_ISDIR m"
    and "localtime s = Some t" and "tm_in_range t"
    and "length (fst (read_default_backup_dir s)) + 1 + 26 < PATH_MAX"
    and "files s (fst (read_default_backup_dir s) @ ''/'' @ spec_backup_name t) \<noteq> None"
  shows "(\<exists>s'. main depth s prog args = Some (EXIT_FAILURE, s')
           \<and> files s' = files s \<and> stdout s' = stdout s
           \<and> last (stderr s') = Perror ''Failed to create backup directory'' EEXIST)
       \<and> EXIT_FAILURE \<noteq> 0
       \<and> (\<forall>w src dest es. opendir w src = Inr es \<and> mkdir w dest 493 = Inl EEXIST \<longrightarrow>
             copy_directory (Suc k) w src dest =
               (case copy_entries k
                       (log_err [Info (''Opened source directory: '' @ src),
                                 Info (''Destination directory created or already exists: '' @ dest)] w)
                       src dest es of
                  None \<Rightarrow> None
                | Some s3 \<Rightarrow> Some (log_err [Info (''Finished processing directory: '' @ src)] s3)))
       \<and> (\<forall>w src dest w' p. copy_directory (Suc k) w src dest = Some w' \<longrightarrow>
             (is_dir w p \<longrightarrow> is_dir w' p) \<and> (is_reg w p \<longrightarrow> is_reg w' p))"
proof (intro conjI allI impI)
  show "\<exists>s'. main depth s prog args = Some (EXIT_FAILURE, s')
           \<and> files s' = files s \<and> stdout s' = stdout s
           \<and> last (stderr s') = Perror ''Failed to create backup directory'' EEXIST"
    using assms by (rule main_collision)
next
  show "EXIT_FAILURE \<noteq> 0" by (simp add: EXIT_FAILURE_def)
next
  fix w src dest es
  assume "opendir w src = Inr es \<and> mkdir w dest 493 = Inl EEXIST"
  then show "copy_directory (Suc k) w src dest =
               (case copy_entries k
                       (log_err [Info (''Opened source directory: '' @ src),
                                 Info (''Destination directory created or already exists: '' @ dest)] w)
                       src dest es of
                  None \<Rightarrow> None
                | Some s3 \<Rightarrow> Some (log_err [Info (''Finished processing directory: '' @ src)] s3))"
    by (simp add: copy_directory_exists)
next
  fix w src dest w' p
  assume c: "copy_directory (Suc k) w src dest = Some w'"
  { assume "is_dir w p" with copy_directory_grows [OF c] show "is_dir w' p" by (rule grows_is_dir) }
  { assume "is_reg w p" with copy_directory_grows [OF c] show "is_reg w' p" by (rule grows_is_reg) }
qed

theorem main_collision_is_fatal_witness:
  "fst (getopt [''/src'']) = [] \<and> snd (getopt [''/src'']) = [''/src'']
   \<and> stat ex_collision ''/src'' = Inr (S_IFDIR + 493 mod 4096) \<and> S_ISDIR (S_IFDIR + 493 mod 4096)
   \<and> fst (read_default_backup_dir ex_collision) = ''/media/pi/piBackup''
   \<and> files ex_collision ''/media/pi/piBackup/Backup 2024-01-02 03-04-05'' = Some (Dir 493 [''.'', ''..''])
   \<and> (\<exists>s'. main 4095 ex_collision ''backup'' [''/src''] = Some (EXIT_FAILURE, s')
          \<and> files s' = files ex_collision \<and> stdout s' = stdout ex_collision
          \<and> last (stderr s') = Perror ''Failed to create backup directory'' EEXIST)
   \<and> opendir ex_collision ''/src'' = Inr [''.'', ''..'', ''a.txt'', ''secret'', ''link'', ''pipe'', ''sub'']
   \<and> mkdir ex_collision ''/media/pi/piBackup/Backup 2024-01-02 03-04-05'' 493 = Inl EEXIST
   \<and> copy_directory (Suc 4094) ex_collision ''/src'' ''/media/pi/piBackup/Backup 2024-01-02 03-04-05'' =
       (case copy_entries 4094
               (log_err [Info (''Opened source directory: '' @ ''/src''),
                         Info (''Destination directory created or already exists: ''
                                 @ ''/media/pi/piBackup/Backup 2024-01-02 03-04-05'')] ex_collision)
               ''/src'' ''/media/pi/piBackup/Backup 2024-01-02 03-04-05''
               [''.'', ''..'', ''a.txt'', ''secret'', ''link'', ''pipe'', ''sub''] of
          None \<Rightarrow> None
        | Some s3 \<Rightarrow> Some (log_err [Info (''Finished processing directory: '' @ ''/src'')] s3))
   \<and> (\<exists>w'. copy_directory (Suc 4094) ex_collision ''/src'' ''/media/pi/piBackup/Backup 2024-01-02 03-04-05''
             = Some w'
          \<and> is_dir w' ''/media/pi/piBackup/Backup 2024-01-02 03-04-05'' \<and> is_reg w' ''/src/a.txt'')"
proof -
  let ?t = "\<lparr>tm_year = 124, tm_mon = 0, tm_mday = 2, tm_hour = 3, tm_min = 4, tm_sec = 5\<rparr>"
  let ?D = "''/media/pi/piBackup/Backup 2024-01-02 03-04-05''"
  have g: "fst (getopt [''/src'']) = []" "snd (getopt [''/src'']) = [''/src'']"
    by (simp_all add: getopt_src)
  have l: "length ''/src'' < PATH_MAX" by (simp add: PATH_MAX_def)
  have n: "length (fst (read_default_backup_dir ex_collision)) + 1 + 26 < PATH_MAX"
    by (simp add: ex_collision_default PATH_MAX_def)
  have x: "files ex_collision (fst (read_default_backup_dir ex_collision) @ ''/'' @ spec_backup_name ?t) \<noteq> None"
    by (simp add: ex_collision_default ex_world_backup_name ex_collision_misc)
  note th = main_collision_is_fatal [where k = 4094, OF g l ex_collision_src ex_collision_misc(1)
      ex_world_tm_in_range n x]
  note 1 = th [where depth = 4095 and prog = "''backup''", THEN conjunct1]
  note 3 = th [where depth = 4095 and prog = "''backup''", THEN conjunct2, THEN conjunct2, THEN conjunct1,
      rule_format, OF conjI [OF ex_collision_calls]]
  note 4 = th [where depth = 4095 and prog = "''backup''", THEN conjunct2, THEN conjunct2, THEN conjunct2,
      rule_format]
  have "copy_directory (Suc 4094) ex_collision ''/src'' ?D \<noteq> None"
    by (rule copy_directory_total [OF ex_collision_misc(5)]) (simp_all add: PATH_MAX_def)
  then obtain w' where w: "copy_directory (Suc 4094) ex_collision ''/src'' ?D = Some w'"
    by blast
  have d: "is_dir w' ?D"
    by (rule 4 [OF w, THEN conjunct1, rule_format]) (simp add: is_dir_def ex_collision_misc)
  have r: "is_reg w' ''/src/a.txt''"
    by (rule 4 [OF w, THEN conjunct2, rule_format]) (simp add: is_reg_def ex_collision_misc)
  have 5: "\<exists>w'. copy_directory (Suc 4094) ex_collision ''/src'' ?D = Some w'
          \<and> is_dir w' ?D \<and> is_reg w' ''/src/a.txt''"
    using w d r by blast
  show ?thesis
    by (intro conjI g ex_collision_src ex_collision_default ex_collision_misc(2) 1 ex_collision_calls 3 5)
qed

theorem main_collision_is_fatal_counterexample:
  "is_dir ex_collision ''/media/pi/piBackup/Backup 2024-01-02 03-04-05''
   \<and> map_option fst (main 4095 ex_collision ''backup'' [''/src'']) = Some 1
   \<and> map_option (files \<circ> snd) (main 4095 ex_collision ''backup'' [''/src'']) = Some (files ex_collision)
   \<and> map_option (last \<circ> stderr \<circ> snd) (main 4095 ex_collision ''backup'' [''/src''])
       = Some (Perror ''Failed to create backup directory'' EEXIST)
   \<and> files ex_collision ''/media/pi/piBackup/Backup 2024-01-02 03-04-05/a.txt'' = None"
proof -
  let ?t = "\<lparr>tm_year = 124, tm_mon = 0, tm_mday = 2, tm_hour = 3, tm_min = 4, tm_sec = 5\<rparr>"
  have g: "fst (getopt [''/src'']) = []" "snd (getopt [''/src'']) = [''/src'']"
    by (simp_all add: getopt_src)
  have l: "length ''/src'' < PATH_MAX" by (simp add: PATH_MAX_def)
  have n: "length (fst (read_default_backup_dir ex_collision)) + 1 + 26 < PATH_MAX"
    by (simp add: ex_collision_default PATH_MAX_def)
  have x: "files ex_collision (fst (read_default_backup_dir ex_collision) @ ''/'' @ spec_backup_name ?t) \<noteq> None"
    by (simp add: ex_collision_default ex_world_backup_name ex_collision_misc)
  obtain s' where m: "main 4095 ex_collision ''backup'' [''/src''] = Some (EXIT_FAILURE, s')"
    and f: "files s' = files ex_collision"
    and e: "last (stderr s') = Perror ''Failed to create backup directory'' EEXIST"
    using main_collision [OF g l ex_collision_src ex_collision_misc(1) ex_world_tm_in_range n x,
        of 4095 "''backup''"]
    by blast
  show ?thesis
    unfolding m by (simp add: f e EXIT_FAILURE_def is_dir_def ex_collision_misc)
qed




text \<open>
  C2. A failure to write that is not logged. The source directory holds one regular file
  of two bytes, and the file system of the destination is full. \<open>copy_file\<close> looks at
  the result of \<^verbatim>\<open>fwrite\<close> only; the two bytes fit the buffer of the stream,
  \<^verbatim>\<open>fwrite\<close> reports them written, and the write that fails is made by \<^verbatim>\<open>fclose\<close>,
  whose result line 270 drops. \<open>copy_directory\<close> returns with the log of a copy that
  went well and without the line of a write error, and the destination is an empty file.
\<close>

theorem copy_directory_write_failure_silent:
  "files ex_full ''/src/sub/b'' = Some (Reg 292 ''bb'')
   \<and> wlimit ex_full ''/media/pi/usb/sub/b'' = Some 0
   \<and> (\<exists>s'. copy_directory 1 ex_full ''/src/sub'' ''/media/pi/usb/sub'' = Some s'
        \<and> stderr s' =
            [Info ''Opened source directory: /src/sub'',
             Info ''Destination directory created or already exists: /media/pi/usb/sub'',
             Info ''Found file: /src/sub/b'',
             Info ''Opened source file: /src/sub/b'',
             Info ''Created destination file: /media/pi/usb/sub/b'',
             Info ''File copy completed: /src/sub/b -> /media/pi/usb/sub/b'',
             Info ''Permissions set successfully for: /media/pi/usb/sub/b'',
             Info ''Finished processing directory: /src/sub'']
        \<and> Error ''Write error occurred while copying file: /src/sub/b -> /media/pi/usb/sub/b''
              \<notin> set (stderr s')
        \<and> files s' ''/media/pi/usb/sub/b'' = Some (Reg 292 []))"
proof -
  obtain s' where c: "copy_directory 1 ex_full ''/src/sub'' ''/media/pi/usb/sub'' = Some s'"
    and e: "stderr s' =
            [Info ''Opened source directory: /src/sub'',
             Info ''Destination directory created or already exists: /media/pi/usb/sub'',
             Info ''Found file: /src/sub/b'',
             Info ''Opened source file: /src/sub/b'',
             Info ''Created destination file: /media/pi/usb/sub/b'',
             Info ''File copy completed: /src/sub/b -> /media/pi/usb/sub/b'',
             Info ''Permissions set successfully for: /media/pi/usb/sub/b'',
             Info ''Finished processing directory: /src/sub'']"
    and f: "files s' ''/media/pi/usb/sub/b'' = Some (Reg 292 [])"
    using ex_full_copy by blast
  have n: "Error ''Write error occurred while copying file: /src/sub/b -> /media/pi/usb/sub/b''
              \<notin> set (stderr s')"
    unfolding e by simp
  have w: "files ex_full ''/src/sub/b'' = Some (Reg 292 ''bb'')"
    "wlimit ex_full ''/media/pi/usb/sub/b'' = Some 0"
    by (simp_all add: ex_full_def ex_world_def)
  show ?thesis using c e f n w by blast
qed

end
